theory Spec2Isabelle
  imports Complex_Main "HOL-Library.Char_ord" "HOL-Library.List_Lexorder"
begin

section \<open>JavaScript numbers\<close>

text \<open>
  The source computes with IEEE doubles. A finite value is modelled as a real, and the
  three values that are not finite are kept, so that a division by zero of the source
  is a branch of the model and not HOL's \<open>x / 0 = 0\<close>. A zero divisor is the positive
  zero (every zero divisor of the source is a difference \<open>x - x\<close>, a sum of non-negative
  terms or an array length). The sign of zero is not modelled. The scores are computed
  in exact arithmetic; the loop that builds the time buckets, whose number of rounds
  depends on the rounding of every sum, rounds as the doubles do (\<open>toDouble\<close> below).
\<close>

datatype jsnum = Num real | PosInf | NegInf | NaN

fun jneg :: "jsnum \<Rightarrow> jsnum" where
  "jneg (Num a) = Num (- a)"
| "jneg PosInf = NegInf"
| "jneg NegInf = PosInf"
| "jneg NaN = NaN"

fun jadd :: "jsnum \<Rightarrow> jsnum \<Rightarrow> jsnum" where
  "jadd (Num a) (Num b) = Num (a + b)"
| "jadd NaN y = NaN"
| "jadd x NaN = NaN"
| "jadd PosInf NegInf = NaN"
| "jadd NegInf PosInf = NaN"
| "jadd PosInf y = PosInf"
| "jadd NegInf y = NegInf"
| "jadd (Num a) y = y"

definition jsub :: "jsnum \<Rightarrow> jsnum \<Rightarrow> jsnum" where
  "jsub x y = jadd x (jneg y)"

fun jscale :: "jsnum \<Rightarrow> real \<Rightarrow> jsnum" where
  "jscale (Num a) b = Num (a * b)"
| "jscale NaN b = NaN"
| "jscale PosInf b = (if b = 0 then NaN else if 0 < b then PosInf else NegInf)"
| "jscale NegInf b = (if b = 0 then NaN else if 0 < b then NegInf else PosInf)"

fun jmul :: "jsnum \<Rightarrow> jsnum \<Rightarrow> jsnum" where
  "jmul x (Num b) = jscale x b"
| "jmul (Num a) y = jscale y a"
| "jmul NaN y = NaN"
| "jmul x NaN = NaN"
| "jmul PosInf y = y"
| "jmul NegInf y = jneg y"

fun jdiv :: "jsnum \<Rightarrow> jsnum \<Rightarrow> jsnum" where
  "jdiv (Num a) (Num b) =
     (if b \<noteq> 0 then Num (a / b)
      else if a = 0 then NaN
      else if 0 < a then PosInf else NegInf)"
| "jdiv NaN y = NaN"
| "jdiv x NaN = NaN"
| "jdiv (Num a) y = Num 0"
| "jdiv PosInf (Num b) = (if 0 \<le> b then PosInf else NegInf)"
| "jdiv NegInf (Num b) = (if 0 \<le> b then NegInf else PosInf)"
| "jdiv x y = NaN"

fun jabs :: "jsnum \<Rightarrow> jsnum" where
  "jabs (Num a) = Num \<bar>a\<bar>"
| "jabs NaN = NaN"
| "jabs x = PosInf"

text \<open>\<open>Math.min\<close> and \<open>Math.max\<close> of two numbers: \<open>NaN\<close> when either is.\<close>

fun jmin :: "jsnum \<Rightarrow> jsnum \<Rightarrow> jsnum" where
  "jmin (Num a) (Num b) = Num (min a b)"
| "jmin NaN y = NaN"
| "jmin x NaN = NaN"
| "jmin NegInf y = NegInf"
| "jmin x NegInf = NegInf"
| "jmin PosInf y = y"
| "jmin x PosInf = x"

fun jmax :: "jsnum \<Rightarrow> jsnum \<Rightarrow> jsnum" where
  "jmax (Num a) (Num b) = Num (max a b)"
| "jmax NaN y = NaN"
| "jmax x NaN = NaN"
| "jmax PosInf y = PosInf"
| "jmax x PosInf = PosInf"
| "jmax NegInf y = y"
| "jmax x NegInf = x"

fun jceil :: "jsnum \<Rightarrow> jsnum" where
  "jceil (Num a) = Num (of_int \<lceil>a\<rceil>)"
| "jceil x = x"

text \<open>Comparisons: every comparison with \<open>NaN\<close> is false.\<close>

fun jlt :: "jsnum \<Rightarrow> jsnum \<Rightarrow> bool" where
  "jlt (Num a) (Num b) = (a < b)"
| "jlt NaN y = False"
| "jlt x NaN = False"
| "jlt x NegInf = False"
| "jlt PosInf y = False"
| "jlt x y = True"

definition jgt :: "jsnum \<Rightarrow> jsnum \<Rightarrow> bool" where
  "jgt x y = jlt y x"

fun jge :: "jsnum \<Rightarrow> jsnum \<Rightarrow> bool" where
  "jge NaN y = False"
| "jge x NaN = False"
| "jge x y = (\<not> jlt x y)"

text \<open>Dropping the fraction of a number (\<open>ToIntegerOrInfinity\<close>, \<open>TimeClip\<close>).\<close>

definition truncateToInt :: "real \<Rightarrow> int" where
  "truncateToInt x = (if 0 \<le> x then \<lfloor>x\<rfloor> else \<lceil>x\<rceil>)"

text \<open>\<open>xs.slice(0, end)\<close>: a negative end counts from the end of the array, \<open>NaN\<close> is
  taken as 0.\<close>

fun sliceTo :: "jsnum \<Rightarrow> 'a list \<Rightarrow> 'a list" where
  "sliceTo (Num r) xs =
     (let relativeEnd = truncateToInt r
      in if relativeEnd < 0 then take (nat (int (length xs) + relativeEnd)) xs
         else take (nat relativeEnd) xs)"
| "sliceTo PosInf xs = xs"
| "sliceTo NegInf xs = []"
| "sliceTo NaN xs = []"

text \<open>
  Rounding to the nearest double, ties to the even significand: a double has 53
  significant bits, and exponents from -1022 on. Overflow is left out: the numbers
  that are rounded are time values and their sums, and a time value of a \<open>Date\<close> is an
  integer of at most 8.64e15 in absolute value.
\<close>

definition roundHalfEven :: "real \<Rightarrow> int" where
  "roundHalfEven x =
     (let f = \<lfloor>x\<rfloor>; r = x - of_int f
      in if r < 1 / 2 then f else if 1 / 2 < r then f + 1 else if even f then f else f + 1)"

definition toDouble :: "real \<Rightarrow> real" where
  "toDouble x =
     (if x = 0 then 0
      else
        (let e = max \<lfloor>log 2 \<bar>x\<bar>\<rfloor> (- 1022);
             q = 2 powr (of_int (e - 52))
         in of_int (roundHalfEven (x / q)) * q))"

text \<open>\<open>x || 0\<close> on a number: \<open>NaN\<close> and zero are falsy.\<close>

fun orZero :: "jsnum \<Rightarrow> jsnum" where
  "orZero NaN = Num 0"
| "orZero x = x"

text \<open>\<open>x || 0\<close> on an optional field of the annotation provider's response.\<close>

fun or0 :: "real option \<Rightarrow> real" where
  "or0 None = 0"
| "or0 (Some x) = x"

text \<open>\<open>xs.reduce((sum, x) => sum + x, 0)\<close>, on numbers that may not be finite and on
  finite ones.\<close>

definition jsum :: "jsnum list \<Rightarrow> jsnum" where
  "jsum xs = foldl jadd (Num 0) xs"

definition rsum :: "real list \<Rightarrow> real" where
  "rsum xs = foldl (+) 0 xs"

section \<open>The annotation provider's response\<close>

datatype likelihood = UNKNOWN | VERY_UNLIKELY | UNLIKELY | POSSIBLE | LIKELY | VERY_LIKELY

record Vertex =
  vx :: "real option"
  vy :: "real option"

record BoundingPoly =
  vertices :: "Vertex list option"

record GoogleRgb =
  g_red :: "real option"
  g_green :: "real option"
  g_blue :: "real option"

record GoogleColorInfo =
  gc_color :: "GoogleRgb option"
  gc_score :: "real option"
  gc_pixelFraction :: "real option"

record LatLng =
  latitude :: real
  longitude :: real

record GoogleFaceAnnotation =
  fa_boundingPoly :: "BoundingPoly option"
  fa_joyLikelihood :: "likelihood option"
  fa_sorrowLikelihood :: "likelihood option"
  fa_angerLikelihood :: "likelihood option"
  fa_surpriseLikelihood :: "likelihood option"
  fa_detectionConfidence :: "real option"
  fa_blurredLikelihood :: "likelihood option"
  fa_headwearLikelihood :: "likelihood option"

text \<open>Label and landmark annotations share one type in the provider's interface. A
  location of a landmark is kept as its latitude and longitude after \<open>|| 0\<close>.\<close>

record GoogleEntityAnnotation =
  ea_description :: "string option"
  ea_score :: "real option"
  ea_topicality :: "real option"
  ea_boundingPoly :: "BoundingPoly option"
  ea_locations :: "LatLng list option"

record GoogleObjectAnnotation =
  oa_boundingPoly :: "BoundingPoly option"

text \<open>The id of a web entity is a string, \<open>null\<close>, or missing.\<close>

datatype entity_id = IdUndefined | IdNull | Id string

record GoogleWebEntity =
  we_entityId :: entity_id
  we_score :: "real option"
  we_description :: "string option"

text \<open>Of the two image lists of the web detection only the lengths are read.\<close>

record GoogleWebDetection =
  webEntities :: "GoogleWebEntity list option"
  visuallySimilarImages :: "nat option"
  partialMatchingImages :: "nat option"

text \<open>The chain \<open>imagePropertiesAnnotation?.dominantColors?.colors\<close> is one optional
  field: \<open>None\<close> when any link of the chain is missing.\<close>

record AnnotateImageResponse =
  faceAnnotations :: "GoogleFaceAnnotation list option"
  labelAnnotations :: "GoogleEntityAnnotation list option"
  landmarkAnnotations :: "GoogleEntityAnnotation list option"
  localizedObjectAnnotations :: "GoogleObjectAnnotation list option"
  dominantColors :: "GoogleColorInfo list option"
  webDetection :: "GoogleWebDetection option"

text \<open>\<open>xs || []\<close>\<close>

fun orEmpty :: "'a list option \<Rightarrow> 'a list" where
  "orEmpty None = []"
| "orEmpty (Some xs) = xs"

subsection \<open>vision-api\<close>

record BoundingBox =
  left :: real
  top :: real
  width :: real
  height :: real

text \<open>\<open>Math.min(...xs)\<close> and \<open>Math.max(...xs)\<close> on a list that is not empty.\<close>

fun minOf :: "real list \<Rightarrow> real" where
  "minOf [] = 0"
| "minOf (x # xs) = foldl min x xs"

fun maxOf :: "real list \<Rightarrow> real" where
  "maxOf [] = 0"
| "maxOf (x # xs) = foldl max x xs"

definition convertBoundingPoly :: "BoundingPoly option \<Rightarrow> BoundingBox" where
  "convertBoundingPoly poly =
     (case poly of
        None \<Rightarrow> \<lparr>left = 0, top = 0, width = 0, height = 0\<rparr>
      | Some p \<Rightarrow>
          (case vertices p of
             None \<Rightarrow> \<lparr>left = 0, top = 0, width = 0, height = 0\<rparr>
           | Some vs \<Rightarrow>
               if length vs < 4 then \<lparr>left = 0, top = 0, width = 0, height = 0\<rparr>
               else
                 let l = minOf (map (\<lambda>v. or0 (vx v)) vs);
                     t = minOf (map (\<lambda>v. or0 (vy v)) vs);
                     r = maxOf (map (\<lambda>v. or0 (vx v)) vs);
                     b = maxOf (map (\<lambda>v. or0 (vy v)) vs)
                 in \<lparr>left = l, top = t, width = r - l, height = b - t\<rparr>))"

fun likelihoodMap :: "likelihood \<Rightarrow> real" where
  "likelihoodMap UNKNOWN = 0"
| "likelihoodMap VERY_UNLIKELY = 0"
| "likelihoodMap UNLIKELY = 0.25"
| "likelihoodMap POSSIBLE = 0.5"
| "likelihoodMap LIKELY = 0.75"
| "likelihoodMap VERY_LIKELY = 1"

definition convertLikelihood :: "likelihood option \<Rightarrow> real" where
  "convertLikelihood l = likelihoodMap (case l of None \<Rightarrow> UNKNOWN | Some k \<Rightarrow> k)"

subsection \<open>photo-quality\<close>

definition channel :: "GoogleColorInfo \<Rightarrow> (GoogleRgb \<Rightarrow> real option) \<Rightarrow> real" where
  "channel c f = (case gc_color c of None \<Rightarrow> 0 | Some rgb \<Rightarrow> or0 (f rgb))"

text \<open>The Euclidean distance of two dominant colours, every channel read with \<open>|| 0\<close>.\<close>

definition colorContrast :: "GoogleColorInfo \<Rightarrow> GoogleColorInfo \<Rightarrow> real" where
  "colorContrast c1 c2 =
     sqrt ((channel c1 g_red - channel c2 g_red)\<^sup>2
         + (channel c1 g_green - channel c2 g_green)\<^sup>2
         + (channel c1 g_blue - channel c2 g_blue)\<^sup>2)"

text \<open>The loop \<open>for (i = 0; i < colors.length - 1; i++)\<close> over consecutive pairs.\<close>

fun adjacentPairs :: "'a list \<Rightarrow> ('a \<times> 'a) list" where
  "adjacentPairs (x # y # zs) = (x, y) # adjacentPairs (y # zs)"
| "adjacentPairs xs = []"

definition edgeStrength :: "GoogleColorInfo list \<Rightarrow> real" where
  "edgeStrength colors = rsum (map (\<lambda>(c1, c2). colorContrast c1 c2) (adjacentPairs colors))"

definition normalizedEdgeStrength :: "GoogleColorInfo list \<Rightarrow> jsnum" where
  "normalizedEdgeStrength colors =
     jmin (jdiv (Num (edgeStrength colors))
                (Num (255 * sqrt 3 * (real_of_int (int (length colors) - 1)))))
          (Num 1)"

definition evaluateBlur :: "AnnotateImageResponse \<Rightarrow> jsnum" where
  "evaluateBlur result =
     (let hasfaces = (case faceAnnotations result of None \<Rightarrow> False | Some fs \<Rightarrow> 0 < length fs);
          faceBlurScores =
            (if hasfaces
             then map (\<lambda>face. Num (1 - convertLikelihood (fa_blurredLikelihood face)))
                      (orEmpty (faceAnnotations result))
             else []);
          blurScores =
            (case dominantColors result of
               None \<Rightarrow> faceBlurScores
             | Some colors \<Rightarrow> faceBlurScores @ [normalizedEdgeStrength colors])
      in if length blurScores = 0 then Num 0.5
         else if hasfaces then
           (let faceBlurAverage =
                  jdiv (jsum (butlast blurScores))
                       (Num (real_of_int (int (length blurScores) - 1)));
                edgeScore = last blurScores
            in jadd (jmul faceBlurAverage (Num 0.7)) (jmul edgeScore (Num 0.3)))
         else jdiv (jsum blurScores) (Num (real (length blurScores))))"

definition evaluateExposure :: "AnnotateImageResponse \<Rightarrow> real" where
  "evaluateExposure result =
     (case dominantColors result of
        None \<Rightarrow> 0.5
      | Some colors \<Rightarrow>
          (let totalBrightness =
                 rsum (map (\<lambda>c. (channel c g_red + channel c g_green + channel c g_blue) / (3 * 255)
                                  * or0 (gc_pixelFraction c)) colors);
               totalWeight = rsum (map (\<lambda>c. or0 (gc_pixelFraction c)) colors);
               averageBrightness = (if 0 < totalWeight then totalBrightness / totalWeight else 0.5)
           in 1 - \<bar>averageBrightness - 0.5\<bar> * 2))"

definition evaluateNoise :: "AnnotateImageResponse \<Rightarrow> real" where
  "evaluateNoise result =
     (case dominantColors result of
        None \<Rightarrow> 0.5
      | Some colors \<Rightarrow>
          if length colors < 2 then 0.5
          else
            (let pairs = adjacentPairs colors;
                 noiseScore =
                   foldl (\<lambda>acc (c1, c2).
                            acc - colorContrast c1 c2 / (255 * sqrt 3)
                                  * (or0 (gc_pixelFraction c1) + or0 (gc_pixelFraction c2)))
                         1 pairs;
                 totalWeight =
                   rsum (map (\<lambda>(c1, c2). or0 (gc_pixelFraction c1) + or0 (gc_pixelFraction c2)) pairs)
             in max 0 (min 1 (noiseScore / (if totalWeight = 0 then 1 else totalWeight)))))"

text \<open>The subjects of a photo: the boxes of its faces, landmarks and localized objects.\<close>

definition subjectsOf :: "AnnotateImageResponse \<Rightarrow> BoundingBox list" where
  "subjectsOf result =
     map (\<lambda>face. convertBoundingPoly (fa_boundingPoly face)) (orEmpty (faceAnnotations result))
   @ map (\<lambda>landmark. convertBoundingPoly (ea_boundingPoly landmark)) (orEmpty (landmarkAnnotations result))
   @ map (\<lambda>object. convertBoundingPoly (oa_boundingPoly object)) (orEmpty (localizedObjectAnnotations result))"

definition evaluateRuleOfThirds :: "AnnotateImageResponse \<Rightarrow> real option" where
  "evaluateRuleOfThirds result =
     (let subjects = subjectsOf result
      in if length subjects = 0 then None
         else
           (let scores =
                  map (\<lambda>subject.
                         let centerX = left subject + width subject / 2;
                             centerY = top subject + height subject / 2;
                             distanceToVertical = minOf (map (\<lambda>third. \<bar>third - centerX\<bar>) [0.33, 0.67]);
                             distanceToHorizontal = minOf (map (\<lambda>third. \<bar>third - centerY\<bar>) [0.33, 0.67])
                         in 1 - min ((distanceToVertical + distanceToHorizontal) / 2) 1)
                      subjects
            in Some (rsum scores / real (length scores))))"

definition evaluateSubjectProminence :: "AnnotateImageResponse \<Rightarrow> real option" where
  "evaluateSubjectProminence result =
     (let subjects = subjectsOf result
      in if length subjects = 0 then None
         else
           (let imageArea = 1;
                prominenceScores =
                  map (\<lambda>subject.
                         let subjectArea = width subject * height subject;
                             areaScore = min (subjectArea / (imageArea * 0.5)) 1;
                             centerX = left subject + width subject / 2;
                             centerY = top subject + height subject / 2;
                             distanceFromCenter = sqrt ((centerX - 0.5)\<^sup>2 + (centerY - 0.5)\<^sup>2);
                             positionScore = 1 - min (distanceFromCenter / 0.5) 1
                         in areaScore * 0.6 + positionScore * 0.4)
                      subjects
            in Some (rsum prominenceScores / real (length prominenceScores))))"

definition evaluateVisualBalance :: "AnnotateImageResponse \<Rightarrow> real option" where
  "evaluateVisualBalance result =
     (case dominantColors result of
        None \<Rightarrow> None
      | Some colors \<Rightarrow>
          if length colors = 0 then None
          else
            (let weights =
                   map (\<lambda>c. or0 (gc_pixelFraction c)
                              * (channel c g_red + channel c g_green + channel c g_blue) / (3 * 255))
                       colors;
                 leftWeight = rsum (map (\<lambda>w. w * 0.5) weights);
                 rightWeight = rsum (map (\<lambda>w. w * 0.5) weights);
                 topWeight = rsum (map (\<lambda>w. w * 0.5) weights);
                 bottomWeight = rsum (map (\<lambda>w. w * 0.5) weights);
                 horizontalBalance = 1 - \<bar>leftWeight - rightWeight\<bar>;
                 verticalBalance = 1 - \<bar>topWeight - bottomWeight\<bar>
             in Some (horizontalBalance * 0.5 + verticalBalance * 0.5)))"

text \<open>The three steps of \<open>evaluateComposition\<close>: a sub-score that is not null adds its
  weighted value to \<open>compositionScore\<close> and one to \<open>scoreComponents\<close>.\<close>

definition addComponent :: "real option \<Rightarrow> real \<Rightarrow> real \<times> nat \<Rightarrow> real \<times> nat" where
  "addComponent sub weight acc =
     (case sub of
        None \<Rightarrow> acc
      | Some s \<Rightarrow> (fst acc + s * weight, Suc (snd acc)))"

definition composeScores :: "real option \<Rightarrow> real option \<Rightarrow> real option \<Rightarrow> real" where
  "composeScores thirdsScore prominenceScore balanceScore =
     (let acc = addComponent balanceScore 0.3
                  (addComponent prominenceScore 0.3
                     (addComponent thirdsScore 0.4 (0, 0)));
          compositionScore = fst acc;
          scoreComponents = snd acc
      in if 0 < scoreComponents then compositionScore / real scoreComponents else 0.5)"

definition evaluateComposition :: "AnnotateImageResponse \<Rightarrow> real" where
  "evaluateComposition result =
     composeScores (evaluateRuleOfThirds result) (evaluateSubjectProminence result)
       (evaluateVisualBalance result)"

section \<open>The engine's data model\<close>

text \<open>
  Fields that no operation of the engine reads are left out: the image buffer, title
  and interaction counters of a photo, the landmarks of a face, the safe-search flags
  and the cluster labels of an analysis. A \<open>Date\<close> is its time value, in milliseconds.
\<close>

record EmotionScores =
  joy :: real
  sorrow :: real
  anger :: real
  surprise :: real

record FaceAnalysis =
  boundingBox :: BoundingBox
  emotions :: EmotionScores
  confidence :: real
  blurred :: bool
  headwear :: bool

record Label =
  description :: string
  score :: real
  topicality :: real

record Landmark =
  lm_name :: string
  lm_score :: real
  lm_boundingBox :: BoundingBox
  lm_locations :: "LatLng list option"

record Rgb =
  red :: real
  green :: real
  blue :: real

record Color =
  color :: Rgb
  c_score :: real
  pixelFraction :: real

record ImageProperties =
  ip_dominantColors :: "Color list"
  brightness :: real
  contrast :: real
  sharpness :: real

record QualityMetrics =
  blurScore :: jsnum
  exposureScore :: real
  noiseScore :: real
  compositionScore :: real

record PhotoAnalysis =
  faces :: "FaceAnalysis list"
  labels :: "Label list"
  landmarks :: "Landmark list"
  imageProperties :: ImageProperties
  pa_webDetection :: GoogleWebDetection
  quality :: QualityMetrics

record PhotoScores =
  s_quality :: jsnum
  s_interest :: real
  s_emotion :: real
  s_uniqueness :: real
  s_relevance :: real
  s_temporal :: jsnum
  s_final :: jsnum

record Photo =
  ph_id :: string
  ph_url :: string
  dateTime :: int
  ph_location :: "LatLng option"

record EnhancedPhoto = Photo +
  analysis :: PhotoAnalysis
  scores :: "PhotoScores option"

record TimeRange =
  tr_start :: int
  tr_end :: int

record Weights =
  w_quality :: "real option"
  w_interest :: "real option"
  w_emotion :: "real option"
  w_uniqueness :: "real option"
  w_relevance :: "real option"
  w_temporal :: "real option"

record HighlightOptions =
  limit :: jsnum
  timeRange :: TimeRange
  minQuality :: real
  preferredTypes :: "string list"
  weights :: "Weights option"

record LabelFrequencies =
  individual :: "string \<rightharpoonup> nat"
  combinations :: "string \<rightharpoonup> nat"

datatype js_error = Error string

text \<open>What a \<open>catch\<close> receives: an \<open>Error\<close> object, or any other value, kept as its
  \<open>String(...)\<close>.\<close>

datatype thrown = ThrownError js_error | ThrownValue string

record BatchProcessingResult =
  success :: "EnhancedPhoto list"
  failed :: "(Photo \<times> js_error) list"

text \<open>The state of a \<open>GoogleVisionHighlightSelector\<close>.\<close>

record Selector =
  photos :: "EnhancedPhoto list"
  labelFrequencies :: LabelFrequencies

section \<open>Strings, maps and sorting of the host language\<close>

text \<open>\<open>s.split(d)\<close> for a one-character separator: one more element than separators.\<close>

fun splitOn :: "char \<Rightarrow> string \<Rightarrow> string list" where
  "splitOn d [] = [[]]"
| "splitOn d (c # cs) =
     (if c = d then [] # splitOn d cs
      else (case splitOn d cs of
              [] \<Rightarrow> [[c]]
            | w # ws \<Rightarrow> (c # w) # ws))"

fun joinWith :: "string \<Rightarrow> string list \<Rightarrow> string" where
  "joinWith d [] = []"
| "joinWith d [x] = x"
| "joinWith d (x # y # zs) = x @ d @ joinWith d (y # zs)"

fun startsWith :: "string \<Rightarrow> string \<Rightarrow> bool" where
  "startsWith s [] = True"
| "startsWith [] (k # ks) = False"
| "startsWith (c # cs) (k # ks) = (c = k \<and> startsWith cs ks)"

text \<open>\<open>s.includes(k)\<close>\<close>

fun includesStr :: "string \<Rightarrow> string \<Rightarrow> bool" where
  "includesStr [] k = (k = [])"
| "includesStr (c # cs) k = (startsWith (c # cs) k \<or> includesStr cs k)"

text \<open>\<open>s.toLowerCase()\<close>, on the letters A to Z; every other character is kept.\<close>

definition toLowerCase :: "string \<Rightarrow> string" where
  "toLowerCase s =
     map (\<lambda>c. case map_of (zip ''ABCDEFGHIJKLMNOPQRSTUVWXYZ'' ''abcdefghijklmnopqrstuvwxyz'') c of
                 None \<Rightarrow> c
               | Some l \<Rightarrow> l) s"

text \<open>The decimal text of an integer, as a template literal prints it.\<close>

fun natToString :: "nat \<Rightarrow> string" where
  "natToString n =
     (if n < 10 then [''0123456789'' ! n]
      else natToString (n div 10) @ [''0123456789'' ! (n mod 10)])"

declare natToString.simps [simp del]

definition intToString :: "int \<Rightarrow> string" where
  "intToString i = (if i < 0 then CHR ''-'' # natToString (nat (- i)) else natToString (nat i))"

text \<open>\<open>Math.round\<close>: the nearest integer, a half rounded up.\<close>

definition mathRound :: "real \<Rightarrow> int" where
  "mathRound x = \<lfloor>x + 1 / 2\<rfloor>"

text \<open>A \<open>Map\<close> keeps its keys in the order of their first insertion; \<open>set\<close> on a key
  that is present replaces the value in place.\<close>

fun mapSet :: "'k \<Rightarrow> 'v \<Rightarrow> ('k \<times> 'v) list \<Rightarrow> ('k \<times> 'v) list" where
  "mapSet k v [] = [(k, v)]"
| "mapSet k v ((k', v') # kvs) =
     (if k = k' then (k, v) # kvs else (k', v') # mapSet k v kvs)"

text \<open>\<open>Array.prototype.sort\<close> with a comparator is stable. \<open>before a b\<close> says that the
  comparator is negative on \<open>(a, b)\<close>; an element is placed in front of the first
  one it is strictly before, so equal elements keep their order.\<close>

fun insertBy :: "('a \<Rightarrow> 'a \<Rightarrow> bool) \<Rightarrow> 'a \<Rightarrow> 'a list \<Rightarrow> 'a list" where
  "insertBy before x [] = [x]"
| "insertBy before x (y # ys) =
     (if before x y then x # y # ys else y # insertBy before x ys)"

definition sortBy :: "('a \<Rightarrow> 'a \<Rightarrow> bool) \<Rightarrow> 'a list \<Rightarrow> 'a list" where
  "sortBy before xs = foldl (\<lambda>acc x. insertBy before x acc) [] xs"

text \<open>The comparator \<open>(a, b) => key(b) - key(a)\<close>: negative when the key of \<open>a\<close> is
  the greater one. A difference that is \<open>NaN\<close> (two equal infinities) counts as zero.\<close>

definition descendingBy :: "('a \<Rightarrow> jsnum) \<Rightarrow> 'a \<Rightarrow> 'a \<Rightarrow> bool" where
  "descendingBy key a b = jlt (jsub (key b) (key a)) (Num 0)"

text \<open>The index pairs \<open>i < j\<close> of the two nested loops over one array.\<close>

fun pairsOf :: "'a list \<Rightarrow> ('a \<times> 'a) list" where
  "pairsOf [] = []"
| "pairsOf (x # xs) = map (\<lambda>y. (x, y)) xs @ pairsOf xs"

section \<open>photo-meta-similarity\<close>

text \<open>A \<open>Set\<close> built from an array, as the list of its distinct elements.\<close>

definition jaccard :: "'a list \<Rightarrow> 'a list \<Rightarrow> real" where
  "jaccard xs ys =
     (let s1 = remdups xs; s2 = remdups ys;
          intersection = filter (\<lambda>x. x \<in> set s2) s1;
          union = remdups (s1 @ s2)
      in real (length intersection) / real (length union))"

definition calculateWebEntitySimilarity :: "EnhancedPhoto \<Rightarrow> EnhancedPhoto \<Rightarrow> real" where
  "calculateWebEntitySimilarity photo1 photo2 =
     (let entities1 = orEmpty (webEntities (pa_webDetection (analysis photo1)));
          entities2 = orEmpty (webEntities (pa_webDetection (analysis photo2)))
      in if length entities1 = 0 \<or> length entities2 = 0 then 0
         else
           (let entityIds1 = filter (\<lambda>i. i \<noteq> IdUndefined) (map we_entityId entities1);
                entityIds2 = filter (\<lambda>i. i \<noteq> IdUndefined) (map we_entityId entities2)
            in if length (remdups entityIds1) = 0 \<or> length (remdups entityIds2) = 0 then 0
               else jaccard entityIds1 entityIds2))"

definition calculateColorDistance :: "Color \<Rightarrow> Color \<Rightarrow> real" where
  "calculateColorDistance color1 color2 =
     sqrt ((red (color color1) - red (color color2))\<^sup>2
         + (green (color color1) - green (color color2))\<^sup>2
         + (blue (color color1) - blue (color color2))\<^sup>2)"

definition calculateColorSimilarity :: "Color list \<Rightarrow> Color list \<Rightarrow> real" where
  "calculateColorSimilarity colors1 colors2 =
     (if length colors1 = 0 \<or> length colors2 = 0 then 0
      else
        (let pairs = concat (map (\<lambda>color1. map (\<lambda>color2. (color1, color2)) colors2) colors1);
             totalSimilarity =
               rsum (map (\<lambda>(color1, color2).
                            (1 - calculateColorDistance color1 color2 / 441.67)
                            * (pixelFraction color1 * pixelFraction color2)) pairs);
             comparisons = length pairs
         in if 0 < comparisons then totalSimilarity / real comparisons else 0))"

definition calculateLayoutSimilarity :: "string \<Rightarrow> string \<Rightarrow> real" where
  "calculateLayoutSimilarity layout1 layout2 =
     (let elements1 = splitOn CHR ''|'' layout1;
          elements2 = splitOn CHR ''|'' layout2
      in if length elements1 = 0 \<or> length elements2 = 0 then 0
         else
           (let maxLength = max (length elements1) (length elements2);
                matchingElements = filter (\<lambda>element. element \<in> set elements2) elements1
            in real (length matchingElements) / real maxLength))"

definition getVisualElements :: "PhotoAnalysis \<Rightarrow> BoundingBox list" where
  "getVisualElements a = map boundingBox (faces a) @ map lm_boundingBox (landmarks a)"

definition createLayoutFingerprint :: "BoundingBox list \<Rightarrow> string" where
  "createLayoutFingerprint elements =
     joinWith ''|''
       (sort (map (\<lambda>box. joinWith '',''
                           [intToString (mathRound (left box)), intToString (mathRound (top box)),
                            intToString (mathRound (width box)), intToString (mathRound (height box))])
                  elements))"

definition calculateVisualFeatureSimilarity :: "EnhancedPhoto \<Rightarrow> EnhancedPhoto \<Rightarrow> real" where
  "calculateVisualFeatureSimilarity photo1 photo2 =
     (let colorSimilarity =
            calculateColorSimilarity (ip_dominantColors (imageProperties (analysis photo1)))
                                     (ip_dominantColors (imageProperties (analysis photo2)));
          layout1 = createLayoutFingerprint (getVisualElements (analysis photo1));
          layout2 = createLayoutFingerprint (getVisualElements (analysis photo2));
          layoutSimilarity = calculateLayoutSimilarity layout1 layout2
      in colorSimilarity * 0.6 + layoutSimilarity * 0.4)"

section \<open>colors and distance\<close>

text \<open>\<open>areColorsSimilar\<close> receives the three channels printed into one string and
  parses them back; printing and parsing a number is the identity, so the model
  passes the channels themselves.\<close>

definition areColorsSimilar :: "Rgb \<Rightarrow> Rgb \<Rightarrow> bool" where
  "areColorsSimilar color1 color2 =
     (sqrt ((red color1 - red color2)\<^sup>2 + (green color1 - green color2)\<^sup>2
            + (blue color1 - blue color2)\<^sup>2) < 30)"

text \<open>Modelled from the spec: \<open>toRadians\<close> of \<open>lib/math\<close>, which is not among the
  sources; the spec names the Haversine great-circle distance, whose angles are in
  radians.\<close>

definition toRadians :: "real \<Rightarrow> real" where
  "toRadians degrees = degrees * pi / 180"

text \<open>\<open>Math.atan2\<close>\<close>

definition atan2 :: "real \<Rightarrow> real \<Rightarrow> real" where
  "atan2 y x =
     (if 0 < x then arctan (y / x)
      else if x < 0 then (if 0 \<le> y then arctan (y / x) + pi else arctan (y / x) - pi)
      else if 0 < y then pi / 2
      else if y < 0 then - (pi / 2)
      else 0)"

definition calculateDistance :: "LatLng \<Rightarrow> LatLng \<Rightarrow> real" where
  "calculateDistance loc1 loc2 =
     (let R = 6371000;
          phi1 = toRadians (latitude loc1);
          phi2 = toRadians (latitude loc2);
          dphi = toRadians (latitude loc2 - latitude loc1);
          dlambda = toRadians (longitude loc2 - longitude loc1);
          a = sin (dphi / 2) * sin (dphi / 2)
              + cos phi1 * cos phi2 * sin (dlambda / 2) * sin (dlambda / 2);
          c = 2 * atan2 (sqrt a) (sqrt (1 - a))
      in R * c)"

section \<open>photo: derived image properties\<close>

definition calculateBrightness :: "GoogleColorInfo list \<Rightarrow> real" where
  "calculateBrightness colors =
     foldl (\<lambda>sum c. sum + (channel c g_red + channel c g_green + channel c g_blue) / 3 / 255
                             * or0 (gc_pixelFraction c)) 0 colors"

definition calculateContrast :: "GoogleColorInfo list \<Rightarrow> real" where
  "calculateContrast colors =
     (if length colors < 2 then 0
      else
        (let brightnesses = map (\<lambda>c. (channel c g_red + channel c g_green + channel c g_blue) / 3) colors
         in (maxOf brightnesses - minOf brightnesses) / 255))"

definition calculateSharpness :: "GoogleColorInfo list \<Rightarrow> real" where
  "calculateSharpness colors =
     (if length colors < 2 then 0
      else min (edgeStrength colors / (real (length colors) - 1) / 442) 1)"

section \<open>highlighter\<close>

subsection \<open>Analysis of one photo\<close>

definition processImageProperties :: "GoogleColorInfo list option \<Rightarrow> ImageProperties" where
  "processImageProperties properties =
     (case properties of
        None \<Rightarrow> \<lparr>ip_dominantColors = [], brightness = 0, contrast = 0, sharpness = 0\<rparr>
      | Some colors \<Rightarrow>
          \<lparr>ip_dominantColors =
             map (\<lambda>c. \<lparr>color = \<lparr>red = channel c g_red, green = channel c g_green,
                                   blue = channel c g_blue\<rparr>,
                        c_score = or0 (gc_score c),
                        pixelFraction = or0 (gc_pixelFraction c)\<rparr>) colors,
           brightness = calculateBrightness colors,
           contrast = calculateContrast colors,
           sharpness = calculateSharpness colors\<rparr>)"

definition orEmptyString :: "string option \<Rightarrow> string" where
  "orEmptyString s = (case s of None \<Rightarrow> [] | Some t \<Rightarrow> t)"

definition buildAnalysis :: "AnnotateImageResponse \<Rightarrow> PhotoAnalysis" where
  "buildAnalysis result =
     \<lparr>faces =
        map (\<lambda>face.
               \<lparr>boundingBox = convertBoundingPoly (fa_boundingPoly face),
                emotions = \<lparr>joy = convertLikelihood (fa_joyLikelihood face),
                            sorrow = convertLikelihood (fa_sorrowLikelihood face),
                            anger = convertLikelihood (fa_angerLikelihood face),
                            surprise = convertLikelihood (fa_surpriseLikelihood face)\<rparr>,
                confidence = or0 (fa_detectionConfidence face),
                blurred = (0.5 < convertLikelihood (fa_blurredLikelihood face)),
                headwear = (0.5 < convertLikelihood (fa_headwearLikelihood face))\<rparr>)
            (orEmpty (faceAnnotations result)),
      labels =
        map (\<lambda>label. \<lparr>description = orEmptyString (ea_description label),
                        score = or0 (ea_score label),
                        topicality = or0 (ea_topicality label)\<rparr>)
            (orEmpty (labelAnnotations result)),
      landmarks =
        map (\<lambda>landmark. \<lparr>lm_name = orEmptyString (ea_description landmark),
                           lm_score = or0 (ea_score landmark),
                           lm_boundingBox = convertBoundingPoly (ea_boundingPoly landmark),
                           lm_locations = ea_locations landmark\<rparr>)
            (orEmpty (landmarkAnnotations result)),
      imageProperties = processImageProperties (dominantColors result),
      pa_webDetection =
        (case webDetection result of
           None \<Rightarrow> \<lparr>webEntities = None, visuallySimilarImages = None, partialMatchingImages = None\<rparr>
         | Some w \<Rightarrow> w),
      quality = \<lparr>blurScore = evaluateBlur result,
                 exposureScore = evaluateExposure result,
                 noiseScore = evaluateNoise result,
                 compositionScore = evaluateComposition result\<rparr>\<rparr>"

text \<open>The annotation provider is an external collaborator: \<open>annotate\<close> gives, for a
  photo, what \<open>visionClient.annotateImage\<close> does: it throws, or it returns a first
  result that may be missing.\<close>

text \<open>\<open>{...photo, analysis}\<close>\<close>

definition withAnalysis :: "Photo \<Rightarrow> PhotoAnalysis \<Rightarrow> EnhancedPhoto" where
  "withAnalysis photo a =
     \<lparr>ph_id = ph_id photo, ph_url = ph_url photo, dateTime = dateTime photo,
      ph_location = ph_location photo, analysis = a, scores = None\<rparr>"

definition analyzePhoto ::
  "(Photo \<Rightarrow> thrown + AnnotateImageResponse option) \<Rightarrow> Photo \<Rightarrow> thrown + EnhancedPhoto" where
  "analyzePhoto annotate photo =
     (case annotate photo of
        Inl t \<Rightarrow> Inl t
      | Inr None \<Rightarrow> Inl (ThrownError (Error ''Failed to analyze photo: No result returned''))
      | Inr (Some result) \<Rightarrow> Inr (withAnalysis photo (buildAnalysis result)))"

subsection \<open>Label frequencies\<close>

definition comboKey :: "string \<Rightarrow> string \<Rightarrow> string" where
  "comboKey a b = joinWith ''|'' (sort [a, b])"

definition increment :: "(string \<rightharpoonup> nat) \<Rightarrow> string \<Rightarrow> (string \<rightharpoonup> nat)" where
  "increment m k = m(k \<mapsto> (case m k of None \<Rightarrow> 0 | Some count \<Rightarrow> count) + 1)"

definition updateLabelFrequencies :: "LabelFrequencies \<Rightarrow> Label list \<Rightarrow> LabelFrequencies" where
  "updateLabelFrequencies lf ls =
     \<lparr>individual = foldl (\<lambda>m label. increment m (description label)) (individual lf) ls,
      combinations =
        foldl (\<lambda>m (li, lj). increment m (comboKey (description li) (description lj)))
              (combinations lf) (pairsOf ls)\<rparr>"

subsection \<open>addPhotos\<close>

definition toError :: "thrown \<Rightarrow> js_error" where
  "toError t = (case t of ThrownError e \<Rightarrow> e | ThrownValue v \<Rightarrow> Error v)"

fun addPhotosLoop ::
  "(Photo \<Rightarrow> thrown + AnnotateImageResponse option) \<Rightarrow> Photo list
   \<Rightarrow> BatchProcessingResult \<times> Selector \<Rightarrow> BatchProcessingResult \<times> Selector" where
  "addPhotosLoop annotate [] (results, st) = (results, st)"
| "addPhotosLoop annotate (photo # rest) (results, st) =
     (case analyzePhoto annotate photo of
        Inr enhancedPhoto \<Rightarrow>
          addPhotosLoop annotate rest
            (results\<lparr>success := success results @ [enhancedPhoto]\<rparr>,
             st\<lparr>photos := photos st @ [enhancedPhoto],
                labelFrequencies :=
                  updateLabelFrequencies (labelFrequencies st) (labels (analysis enhancedPhoto))\<rparr>)
      | Inl error \<Rightarrow>
          addPhotosLoop annotate rest
            (results\<lparr>failed := failed results @ [(photo, toError error)]\<rparr>, st))"

definition addPhotos ::
  "(Photo \<Rightarrow> thrown + AnnotateImageResponse option) \<Rightarrow> Selector \<Rightarrow> Photo list
   \<Rightarrow> BatchProcessingResult \<times> Selector" where
  "addPhotos annotate st ps = addPhotosLoop annotate ps (\<lparr>success = [], failed = []\<rparr>, st)"

subsection \<open>The six dimension scores\<close>

definition calculateQualityScore :: "QualityMetrics \<Rightarrow> jsnum" where
  "calculateQualityScore q =
     jadd (jadd (jadd (jmul (blurScore q) (Num 0.35)) (Num (exposureScore q * 0.25)))
                (Num (noiseScore q * 0.2)))
          (Num (compositionScore q * 0.2))"

definition calculateFaceInterestScore :: "FaceAnalysis list \<Rightarrow> real" where
  "calculateFaceInterestScore fs =
     (if length fs = 0 then 0
      else
        (let faceScores =
               map (\<lambda>face.
                      let emotionScore =
                            maxOf [joy (emotions face), surprise (emotions face),
                                   sorrow (emotions face) * 0.5, anger (emotions face) * 0.5];
                          qualityScore = confidence face * (if blurred face then 0.5 else 1)
                      in emotionScore * 0.6 + qualityScore * 0.4) fs;
             multipleFaceFactor = min (real (length fs) / 3) 1;
             averageScore = rsum faceScores / real (length faceScores)
         in averageScore * (1 + multipleFaceFactor * 0.2)))"

definition calculateLandmarkInterestScore :: "Landmark list \<Rightarrow> real" where
  "calculateLandmarkInterestScore lms =
     (if length lms = 0 then 0
      else
        foldl (\<lambda>score landmark.
                 let c = lm_score landmark;
                     hasLocation = (case lm_locations landmark of
                                      None \<Rightarrow> False
                                    | Some locs \<Rightarrow> 0 < length locs)
                 in max score (c * (if hasLocation then 1.2 else 1)))
              0 lms)"

definition calculateWebInterestScore :: "GoogleWebDetection \<Rightarrow> real" where
  "calculateWebInterestScore wd =
     (case webEntities wd of
        None \<Rightarrow> 0
      | Some entities \<Rightarrow>
          if length entities = 0 then 0
          else
            (let averageScore =
                   foldl (\<lambda>sum entity.
                            sum + or0 (we_score entity)
                                  * (if orEmptyString (we_description entity) \<noteq> [] then 1.2 else 1))
                         0 entities
                   / real (length entities)
             in min (averageScore / 0.8) 1))"

definition interestingCategories :: "(string \<times> string list) list" where
  "interestingCategories =
     [(''events'', [''wedding'', ''party'', ''celebration'', ''ceremony'', ''festival'']),
      (''activities'', [''sport'', ''dance'', ''performance'', ''game'', ''adventure'']),
      (''nature'', [''sunset'', ''beach'', ''mountain'', ''landscape'', ''wildlife'']),
      (''emotions'', [''smile'', ''happy'', ''joy'', ''laugh'', ''excited'']),
      (''landmarks'', [''monument'', ''building'', ''architecture'', ''statue'', ''tower''])]"

definition calculateLabelInterestScore :: "Label list \<Rightarrow> real" where
  "calculateLabelInterestScore ls =
     (let categoryScores =
            foldl (\<lambda>m label.
                     foldl (\<lambda>m (category, keywords).
                              if list_ex (\<lambda>keyword. includesStr (toLowerCase (description label)) keyword)
                                         keywords
                              then mapSet category
                                     (max (case map_of m category of None \<Rightarrow> 0 | Some s \<Rightarrow> s)
                                          (score label)) m
                              else m)
                           m interestingCategories)
                  [] ls
      in if length categoryScores = 0 then 0.4
         else
           (let averageCategoryScore = rsum (map snd categoryScores) / real (length categoryScores);
                diversityBonus = min ((real (length categoryScores) - 1) * 0.1) 0.3
            in min (averageCategoryScore + diversityBonus) 1))"

definition calculateInterestScore :: "PhotoAnalysis \<Rightarrow> real" where
  "calculateInterestScore a =
     0 + calculateFaceInterestScore (faces a) * 0.35
       + calculateLandmarkInterestScore (landmarks a) * 0.25
       + calculateLabelInterestScore (labels a) * 0.25
       + calculateWebInterestScore (pa_webDetection a) * 0.15"

definition calculateEmotionScore :: "FaceAnalysis list \<Rightarrow> real" where
  "calculateEmotionScore fs =
     (if length fs = 0 then 0.5
      else
        (let totalPositive =
               rsum (map (\<lambda>face. (joy (emotions face) + surprise (emotions face) * 0.7)
                                  * confidence face) fs);
             totalNegative =
               rsum (map (\<lambda>face. (sorrow (emotions face) + anger (emotions face))
                                  * confidence face) fs);
             totalConfidence = rsum (map confidence fs)
         in if totalConfidence = 0 then 0.5
            else
              (let normalizedPositive = totalPositive / totalConfidence;
                   normalizedNegative = totalNegative / totalConfidence
               in min (normalizedPositive * 0.8 + (1 - normalizedNegative) * 0.2) 1)))"

text \<open>\<open>map.get(key) || 1\<close>\<close>

definition frequencyOr1 :: "(string \<rightharpoonup> nat) \<Rightarrow> string \<Rightarrow> nat" where
  "frequencyOr1 m k = (case m k of None \<Rightarrow> 1 | Some n \<Rightarrow> if n = 0 then 1 else n)"

definition calculateLabelUniqueness :: "Selector \<Rightarrow> Label list \<Rightarrow> real" where
  "calculateLabelUniqueness st ls =
     (if length ls = 0 then 0
      else
        (let individualScores =
               map (\<lambda>label.
                      1 / sqrt (real (frequencyOr1 (individual (labelFrequencies st)) (description label)))
                      * score label) ls;
             combinationScores =
               map (\<lambda>(li, lj).
                      1 / sqrt (real (frequencyOr1 (combinations (labelFrequencies st))
                                        (comboKey (description li) (description lj))))
                      * min (score li) (score lj)) (pairsOf ls);
             avgIndividualScore = rsum individualScores / real (length individualScores);
             avgCombinationScore =
               (if 0 < length combinationScores
                then rsum combinationScores / real (length combinationScores) else 0)
         in avgIndividualScore * 0.4 + avgCombinationScore * 0.6))"

definition calculateVisualUniqueness :: "GoogleWebDetection \<Rightarrow> real" where
  "calculateVisualUniqueness wd =
     (case visuallySimilarImages wd of
        None \<Rightarrow> 1
      | Some n \<Rightarrow>
          if n = 0 then 1
          else
            (let similarityScore = max 0 (1 - real n / 10);
                 partialMatchScore =
                   (case partialMatchingImages wd of
                      None \<Rightarrow> 1
                    | Some m \<Rightarrow> if m = 0 then 1 else max 0 (1 - real m / 5))
             in similarityScore * 0.7 + partialMatchScore * 0.3))"

text \<open>The two comparisons against the pool divide by its size, which is at least one
  when the photo scored is a photo of the pool.\<close>

definition calculateColorUniqueness :: "Selector \<Rightarrow> ImageProperties \<Rightarrow> real" where
  "calculateColorUniqueness st properties =
     (let colors = ip_dominantColors properties
      in if length colors = 0 then 0
         else
           (let uniquenessScore =
                  foldl (\<lambda>acc c.
                           let similarityCount =
                                 length (filter (\<lambda>otherPhoto.
                                           list_ex (\<lambda>otherColor. areColorsSimilar (color c) (color otherColor))
                                             (ip_dominantColors (imageProperties (analysis otherPhoto))))
                                         (photos st))
                           in acc + (1 - real similarityCount / real (length (photos st)))
                                    * pixelFraction c)
                        0 colors
            in uniquenessScore / real (length colors)))"

definition calculateLayoutUniqueness :: "Selector \<Rightarrow> FaceAnalysis list \<Rightarrow> Landmark list \<Rightarrow> real" where
  "calculateLayoutUniqueness st fs lms =
     (let elements = map boundingBox fs @ map lm_boundingBox lms
      in if length elements = 0 then 0.5
         else
           (let layoutFingerprint = createLayoutFingerprint elements;
                similarLayoutCount =
                  length (filter (\<lambda>otherPhoto.
                            0.8 < calculateLayoutSimilarity layoutFingerprint
                                    (createLayoutFingerprint (getVisualElements (analysis otherPhoto))))
                          (photos st))
            in 1 - real similarLayoutCount / real (length (photos st))))"

definition calculateCompositionUniqueness :: "Selector \<Rightarrow> EnhancedPhoto \<Rightarrow> real" where
  "calculateCompositionUniqueness st photo =
     (let colorUniqueness = calculateColorUniqueness st (imageProperties (analysis photo));
          layoutUniqueness =
            calculateLayoutUniqueness st (faces (analysis photo)) (landmarks (analysis photo))
      in colorUniqueness * 0.5 + layoutUniqueness * 0.5)"

definition calculateUniquenessScore :: "Selector \<Rightarrow> EnhancedPhoto \<Rightarrow> real" where
  "calculateUniquenessScore st photo =
     (let labelUniqueness = calculateLabelUniqueness st (labels (analysis photo));
          visualUniqueness = calculateVisualUniqueness (pa_webDetection (analysis photo));
          compositionUniqueness = calculateCompositionUniqueness st photo
      in labelUniqueness * 0.4 + visualUniqueness * 0.4 + compositionUniqueness * 0.2)"

definition calculateRelevanceScore :: "EnhancedPhoto \<Rightarrow> string list \<Rightarrow> real" where
  "calculateRelevanceScore photo types =
     (if length types = 0 then 1
      else
        (let relevantLabels =
               filter (\<lambda>label. list_ex (\<lambda>type. includesStr (toLowerCase (description label))
                                                    (toLowerCase type)) types)
                      (labels (analysis photo))
         in if length relevantLabels = 0 then 0
            else foldl (\<lambda>acc label. acc + score label) 0 relevantLabels
                 / real (length relevantLabels)))"

definition calculateTemporalScore :: "int \<Rightarrow> TimeRange \<Rightarrow> jsnum" where
  "calculateTemporalScore t tr =
     (let totalRange = tr_end tr - tr_start tr;
          position = t - tr_start tr;
          normalizedPosition = jdiv (Num (real_of_int position)) (Num (real_of_int totalRange));
          distanceFromMiddle = jabs (jsub (Num 0.5) normalizedPosition)
      in jsub (Num 1) distanceFromMiddle)"

text \<open>\<open>{...this.defaultWeights, ...options.weights}\<close>: a weight the caller gives
  replaces the default of its key; the keys keep the order of the defaults.\<close>

definition pickWeight :: "HighlightOptions \<Rightarrow> (Weights \<Rightarrow> real option) \<Rightarrow> real \<Rightarrow> real" where
  "pickWeight options field dflt =
     (case weights options of
        None \<Rightarrow> dflt
      | Some w \<Rightarrow> (case field w of None \<Rightarrow> dflt | Some v \<Rightarrow> v))"

definition scorePhoto :: "Selector \<Rightarrow> HighlightOptions \<Rightarrow> EnhancedPhoto \<Rightarrow> EnhancedPhoto" where
  "scorePhoto st options photo =
     (let q = calculateQualityScore (quality (analysis photo));
          i = calculateInterestScore (analysis photo);
          e = calculateEmotionScore (faces (analysis photo));
          u = calculateUniquenessScore st photo;
          r = calculateRelevanceScore photo (preferredTypes options);
          t = calculateTemporalScore (dateTime photo) (timeRange options);
          final =
            foldl (\<lambda>total (s, weight). jadd total (jmul s (Num weight))) (Num 0)
              [(q, pickWeight options w_quality 0.25),
               (Num i, pickWeight options w_interest 0.2),
               (Num e, pickWeight options w_emotion 0.15),
               (Num u, pickWeight options w_uniqueness 0.15),
               (Num r, pickWeight options w_relevance 0.15),
               (t, pickWeight options w_temporal 0.1)]
      in photo\<lparr>scores := Some \<lparr>s_quality = q, s_interest = i, s_emotion = e, s_uniqueness = u,
                                s_relevance = r, s_temporal = t, s_final = final\<rparr>\<rparr>)"

subsection \<open>Similarity of two photos and grouping\<close>

definition calculateLabelSimilarity :: "EnhancedPhoto \<Rightarrow> EnhancedPhoto \<Rightarrow> real" where
  "calculateLabelSimilarity photo1 photo2 =
     (let labels1 = remdups (map description (labels (analysis photo1)));
          labels2 = remdups (map description (labels (analysis photo2)))
      in if length labels1 = 0 \<or> length labels2 = 0 then 0 else jaccard labels1 labels2)"

definition checkPhotoSimilarity :: "EnhancedPhoto \<Rightarrow> EnhancedPhoto \<Rightarrow> bool" where
  "checkPhotoSimilarity photo1 photo2 =
     (let timeThreshold = 5 * 60 * 1000;
          timeDiff = \<bar>dateTime photo1 - dateTime photo2\<bar>
      in if timeThreshold < timeDiff then False
         else if (case (ph_location photo1, ph_location photo2) of
                    (Some loc1, Some loc2) \<Rightarrow> 100 < calculateDistance loc1 loc2
                  | _ \<Rightarrow> False)
         then False
         else
           (let totalSimilarity =
                  calculateLabelSimilarity photo1 photo2 * 0.4
                  + calculateWebEntitySimilarity photo1 photo2 * 0.3
                  + calculateVisualFeatureSimilarity photo1 photo2 * 0.3
            in 0.8 < totalSimilarity))"

text \<open>The inner loop of \<open>groupSimilarPhotos\<close>: the photos that join the group of
  \<open>photo\<close>, and the ids processed so far.\<close>

definition absorbSimilar ::
  "EnhancedPhoto \<Rightarrow> EnhancedPhoto list \<Rightarrow> string set \<Rightarrow> EnhancedPhoto list \<times> string set" where
  "absorbSimilar photo all processedIds =
     foldl (\<lambda>(similarPhotos, processed) otherPhoto.
              if ph_id photo = ph_id otherPhoto \<or> ph_id otherPhoto \<in> processed
              then (similarPhotos, processed)
              else if checkPhotoSimilarity photo otherPhoto
              then (similarPhotos @ [otherPhoto], insert (ph_id otherPhoto) processed)
              else (similarPhotos, processed))
           ([photo], insert (ph_id photo) processedIds) all"

definition groupSimilarPhotos :: "EnhancedPhoto list \<Rightarrow> (string \<times> EnhancedPhoto list) list" where
  "groupSimilarPhotos all =
     fst (foldl (\<lambda>(groups, processedIds) photo.
                   if ph_id photo \<in> processedIds then (groups, processedIds)
                   else
                     (let (similarPhotos, processed) = absorbSimilar photo all processedIds
                      in (mapSet (ph_id photo) similarPhotos groups, processed)))
                ([], {}) all)"

subsection \<open>Time buckets\<close>

record Bucket =
  b_start :: int
  b_end :: int

text \<open>\<open>new Date(x)\<close> drops the fraction of a time value.\<close>

definition toDate :: "real \<Rightarrow> int" where
  "toDate x = truncateToInt x"

text \<open>
  The loop \<open>for (time = start; time < end; time += bucketDuration)\<close>, every sum rounded
  to a double. A step that is too small for the current time leaves the time
  unchanged, and the loop then never ends: \<open>None\<close> stands for a call that does not
  return.
\<close>

partial_function (option) bucketLoop :: "real \<Rightarrow> real \<Rightarrow> real \<Rightarrow> Bucket list option" where
  "bucketLoop time e d =
     (if time < e
      then Option.bind (bucketLoop (toDouble (time + d)) e d)
             (\<lambda>rest. Some (\<lparr>b_start = toDate time,
                                 b_end = toDate (min (toDouble (time + d)) e)\<rparr> # rest))
      else Some [])"

definition createTimeBuckets :: "TimeRange \<Rightarrow> Bucket list option" where
  "createTimeBuckets tr =
     (let totalDuration = toDouble (real_of_int (tr_end tr) - real_of_int (tr_start tr));
          bucketDuration = toDouble (totalDuration / 10)
      in bucketLoop (real_of_int (tr_start tr)) (real_of_int (tr_end tr)) bucketDuration)"

subsection \<open>Diverse selection\<close>

text \<open>\<open>photo.scores?.quality || 0\<close> and \<open>photo.scores?.final || 0\<close>\<close>

definition qualityOf :: "EnhancedPhoto \<Rightarrow> jsnum" where
  "qualityOf photo = (case scores photo of None \<Rightarrow> Num 0 | Some s \<Rightarrow> orZero (s_quality s))"

definition finalOf :: "EnhancedPhoto \<Rightarrow> jsnum" where
  "finalOf photo = (case scores photo of None \<Rightarrow> Num 0 | Some s \<Rightarrow> orZero (s_final s))"

text \<open>An eligible group is the list of a group's photos that fall into the bucket and
  meet the quality threshold. It is entered only when it is not empty: it is kept as
  its first photo and the rest.\<close>

definition getEligibleGroupsForBucket ::
  "(string \<times> EnhancedPhoto list) list \<Rightarrow> Bucket \<Rightarrow> string set \<Rightarrow> real
   \<Rightarrow> (string \<times> EnhancedPhoto \<times> EnhancedPhoto list) list" where
  "getEligibleGroupsForBucket groups bucket usedGroups minQ =
     List.map_filter
       (\<lambda>(groupId, ps).
          if groupId \<in> usedGroups then None
          else (case filter (\<lambda>photo. b_start bucket \<le> dateTime photo
                                     \<and> dateTime photo \<le> b_end bucket
                                     \<and> jge (qualityOf photo) (Num minQ)) ps of
                  [] \<Rightarrow> None
                | p # rest \<Rightarrow> Some (groupId, p, rest)))
       groups"

definition isPhotoDiverse :: "EnhancedPhoto \<Rightarrow> EnhancedPhoto list \<Rightarrow> bool" where
  "isPhotoDiverse photo selectedPhotos =
     list_all (\<lambda>selected. \<not> checkPhotoSimilarity photo selected) selectedPhotos"

text \<open>\<open>Math.max(...xs)\<close> on numbers that may be infinite.\<close>

definition jmaxOf :: "jsnum list \<Rightarrow> jsnum" where
  "jmaxOf xs = foldl jmax NegInf xs"

text \<open>\<open>photos.reduce((best, current) => ... ? current : best)\<close> on a group that is not
  empty.\<close>

definition bestPhotoOf :: "EnhancedPhoto \<times> EnhancedPhoto list \<Rightarrow> EnhancedPhoto" where
  "bestPhotoOf g =
     foldl (\<lambda>best current. if jgt (finalOf current) (finalOf best) then current else best)
           (fst g) (snd g)"

text \<open>The loop over the sorted groups of one bucket, with its \<open>break\<close>.\<close>

fun pickFromGroups ::
  "jsnum \<Rightarrow> EnhancedPhoto list \<Rightarrow> ((EnhancedPhoto \<times> EnhancedPhoto list) \<times> jsnum) list
   \<Rightarrow> EnhancedPhoto list \<Rightarrow> EnhancedPhoto list" where
  "pickFromGroups count alreadySelected [] selections = selections"
| "pickFromGroups count alreadySelected (g # rest) selections =
     (if jge (Num (real (length selections))) count then selections
      else
        (let bestPhoto = bestPhotoOf (fst g)
         in pickFromGroups count alreadySelected rest
              (if isPhotoDiverse bestPhoto (alreadySelected @ selections)
               then selections @ [bestPhoto] else selections)))"

definition selectBestGroupsFromBucket ::
  "(string \<times> EnhancedPhoto \<times> EnhancedPhoto list) list \<Rightarrow> jsnum \<Rightarrow> EnhancedPhoto list
   \<Rightarrow> EnhancedPhoto list" where
  "selectBestGroupsFromBucket eligibleGroups count alreadySelected =
     (let sortedGroups =
            sortBy (descendingBy snd)
              (map (\<lambda>(groupId, g). (g, jmaxOf (map finalOf (fst g # snd g)))) eligibleGroups)
      in pickFromGroups count alreadySelected sortedGroups [])"

definition selectRemainingBestPhotos ::
  "(string \<times> EnhancedPhoto list) list \<Rightarrow> string set \<Rightarrow> jsnum \<Rightarrow> real \<Rightarrow> EnhancedPhoto list" where
  "selectRemainingBestPhotos groups usedGroups count minQ =
     (let candidates =
            concat (map (\<lambda>(groupId, ps).
                           if groupId \<notin> usedGroups
                           then filter (\<lambda>photo. jge (qualityOf photo) (Num minQ)) ps
                           else [])
                        groups)
      in sliceTo count (sortBy (descendingBy finalOf) candidates))"

text \<open>One bucket of the per-bucket fill: every photo selected for the bucket is pushed
  to \<open>selectedPhotos\<close> and its own id is added to \<open>usedGroups\<close>.\<close>

definition fillBucket ::
  "(string \<times> EnhancedPhoto list) list \<Rightarrow> jsnum \<Rightarrow> real
   \<Rightarrow> EnhancedPhoto list \<times> string set \<Rightarrow> Bucket \<Rightarrow> EnhancedPhoto list \<times> string set" where
  "fillBucket groups photosPerBucket minQ acc bucket =
     (let eligibleGroups = getEligibleGroupsForBucket groups bucket (snd acc) minQ;
          bucketSelections = selectBestGroupsFromBucket eligibleGroups photosPerBucket (fst acc)
      in foldl (\<lambda>(selectedPhotos, usedGroups) photo.
                  (selectedPhotos @ [photo], insert (ph_id photo) usedGroups))
               acc bucketSelections)"

text \<open>The part of \<open>selectDiverseHighlights\<close> that follows the making of the buckets.\<close>

definition selectWithBuckets ::
  "(string \<times> EnhancedPhoto list) list \<Rightarrow> HighlightOptions \<Rightarrow> Bucket list \<Rightarrow> EnhancedPhoto list" where
  "selectWithBuckets groups options timeBuckets =
     (let photosPerBucket = jceil (jdiv (limit options) (Num (real (length timeBuckets))));
          filled = foldl (fillBucket groups photosPerBucket (minQuality options)) ([], {}) timeBuckets;
          selectedPhotos = fst filled;
          usedGroups = snd filled;
          withRemaining =
            (if jlt (Num (real (length selectedPhotos))) (limit options)
             then selectedPhotos
                  @ selectRemainingBestPhotos groups usedGroups
                      (jsub (limit options) (Num (real (length selectedPhotos))))
                      (minQuality options)
             else selectedPhotos)
      in sliceTo (limit options) withRemaining)"

definition selectDiverseHighlights ::
  "(string \<times> EnhancedPhoto list) list \<Rightarrow> HighlightOptions \<Rightarrow> EnhancedPhoto list option" where
  "selectDiverseHighlights groups options =
     map_option (selectWithBuckets groups options) (createTimeBuckets (timeRange options))"

text \<open>\<open>selectHighlights\<close> as a function of the values that the pool and the frequency
  tables hold when it is called. \<open>None\<close>: the call does not return.\<close>

definition selectHighlights :: "Selector \<Rightarrow> HighlightOptions \<Rightarrow> EnhancedPhoto list option" where
  "selectHighlights st options =
     (let scoredPhotos = map (scorePhoto st options) (photos st);
          groups = groupSimilarPhotos scoredPhotos
      in selectDiverseHighlights groups options)"

section \<open>The selection pass on a store\<close>

text \<open>
  Arrays of photos and photo objects are mutable and shared by reference in the source:
  \<open>push\<close> and \<open>sort\<close> change an array in place, and two variables may hold the same
  array. Here the arrays of photos and the photo objects live in a store, a reference
  is an index into the store, and every statement of the pass that creates or changes
  an array of photos or a photo object is a step on the store: an array literal,
  \<open>map\<close>, \<open>filter\<close>, \<open>slice\<close> and the spread \<open>[...a, ...b]\<close> allocate a new array,
  \<open>{...photo, scores}\<close> allocates a new object, \<open>push\<close> and \<open>sort\<close> write to the array
  they are called on. The state of a selector is the array \<open>this.photos\<close>, the objects
  it refers to, and the two frequency tables. The pass calls only \<open>get\<close> on the two
  frequency maps and assigns to no field of a photo, so the store has no step that
  writes to a table or to an object that exists. Collections of strings, numbers,
  buckets and group records are made and consumed inside one function and stay values;
  a \<open>forEach\<close> visits the elements its array has when the loop starts.
\<close>

record Store =
  arrays :: "nat list list"
  objects :: "EnhancedPhoto list"
  tables :: LabelFrequencies

definition photoAt :: "Store \<Rightarrow> nat \<Rightarrow> EnhancedPhoto" where
  "photoAt s r = objects s ! r"

definition arrayAt :: "Store \<Rightarrow> nat \<Rightarrow> nat list" where
  "arrayAt s a = arrays s ! a"

text \<open>The photos that an array refers to.\<close>

definition photosIn :: "Store \<Rightarrow> nat \<Rightarrow> EnhancedPhoto list" where
  "photosIn s a = map (photoAt s) (arrayAt s a)"

text \<open>What the selector at \<open>pool\<close> holds: the photos of \<open>this.photos\<close> and the tables.\<close>

definition selectorOf :: "Store \<Rightarrow> nat \<Rightarrow> Selector" where
  "selectorOf s pool = \<lparr>photos = photosIn s pool, labelFrequencies = tables s\<rparr>"

definition allocArray :: "nat list \<Rightarrow> Store \<Rightarrow> nat \<times> Store" where
  "allocArray xs s = (length (arrays s), s\<lparr>arrays := arrays s @ [xs]\<rparr>)"

definition allocObject :: "EnhancedPhoto \<Rightarrow> Store \<Rightarrow> nat \<times> Store" where
  "allocObject p s = (length (objects s), s\<lparr>objects := objects s @ [p]\<rparr>)"

text \<open>\<open>a.push(...xs)\<close> and \<open>a.sort(compare)\<close>\<close>

definition pushTo :: "nat \<Rightarrow> nat list \<Rightarrow> Store \<Rightarrow> Store" where
  "pushTo a xs s = s\<lparr>arrays := (arrays s)[a := arrays s ! a @ xs]\<rparr>"

definition sortIn :: "nat \<Rightarrow> (nat \<Rightarrow> nat \<Rightarrow> bool) \<Rightarrow> Store \<Rightarrow> Store" where
  "sortIn a before s = s\<lparr>arrays := (arrays s)[a := sortBy before (arrays s ! a)]\<rparr>"

text \<open>\<open>this.photos.map(photo => ({...photo, scores}))\<close>: one new object for every photo
  of the pool; the scores are computed from what the selector holds at that moment.\<close>

fun scorePhotosIn :: "nat \<Rightarrow> HighlightOptions \<Rightarrow> nat list \<Rightarrow> Store \<Rightarrow> nat list \<times> Store" where
  "scorePhotosIn pool options [] s = ([], s)"
| "scorePhotosIn pool options (r # rs) s =
     (let (r', s1) = allocObject (scorePhoto (selectorOf s pool) options (photoAt s r)) s;
          (rs', s2) = scorePhotosIn pool options rs s1
      in (r' # rs', s2))"

text \<open>\<open>groupSimilarPhotos\<close>: \<open>similarPhotos\<close> is a new array \<open>[photo]\<close>, and every similar
  photo is pushed to it.\<close>

fun absorbSimilarIn :: "nat \<Rightarrow> nat \<Rightarrow> nat list \<Rightarrow> string set \<times> Store \<Rightarrow> string set \<times> Store" where
  "absorbSimilarIn photo similarPhotos [] acc = acc"
| "absorbSimilarIn photo similarPhotos (other # rest) (processedIds, s) =
     absorbSimilarIn photo similarPhotos rest
       (if ph_id (photoAt s photo) = ph_id (photoAt s other)
           \<or> ph_id (photoAt s other) \<in> processedIds
        then (processedIds, s)
        else if checkPhotoSimilarity (photoAt s photo) (photoAt s other)
        then (insert (ph_id (photoAt s other)) processedIds, pushTo similarPhotos [other] s)
        else (processedIds, s))"

fun groupLoopIn ::
  "nat list \<Rightarrow> nat list \<Rightarrow> (string \<times> nat) list \<times> string set \<times> Store
   \<Rightarrow> (string \<times> nat) list \<times> string set \<times> Store" where
  "groupLoopIn all [] acc = acc"
| "groupLoopIn all (photo # rest) (groups, processedIds, s) =
     groupLoopIn all rest
       (if ph_id (photoAt s photo) \<in> processedIds then (groups, processedIds, s)
        else
          (let (similarPhotos, s1) = allocArray [photo] s;
               (processed, s2) =
                 absorbSimilarIn photo similarPhotos all
                   (insert (ph_id (photoAt s photo)) processedIds, s1)
           in (mapSet (ph_id (photoAt s photo)) similarPhotos groups, processed, s2)))"

definition groupSimilarPhotosIn :: "nat \<Rightarrow> Store \<Rightarrow> (string \<times> nat) list \<times> Store" where
  "groupSimilarPhotosIn photosRef s =
     (case groupLoopIn (arrayAt s photosRef) (arrayAt s photosRef) ([], {}, s) of
        (groups, processedIds, s') \<Rightarrow> (groups, s'))"

text \<open>\<open>getEligibleGroupsForBucket\<close>: every \<open>photos.filter(...)\<close> is a new array.\<close>

fun getEligibleGroupsForBucketIn ::
  "(string \<times> nat) list \<Rightarrow> Bucket \<Rightarrow> string set \<Rightarrow> real \<Rightarrow> Store
   \<Rightarrow> (string \<times> nat) list \<times> Store" where
  "getEligibleGroupsForBucketIn [] bucket usedGroups minQ s = ([], s)"
| "getEligibleGroupsForBucketIn ((groupId, photosRef) # rest) bucket usedGroups minQ s =
     (if groupId \<in> usedGroups then getEligibleGroupsForBucketIn rest bucket usedGroups minQ s
      else
        (let (bucketPhotos, s1) =
               allocArray
                 (filter (\<lambda>r. b_start bucket \<le> dateTime (photoAt s r)
                               \<and> dateTime (photoAt s r) \<le> b_end bucket
                               \<and> jge (qualityOf (photoAt s r)) (Num minQ))
                         (arrayAt s photosRef)) s;
             (eligible, s2) = getEligibleGroupsForBucketIn rest bucket usedGroups minQ s1
         in if 0 < length (arrayAt s1 bucketPhotos)
            then ((groupId, bucketPhotos) # eligible, s2)
            else (eligible, s2)))"

text \<open>The loop of \<open>selectBestGroupsFromBucket\<close>. \<open>reduce\<close> without an initial value throws
  on an empty array: \<open>None\<close>. The spread \<open>[...alreadySelected, ...selections]\<close> is a new
  array; the best photo is pushed to \<open>selections\<close>.\<close>

fun pickFromGroupsIn ::
  "jsnum \<Rightarrow> nat \<Rightarrow> nat \<Rightarrow> (nat \<times> jsnum) list \<Rightarrow> Store \<Rightarrow> Store option" where
  "pickFromGroupsIn count alreadySelected selections [] s = Some s"
| "pickFromGroupsIn count alreadySelected selections (g # rest) s =
     (if jge (Num (real (length (arrayAt s selections)))) count then Some s
      else
        (case arrayAt s (fst g) of
           [] \<Rightarrow> None
         | first # others \<Rightarrow>
             (let bestPhoto =
                    foldl (\<lambda>best current.
                             if jgt (finalOf (photoAt s current)) (finalOf (photoAt s best))
                             then current else best)
                          first others;
                  (chosen, s1) = allocArray (arrayAt s alreadySelected @ arrayAt s selections) s
              in pickFromGroupsIn count alreadySelected selections rest
                   (if isPhotoDiverse (photoAt s1 bestPhoto) (photosIn s1 chosen)
                    then pushTo selections [bestPhoto] s1 else s1))))"

definition selectBestGroupsFromBucketIn ::
  "(string \<times> nat) list \<Rightarrow> jsnum \<Rightarrow> nat \<Rightarrow> Store \<Rightarrow> (nat \<times> Store) option" where
  "selectBestGroupsFromBucketIn eligibleGroups count alreadySelected s =
     (let (selections, s1) = allocArray [] s;
          sortedGroups =
            sortBy (descendingBy snd)
              (map (\<lambda>(groupId, photosRef).
                      (photosRef, jmaxOf (map (\<lambda>r. finalOf (photoAt s1 r)) (arrayAt s1 photosRef))))
                   eligibleGroups)
      in map_option (\<lambda>s2. (selections, s2))
           (pickFromGroupsIn count alreadySelected selections sortedGroups s1))"

text \<open>One bucket: every photo selected for it is pushed to \<open>selectedPhotos\<close>.\<close>

definition fillBucketIn ::
  "(string \<times> nat) list \<Rightarrow> jsnum \<Rightarrow> real \<Rightarrow> nat \<Rightarrow> string set \<times> Store \<Rightarrow> Bucket
   \<Rightarrow> (string set \<times> Store) option" where
  "fillBucketIn groups photosPerBucket minQ selectedPhotos acc bucket =
     (let (eligibleGroups, s1) =
            getEligibleGroupsForBucketIn groups bucket (fst acc) minQ (snd acc)
      in case selectBestGroupsFromBucketIn eligibleGroups photosPerBucket selectedPhotos s1 of
           None \<Rightarrow> None
         | Some (bucketSelections, s2) \<Rightarrow>
             Some (foldl (\<lambda>(usedGroups, s) photo.
                            (insert (ph_id (photoAt s photo)) usedGroups,
                             pushTo selectedPhotos [photo] s))
                         (fst acc, s2) (arrayAt s2 bucketSelections)))"

fun fillBucketsIn ::
  "(string \<times> nat) list \<Rightarrow> jsnum \<Rightarrow> real \<Rightarrow> nat \<Rightarrow> Bucket list \<Rightarrow> string set \<times> Store
   \<Rightarrow> (string set \<times> Store) option" where
  "fillBucketsIn groups photosPerBucket minQ selectedPhotos [] acc = Some acc"
| "fillBucketsIn groups photosPerBucket minQ selectedPhotos (bucket # rest) acc =
     (case fillBucketIn groups photosPerBucket minQ selectedPhotos acc bucket of
        None \<Rightarrow> None
      | Some acc' \<Rightarrow> fillBucketsIn groups photosPerBucket minQ selectedPhotos rest acc')"

text \<open>\<open>selectRemainingBestPhotos\<close>: \<open>candidates\<close> is a new array, the filtered photos of
  every unused group are pushed to it, it is sorted in place, and the slice is a new
  array.\<close>

fun collectCandidatesIn ::
  "(string \<times> nat) list \<Rightarrow> string set \<Rightarrow> real \<Rightarrow> nat \<Rightarrow> Store \<Rightarrow> Store" where
  "collectCandidatesIn [] usedGroups minQ candidates s = s"
| "collectCandidatesIn ((groupId, photosRef) # rest) usedGroups minQ candidates s =
     collectCandidatesIn rest usedGroups minQ candidates
       (if groupId \<notin> usedGroups
        then (let (kept, s1) =
                    allocArray (filter (\<lambda>r. jge (qualityOf (photoAt s r)) (Num minQ))
                                       (arrayAt s photosRef)) s
              in pushTo candidates (arrayAt s1 kept) s1)
        else s)"

definition selectRemainingBestPhotosIn ::
  "(string \<times> nat) list \<Rightarrow> string set \<Rightarrow> jsnum \<Rightarrow> real \<Rightarrow> Store \<Rightarrow> nat \<times> Store" where
  "selectRemainingBestPhotosIn groups usedGroups count minQ s =
     (let (candidates, s1) = allocArray [] s;
          s2 = collectCandidatesIn groups usedGroups minQ candidates s1;
          s3 = sortIn candidates
                 (\<lambda>a b. descendingBy finalOf (photoAt s2 a) (photoAt s2 b)) s2
      in allocArray (sliceTo count (arrayAt s3 candidates)) s3)"

definition selectWithBucketsIn ::
  "(string \<times> nat) list \<Rightarrow> HighlightOptions \<Rightarrow> Bucket list \<Rightarrow> Store \<Rightarrow> (nat \<times> Store) option" where
  "selectWithBucketsIn groups options timeBuckets s =
     (let photosPerBucket = jceil (jdiv (limit options) (Num (real (length timeBuckets))));
          (selectedPhotos, s1) = allocArray [] s
      in case fillBucketsIn groups photosPerBucket (minQuality options) selectedPhotos timeBuckets
                ({}, s1) of
           None \<Rightarrow> None
         | Some (usedGroups, s2) \<Rightarrow>
             (let s3 =
                    (if jlt (Num (real (length (arrayAt s2 selectedPhotos)))) (limit options)
                     then (let (remaining, s') =
                                 selectRemainingBestPhotosIn groups usedGroups
                                   (jsub (limit options)
                                         (Num (real (length (arrayAt s2 selectedPhotos)))))
                                   (minQuality options) s2
                           in pushTo selectedPhotos (arrayAt s' remaining) s')
                     else s2)
              in Some (allocArray (sliceTo (limit options) (arrayAt s3 selectedPhotos)) s3)))"

definition selectDiverseHighlightsIn ::
  "(string \<times> nat) list \<Rightarrow> HighlightOptions \<Rightarrow> Store \<Rightarrow> (nat \<times> Store) option" where
  "selectDiverseHighlightsIn groups options s =
     (case createTimeBuckets (timeRange options) of
        None \<Rightarrow> None
      | Some timeBuckets \<Rightarrow> selectWithBucketsIn groups options timeBuckets s)"

text \<open>\<open>selectHighlights\<close> on the selector whose array \<open>this.photos\<close> is at \<open>pool\<close>: the
  array it returns, and the store after the call. \<open>None\<close>: the call does not return a
  list.\<close>

definition selectHighlightsIn :: "nat \<Rightarrow> HighlightOptions \<Rightarrow> Store \<Rightarrow> (nat \<times> Store) option" where
  "selectHighlightsIn pool options s =
     (let (scoredRefs, s1) = scorePhotosIn pool options (arrayAt s pool) s;
          (scoredPhotos, s2) = allocArray scoredRefs s1;
          (groups, s3) = groupSimilarPhotosIn scoredPhotos s2
      in selectDiverseHighlightsIn groups options s3)"

text \<open>A store in which the references of the pool are references to objects.\<close>

definition validPool :: "Store \<Rightarrow> nat \<Rightarrow> bool" where
  "validPool s pool =
     (pool < length (arrays s) \<and> list_all (\<lambda>r. r < length (objects s)) (arrayAt s pool))"

text \<open>\<open>unchangedBelow m s s'\<close>: the step from \<open>s\<close> to \<open>s'\<close> has left the objects, the tables
  and the arrays at the addresses below \<open>m\<close> as they were, and has freed no array.\<close>

definition unchangedBelow :: "nat \<Rightarrow> Store \<Rightarrow> Store \<Rightarrow> bool" where
  "unchangedBelow m s s' =
     (objects s' = objects s \<and> tables s' = tables s
      \<and> length (arrays s) \<le> length (arrays s')
      \<and> take m (arrays s') = take m (arrays s))"

definition derefGroups :: "Store \<Rightarrow> (string \<times> nat) list \<Rightarrow> (string \<times> EnhancedPhoto list) list" where
  "derefGroups s groups = map (\<lambda>(groupId, a). (groupId, photosIn s a)) groups"

definition validGroups :: "nat \<Rightarrow> (string \<times> nat) list \<Rightarrow> bool" where
  "validGroups m groups = list_all (\<lambda>(groupId, a). a < m) groups"

section \<open>Example inputs\<close>

definition noResponse :: AnnotateImageResponse where
  "noResponse =
     \<lparr>faceAnnotations = None, labelAnnotations = None, landmarkAnnotations = None,
      localizedObjectAnnotations = None, dominantColors = None, webDetection = None\<rparr>"

text \<open>A face whose only signals are its joy and blur likelihoods.\<close>

definition faceWith :: "likelihood \<Rightarrow> likelihood \<Rightarrow> GoogleFaceAnnotation" where
  "faceWith joyL blurL =
     \<lparr>fa_boundingPoly = None, fa_joyLikelihood = Some joyL, fa_sorrowLikelihood = None,
      fa_angerLikelihood = None, fa_surpriseLikelihood = None, fa_detectionConfidence = Some 1,
      fa_blurredLikelihood = Some blurL, fa_headwearLikelihood = None\<rparr>"

text \<open>Three sharp, joyful faces, a landmark with a location, the label "Wedding" and
  a described web entity, every score at 1.\<close>

definition weddingResponse :: AnnotateImageResponse where
  "weddingResponse =
     noResponse
       \<lparr>faceAnnotations :=
          Some [faceWith VERY_LIKELY VERY_UNLIKELY, faceWith VERY_LIKELY VERY_UNLIKELY,
                faceWith VERY_LIKELY VERY_UNLIKELY],
        labelAnnotations :=
          Some [\<lparr>ea_description = Some ''Wedding'', ea_score = Some 1, ea_topicality = Some 1,
                 ea_boundingPoly = None, ea_locations = None\<rparr>],
        landmarkAnnotations :=
          Some [\<lparr>ea_description = Some ''Eiffel Tower'', ea_score = Some 1, ea_topicality = None,
                 ea_boundingPoly = None, ea_locations = Some [\<lparr>latitude = 48, longitude = 2\<rparr>]\<rparr>],
        webDetection :=
          Some \<lparr>webEntities = Some [\<lparr>we_entityId = Id ''e1'', we_score = Some 1,
                                      we_description = Some ''Wedding''\<rparr>],
                visuallySimilarImages = None, partialMatchingImages = None\<rparr>\<rparr>"

text \<open>One face, detected with confidence 1, very likely in sorrow and in anger.\<close>

definition grievingResponse :: AnnotateImageResponse where
  "grievingResponse =
     noResponse
       \<lparr>faceAnnotations :=
          Some [\<lparr>fa_boundingPoly = None, fa_joyLikelihood = Some VERY_UNLIKELY,
                 fa_sorrowLikelihood = Some VERY_LIKELY, fa_angerLikelihood = Some VERY_LIKELY,
                 fa_surpriseLikelihood = Some VERY_UNLIKELY, fa_detectionConfidence = Some 1,
                 fa_blurredLikelihood = Some VERY_UNLIKELY, fa_headwearLikelihood = None\<rparr>]\<rparr>"

definition blackColor :: "real \<Rightarrow> GoogleColorInfo" where
  "blackColor fraction =
     \<lparr>gc_color = Some \<lparr>g_red = Some 0, g_green = Some 0, g_blue = Some 0\<rparr>,
      gc_score = Some fraction, gc_pixelFraction = Some fraction\<rparr>"

text \<open>No face, landmark or object; one dominant colour that covers the image.\<close>

definition blackResponse :: AnnotateImageResponse where
  "blackResponse = noResponse\<lparr>dominantColors := Some [blackColor 1]\<rparr>"

text \<open>Faces and no image properties: one sharp face, and a blurred face followed by a
  sharp one.\<close>

definition oneFaceResponse :: AnnotateImageResponse where
  "oneFaceResponse = noResponse\<lparr>faceAnnotations := Some [faceWith UNLIKELY VERY_UNLIKELY]\<rparr>"

definition twoFacesResponse :: AnnotateImageResponse where
  "twoFacesResponse =
     noResponse\<lparr>faceAnnotations :=
       Some [faceWith UNLIKELY VERY_LIKELY, faceWith UNLIKELY VERY_UNLIKELY]\<rparr>"

text \<open>Two photos of one scene, a second apart: the same label, the same web entity
  (scored 0.4 for the first photo and 0.8 for the second), the same two dominant
  colours.\<close>

definition catResponse :: "real \<Rightarrow> AnnotateImageResponse" where
  "catResponse webScore =
     noResponse
       \<lparr>labelAnnotations :=
          Some [\<lparr>ea_description = Some ''cat'', ea_score = Some 0.5, ea_topicality = Some 0.5,
                 ea_boundingPoly = None, ea_locations = None\<rparr>],
        dominantColors := Some [blackColor 0.5, blackColor 0.5],
        webDetection :=
          Some \<lparr>webEntities = Some [\<lparr>we_entityId = Id ''e1'', we_score = Some webScore,
                                      we_description = None\<rparr>],
                visuallySimilarImages = None, partialMatchingImages = None\<rparr>\<rparr>"

definition photoA :: Photo where
  "photoA = \<lparr>ph_id = ''A'', ph_url = ''a.jpg'', dateTime = 0, ph_location = None\<rparr>"

definition photoB :: Photo where
  "photoB = \<lparr>ph_id = ''B'', ph_url = ''b.jpg'', dateTime = 1000, ph_location = None\<rparr>"

definition annotateAB :: "Photo \<Rightarrow> thrown + AnnotateImageResponse option" where
  "annotateAB p = Inr (Some (if ph_id p = ''A'' then catResponse 0.4 else catResponse 0.8))"

definition emptySelector :: Selector where
  "emptySelector =
     \<lparr>photos = [], labelFrequencies = \<lparr>individual = Map.empty, combinations = Map.empty\<rparr>\<rparr>"

definition selectorAB :: Selector where
  "selectorAB = snd (addPhotos annotateAB emptySelector [photoA, photoB])"

definition optionsAB :: HighlightOptions where
  "optionsAB =
     \<lparr>limit = Num 3, timeRange = \<lparr>tr_start = 0, tr_end = 100000\<rparr>, minQuality = 0.2,
      preferredTypes = [], weights = None\<rparr>"

definition enhancedA :: EnhancedPhoto where
  "enhancedA = withAnalysis photoA (buildAnalysis (catResponse 0.4))"

definition enhancedB :: EnhancedPhoto where
  "enhancedB = withAnalysis photoB (buildAnalysis (catResponse 0.8))"

definition scoredA :: EnhancedPhoto where
  "scoredA = scorePhoto selectorAB optionsAB enhancedA"

definition scoredB :: EnhancedPhoto where
  "scoredB = scorePhoto selectorAB optionsAB enhancedB"

definition halfGray :: Color where
  "halfGray = \<lparr>color = \<lparr>red = 128, green = 128, blue = 128\<rparr>, c_score = 0.5, pixelFraction = 0.5\<rparr>"

definition fullGray :: Color where
  "fullGray = \<lparr>color = \<lparr>red = 128, green = 128, blue = 128\<rparr>, c_score = 1, pixelFraction = 1\<rparr>"

definition bucketsAB :: "Bucket list" where
  "bucketsAB =
     [\<lparr>b_start = 0, b_end = 10000\<rparr>, \<lparr>b_start = 10000, b_end = 20000\<rparr>,
      \<lparr>b_start = 20000, b_end = 30000\<rparr>, \<lparr>b_start = 30000, b_end = 40000\<rparr>,
      \<lparr>b_start = 40000, b_end = 50000\<rparr>, \<lparr>b_start = 50000, b_end = 60000\<rparr>,
      \<lparr>b_start = 60000, b_end = 70000\<rparr>, \<lparr>b_start = 70000, b_end = 80000\<rparr>,
      \<lparr>b_start = 80000, b_end = 90000\<rparr>, \<lparr>b_start = 90000, b_end = 100000\<rparr>]"

text \<open>A third photo, on which the provider throws an \<open>Error\<close> object.\<close>

definition photoC :: Photo where
  "photoC = \<lparr>ph_id = ''C'', ph_url = ''c.jpg'', dateTime = 2000, ph_location = None\<rparr>"

definition annotateThrowing :: "Photo \<Rightarrow> thrown + AnnotateImageResponse option" where
  "annotateThrowing p =
     (if ph_id p = ''B'' then Inl (ThrownValue ''unavailable'')
      else if ph_id p = ''C'' then Inl (ThrownError (Error ''quota exceeded''))
      else Inr (Some (catResponse 0.4)))"

text \<open>The store after \<open>addPhotos\<close> of the photos A and B: \<open>this.photos\<close> is the array 0.\<close>

definition storeAB :: Store where
  "storeAB =
     \<lparr>arrays = [[0, 1]], objects = [enhancedA, enhancedB], tables = labelFrequencies selectorAB\<rparr>"

section \<open>Scores of one photo\<close>

lemma scorePhoto_interest:
  "map_option s_interest (scores (scorePhoto st options photo))
   = Some (calculateInterestScore (analysis photo))"
  by (simp add: scorePhoto_def Let_def)

lemma scorePhoto_emotion:
  "map_option s_emotion (scores (scorePhoto st options photo))
   = Some (calculateEmotionScore (faces (analysis photo)))"
  by (simp add: scorePhoto_def Let_def)

lemma scorePhoto_temporal:
  "map_option s_temporal (scores (scorePhoto st options photo))
   = Some (calculateTemporalScore (dateTime photo) (timeRange options))"
  by (simp add: scorePhoto_def Let_def)

lemma interest_weddingResponse:
  "calculateInterestScore (buildAnalysis weddingResponse) = 28 / 25"
  by (simp add: calculateInterestScore_def buildAnalysis_def weddingResponse_def noResponse_def
      faceWith_def calculateFaceInterestScore_def calculateLandmarkInterestScore_def
      calculateLabelInterestScore_def calculateWebInterestScore_def interestingCategories_def
      toLowerCase_def orEmptyString_def convertLikelihood_def rsum_def Let_def)

lemma emotion_grievingResponse:
  "calculateEmotionScore (faces (buildAnalysis grievingResponse)) = - (1 / 5)"
  by (simp add: calculateEmotionScore_def buildAnalysis_def grievingResponse_def noResponse_def
      convertLikelihood_def rsum_def Let_def)

text \<open>
  C1. The claim: for every photo with a valid annotation, each of the six dimension
  scores and the final score that \<open>selectHighlights\<close> computes lies in [0,1]. The code
  does not keep the bound. A photo annotated with three sharp joyful faces, a located
  landmark, the label "Wedding" and a described web entity, every score at 1, gets the
  interest score 1.12, whatever the pool and the options: the face and landmark parts
  are raised by a factor of up to 1.2 and never capped, where the label and web parts
  are. A photo whose one face is very likely in sorrow and in anger gets the emotion
  score -0.2: that score is capped at 1 and has no floor.
\<close>

theorem interest_and_emotion_leave_unit_interval:
  "map_option s_interest
     (scores (scorePhoto st options (withAnalysis photo (buildAnalysis weddingResponse))))
   = Some (28 / 25)
   \<and> map_option s_emotion
       (scores (scorePhoto st options (withAnalysis photo (buildAnalysis grievingResponse))))
     = Some (- (1 / 5))"
  by (simp only: scorePhoto_interest scorePhoto_emotion)
     (simp add: withAnalysis_def interest_weddingResponse emotion_grievingResponse)

section \<open>Composition\<close>

lemma composeScores_equal: "composeScores (Some s) (Some s) (Some s) = s / 3"
  by (simp add: composeScores_def addComponent_def Let_def)

lemma blackResponse_subscores:
  "evaluateRuleOfThirds blackResponse = None
   \<and> evaluateSubjectProminence blackResponse = None
   \<and> evaluateVisualBalance blackResponse = Some 1"
  by (simp add: evaluateRuleOfThirds_def evaluateSubjectProminence_def evaluateVisualBalance_def
      subjectsOf_def blackResponse_def noResponse_def blackColor_def rsum_def channel_def Let_def)

text \<open>
  C2. The claim: the composition score is the arithmetic average of the sub-scores
  that are not null (rule of thirds, prominence, balance), 0.5 when all are null, and
  \<open>s\<close> when all three are present and equal \<open>s\<close>. The code multiplies every sub-score
  by its weight (0.4, 0.3, 0.3) and then still divides the sum by the number of
  sub-scores. For a response with no subject and one dominant colour the only sub-score
  is the balance, 1, and the composition score is 0.3; three sub-scores equal to \<open>s\<close>
  give \<open>s / 3\<close>.
\<close>

theorem composition_is_not_the_average:
  "evaluateRuleOfThirds blackResponse = None
   \<and> evaluateSubjectProminence blackResponse = None
   \<and> evaluateVisualBalance blackResponse = Some 1
   \<and> evaluateComposition blackResponse = 3 / 10
   \<and> composeScores (Some s) (Some s) (Some s) = s / 3"
  using blackResponse_subscores composeScores_equal [of s]
  by (simp add: evaluateComposition_def composeScores_def addComponent_def Let_def)

section \<open>Temporal score\<close>

lemma temporal_formula:
  assumes "tr_start tr < tr_end tr"
  shows "calculateTemporalScore t tr =
     Num (1 - \<bar>1 / 2 - real_of_int (t - tr_start tr) / real_of_int (tr_end tr - tr_start tr)\<bar>)"
  using assms by (simp add: calculateTemporalScore_def Let_def jsub_def)

text \<open>
  C3, as the claim states it: with ten days as the range, a photo taken at the start
  of the range would score 0. It scores 0.5.
\<close>

theorem temporal_score_at_start_counterexample:
  "calculateTemporalScore 0 \<lparr>tr_start = 0, tr_end = 864000000\<rparr> = Num (1 / 2)
   \<and> calculateTemporalScore 0 \<lparr>tr_start = 0, tr_end = 864000000\<rparr> \<noteq> Num 0"
  by (simp add: calculateTemporalScore_def jsub_def)

text \<open>
  C3, amended. For a range with \<open>start < end\<close> the temporal score of a photo taken at
  \<open>t\<close> is \<open>1 - |0.5 - (t - start) / (end - start)|\<close>. It is 1 at the midpoint, it
  decreases monotonically toward both ends (of two times before the midpoint the
  earlier one does not score more, of two times after it the later one does not
  score more), and it is 0.5 for a photo taken exactly at the start or exactly at the
  end.
\<close>

theorem temporal_score_shape:
  assumes lt: "tr_start tr < tr_end tr"
  shows "calculateTemporalScore t tr =
           Num (1 - \<bar>1 / 2 - real_of_int (t - tr_start tr) / real_of_int (tr_end tr - tr_start tr)\<bar>)
       \<and> (2 * (t - tr_start tr) = tr_end tr - tr_start tr \<longrightarrow> calculateTemporalScore t tr = Num 1)
       \<and> (\<forall>t1 t2. t1 \<le> t2 \<and> 2 * (t2 - tr_start tr) \<le> tr_end tr - tr_start tr
            \<longrightarrow> jge (calculateTemporalScore t2 tr) (calculateTemporalScore t1 tr))
       \<and> (\<forall>t1 t2. t1 \<le> t2 \<and> tr_end tr - tr_start tr \<le> 2 * (t1 - tr_start tr)
            \<longrightarrow> jge (calculateTemporalScore t1 tr) (calculateTemporalScore t2 tr))
       \<and> calculateTemporalScore (tr_start tr) tr = Num (1 / 2)
       \<and> calculateTemporalScore (tr_end tr) tr = Num (1 / 2)"
proof -
  define w where "w = real_of_int (tr_end tr - tr_start tr)"
  have w: "0 < w" using lt by (simp add: w_def)
  have f: "\<And>u. calculateTemporalScore u tr = Num (1 - \<bar>1 / 2 - real_of_int (u - tr_start tr) / w\<bar>)"
    using temporal_formula [OF lt] by (simp add: w_def)
  have mid: "2 * (t - tr_start tr) = tr_end tr - tr_start tr \<longrightarrow> calculateTemporalScore t tr = Num 1"
  proof
    assume "2 * (t - tr_start tr) = tr_end tr - tr_start tr"
    then have "2 * real_of_int (t - tr_start tr) = w"
      unfolding w_def by (metis of_int_mult of_int_numeral)
    moreover define x where "x = real_of_int (t - tr_start tr)"
    ultimately have xw: "w = 2 * x"
      by simp
    then have "x \<noteq> 0"
      using w by auto
    then have "x / w = 1 / 2"
      unfolding xw by simp
    then have half: "real_of_int (t - tr_start tr) / w = 1 / 2"
      by (simp only: x_def)
    have "calculateTemporalScore t tr = Num (1 - \<bar>1 / 2 - 1 / 2\<bar>)"
      by (simp only: f half)
    then show "calculateTemporalScore t tr = Num 1"
      by simp
  qed
  have up: "\<forall>t1 t2. t1 \<le> t2 \<and> 2 * (t2 - tr_start tr) \<le> tr_end tr - tr_start tr
            \<longrightarrow> jge (calculateTemporalScore t2 tr) (calculateTemporalScore t1 tr)"
  proof (intro allI impI)
    fix t1 t2 assume a: "t1 \<le> t2 \<and> 2 * (t2 - tr_start tr) \<le> tr_end tr - tr_start tr"
    then have "real_of_int (2 * (t2 - tr_start tr)) \<le> w"
      unfolding w_def by (simp only: of_int_le_iff)
    then have h2: "real_of_int (t2 - tr_start tr) / w \<le> 1 / 2"
      using w by (simp add: field_simps)
    have "real_of_int (t1 - tr_start tr) \<le> real_of_int (t2 - tr_start tr)"
      using a by simp
    then have h1: "real_of_int (t1 - tr_start tr) / w \<le> real_of_int (t2 - tr_start tr) / w"
      using w by (simp add: divide_right_mono)
    show "jge (calculateTemporalScore t2 tr) (calculateTemporalScore t1 tr)"
      using h1 h2 by (simp add: f)
  qed
  have down: "\<forall>t1 t2. t1 \<le> t2 \<and> tr_end tr - tr_start tr \<le> 2 * (t1 - tr_start tr)
            \<longrightarrow> jge (calculateTemporalScore t1 tr) (calculateTemporalScore t2 tr)"
  proof (intro allI impI)
    fix t1 t2 assume a: "t1 \<le> t2 \<and> tr_end tr - tr_start tr \<le> 2 * (t1 - tr_start tr)"
    then have "w \<le> real_of_int (2 * (t1 - tr_start tr))"
      unfolding w_def by (simp only: of_int_le_iff)
    then have h2: "1 / 2 \<le> real_of_int (t1 - tr_start tr) / w"
      using w by (simp add: field_simps)
    have "real_of_int (t1 - tr_start tr) \<le> real_of_int (t2 - tr_start tr)"
      using a by simp
    then have h1: "real_of_int (t1 - tr_start tr) / w \<le> real_of_int (t2 - tr_start tr) / w"
      using w by (simp add: divide_right_mono)
    show "jge (calculateTemporalScore t1 tr) (calculateTemporalScore t2 tr)"
      using h1 h2 by (simp add: f)
  qed
  have s: "calculateTemporalScore (tr_start tr) tr = Num (1 / 2)"
    by (simp add: f)
  have e: "calculateTemporalScore (tr_end tr) tr = Num (1 / 2)"
  proof -
    have "real_of_int (tr_end tr - tr_start tr) / w = 1"
      using w unfolding w_def by simp
    then have "calculateTemporalScore (tr_end tr) tr = Num (1 - \<bar>1 / 2 - 1\<bar>)"
      by (simp only: f)
    then show ?thesis
      by simp
  qed
  show ?thesis
    using temporal_formula [OF lt] mid up down s e by blast
qed

theorem temporal_score_shape_witness:
  "tr_start \<lparr>tr_start = 0, tr_end = 10\<rparr> < tr_end \<lparr>tr_start = 0, tr_end = 10\<rparr>
   \<and> calculateTemporalScore 5 \<lparr>tr_start = 0, tr_end = 10\<rparr> = Num 1
   \<and> jge (calculateTemporalScore 4 \<lparr>tr_start = 0, tr_end = 10\<rparr>)
         (calculateTemporalScore 2 \<lparr>tr_start = 0, tr_end = 10\<rparr>)
   \<and> jge (calculateTemporalScore 6 \<lparr>tr_start = 0, tr_end = 10\<rparr>)
         (calculateTemporalScore 9 \<lparr>tr_start = 0, tr_end = 10\<rparr>)
   \<and> calculateTemporalScore 0 \<lparr>tr_start = 0, tr_end = 10\<rparr> = Num (1 / 2)
   \<and> calculateTemporalScore 10 \<lparr>tr_start = 0, tr_end = 10\<rparr> = Num (1 / 2)"
proof -
  have lt: "tr_start \<lparr>tr_start = 0, tr_end = 10\<rparr> < tr_end \<lparr>tr_start = 0, tr_end = 10\<rparr>"
    by simp
  note th = temporal_score_shape [OF lt, of 5]
  have a: "calculateTemporalScore 5 \<lparr>tr_start = 0, tr_end = 10\<rparr> = Num 1"
    using th by simp
  have b: "jge (calculateTemporalScore 4 \<lparr>tr_start = 0, tr_end = 10\<rparr>)
               (calculateTemporalScore 2 \<lparr>tr_start = 0, tr_end = 10\<rparr>)"
    using th by simp
  have c: "jge (calculateTemporalScore 6 \<lparr>tr_start = 0, tr_end = 10\<rparr>)
               (calculateTemporalScore 9 \<lparr>tr_start = 0, tr_end = 10\<rparr>)"
    using th by simp
  show ?thesis
    using lt a b c th by simp
qed

section \<open>Blur\<close>

text \<open>
  C5. The claim: with faces the blur score is 0.7 times the average of the faces'
  (1 - blurred likelihood) plus 0.3 times the edge-strength estimate, also for a photo
  that has faces and no dominant-colour data. For such a photo the code has no
  edge-strength entry in its list of scores and still takes the last entry as the edge
  score and the entries before it as the faces. With one sharp face the average is
  0 / 0 and the blur score is \<open>NaN\<close>. With a blurred face followed by a sharp one the
  score is 0.7 * 0 + 0.3 * 1 = 0.3: the second face is not part of the average (which
  would be 0.5) and stands in for the edge estimate.
\<close>

theorem blur_with_faces_and_no_colors:
  "dominantColors oneFaceResponse = None
   \<and> evaluateBlur oneFaceResponse = NaN
   \<and> dominantColors twoFacesResponse = None
   \<and> evaluateBlur twoFacesResponse = Num (3 / 10)"
  by (simp add: evaluateBlur_def oneFaceResponse_def twoFacesResponse_def noResponse_def
      faceWith_def jsum_def convertLikelihood_def)

section \<open>A time range of length zero\<close>

lemma bucketLoop_done: "\<not> time < e \<Longrightarrow> bucketLoop time e d = Some []"
  by (simp add: bucketLoop.simps)

text \<open>
  C6. The claim: when the time range has length zero, every photo is treated as having
  the normalized position 0.5 (which gives the temporal score 1), and the call does not
  raise. The code divides by the length of the range without a test: a photo taken at
  that instant has the position 0 / 0 and the temporal score \<open>NaN\<close>, every other
  photo has an infinite position and the temporal score \<open>-Infinity\<close>. Nothing is
  raised, and the range has no bucket.
\<close>

theorem temporal_score_of_empty_range:
  "calculateTemporalScore t \<lparr>tr_start = s, tr_end = s\<rparr> = (if t = s then NaN else NegInf)
   \<and> map_option s_temporal
       (scores (scorePhoto st (options\<lparr>timeRange := \<lparr>tr_start = s, tr_end = s\<rparr>\<rparr>) photo))
     = Some (if dateTime photo = s then NaN else NegInf)
   \<and> createTimeBuckets \<lparr>tr_start = s, tr_end = s\<rparr> = Some []"
proof -
  have a: "\<And>u. calculateTemporalScore u \<lparr>tr_start = s, tr_end = s\<rparr> = (if u = s then NaN else NegInf)"
    by (simp add: calculateTemporalScore_def jsub_def)
  have b: "createTimeBuckets \<lparr>tr_start = s, tr_end = s\<rparr> = Some []"
    by (simp add: createTimeBuckets_def bucketLoop_done)
  show ?thesis
    by (simp add: scorePhoto_temporal a b)
qed

section \<open>Rounding to a double\<close>

lemma roundHalfEven_of_int: "roundHalfEven (of_int k) = k"
  by (simp add: roundHalfEven_def)

text \<open>An integer below \<open>2\<^sup>5\<^sup>3\<close> in absolute value is a double.\<close>

lemma toDouble_int:
  assumes "x \<in> \<int>" and "\<bar>x\<bar> < 9007199254740992"
  shows "toDouble x = x"
proof (cases "x = 0")
  case True
  then show ?thesis by (simp add: toDouble_def)
next
  case False
  obtain n where n: "x = of_int n"
    using assms(1) by (auto elim: Ints_cases)
  define e where "e = \<lfloor>log 2 \<bar>x\<bar>\<rfloor>"
  have "n \<noteq> 0"
    using False n by simp
  then have "1 \<le> \<bar>n\<bar>"
    by simp
  then have "(1::real) \<le> of_int \<bar>n\<bar>"
    by (simp only: of_int_1_le_iff)
  then have one: "1 \<le> \<bar>x\<bar>"
    by (simp add: n)
  then have "0 \<le> log 2 \<bar>x\<bar>"
    by simp
  then have e0: "0 \<le> e"
    by (simp add: e_def)
  have "\<bar>x\<bar> < 2 powr 53"
    using assms(2) by simp
  then have "log 2 \<bar>x\<bar> < 53"
    using one by (simp add: log_less_iff)
  then have e52: "e \<le> 52"
    unfolding e_def by linarith
  define k where "k = nat (52 - e)"
  have q: "(2::real) powr (real_of_int (e - 52)) = 1 / 2 ^ k"
  proof -
    have "real_of_int (e - 52) = - real k"
      using e52 by (simp add: k_def)
    then have "(2::real) powr (real_of_int (e - 52)) = 2 powr (- real k)"
      by (simp only:)
    also have "\<dots> = 1 / 2 ^ k"
      by (simp add: powr_minus powr_realpow field_simps)
    finally show ?thesis .
  qed
  have m: "x / (1 / 2 ^ k) = of_int (n * 2 ^ k)"
    by (simp add: n)
  have "toDouble x = of_int (roundHalfEven (x / (1 / 2 ^ k))) * (1 / 2 ^ k)"
    using False e0 q by (simp add: toDouble_def Let_def e_def [symmetric] max_def)
  also have "\<dots> = of_int (n * 2 ^ k) * (1 / 2 ^ k)"
    by (simp only: m roundHalfEven_of_int)
  also have "\<dots> = x"
    by (simp add: n)
  finally show ?thesis .
qed

text \<open>The double of a number whose binade is known.\<close>

lemma toDouble_at:
  assumes "- 1022 \<le> e" and "2 powr of_int e \<le> \<bar>x\<bar>" and "\<bar>x\<bar> < 2 powr of_int (e + 1)"
    and "2 powr of_int (e - 52) = q"
  shows "toDouble x = of_int (roundHalfEven (x / q)) * q"
proof -
  have pos: "0 < \<bar>x\<bar>"
    using assms(2) by (smt (verit) powr_gt_zero)
  have "\<lfloor>log 2 \<bar>x\<bar>\<rfloor> = e"
    using assms(2,3) pos by (simp add: floor_log_eq_powr_iff)
  then show ?thesis
    using pos assms(1,4) by (simp add: toDouble_def Let_def max_def)
qed

text \<open>
  The loop of \<open>createTimeBuckets\<close> adds the rounded tenth of the range to the time, and
  rounds every sum. For the range from 0 to 11 the tenth is the double of 1.1; the tenth
  sum is 10.999999999999998, which is still below 11, and the range gets eleven buckets.
\<close>

lemma eleven_buckets:
  "map_option length (createTimeBuckets \<lparr>tr_start = 0, tr_end = 11\<rparr>) = Some 11"
proof -
  define d :: real where "d = 2476979795053773 / 2251799813685248"
  have d: "toDouble (11 / 10) = d"
  proof -
    have "toDouble (11 / 10)
          = of_int (roundHalfEven ((11 / 10) / (1 / 4503599627370496))) * (1 / 4503599627370496)"
      by (rule toDouble_at [where e = 0]) (simp_all add: powr_neg_numeral)
    also have "\<dots> = d"
      by (simp add: roundHalfEven_def Let_def d_def)
    finally show ?thesis .
  qed
  have next_bucket: "\<And>t t' n. t < 11 \<Longrightarrow> toDouble (t + d) = t'
      \<Longrightarrow> map_option length (bucketLoop t' 11 d) = Some n
      \<Longrightarrow> map_option length (bucketLoop t 11 d) = Some (Suc n)"
  proof -
    fix t t' :: real and n :: nat
    assume "t < 11" and "toDouble (t + d) = t'"
      and "map_option length (bucketLoop t' 11 d) = Some n"
    then show "map_option length (bucketLoop t 11 d) = Some (Suc n)"
      by (subst bucketLoop.simps) auto
  qed
  have s0: "toDouble (0 + d) = 2476979795053773 / 2251799813685248"
  proof -
    have "toDouble (0 + d) = of_int (roundHalfEven ((0 + d) / (1 / 4503599627370496))) * (1 / 4503599627370496)"
      by (rule toDouble_at [where e = 0]) (simp_all add: powr_neg_numeral d_def)
    also have "\<dots> = 2476979795053773 / 2251799813685248"
      by (simp add: roundHalfEven_def Let_def d_def)
    finally show ?thesis .
  qed
  have s1: "toDouble (2476979795053773 / 2251799813685248 + d) = 2476979795053773 / 1125899906842624"
  proof -
    have "toDouble (2476979795053773 / 2251799813685248 + d) = of_int (roundHalfEven ((2476979795053773 / 2251799813685248 + d) / (1 / 2251799813685248))) * (1 / 2251799813685248)"
      by (rule toDouble_at [where e = 1]) (simp_all add: powr_neg_numeral d_def)
    also have "\<dots> = 2476979795053773 / 1125899906842624"
      by (simp add: roundHalfEven_def Let_def d_def)
    finally show ?thesis .
  qed
  have s2: "toDouble (2476979795053773 / 1125899906842624 + d) = 7430939385161319 / 2251799813685248"
  proof -
    have "toDouble (2476979795053773 / 1125899906842624 + d) = of_int (roundHalfEven ((2476979795053773 / 1125899906842624 + d) / (1 / 2251799813685248))) * (1 / 2251799813685248)"
      by (rule toDouble_at [where e = 1]) (simp_all add: powr_neg_numeral d_def)
    also have "\<dots> = 7430939385161319 / 2251799813685248"
      by (simp add: roundHalfEven_def Let_def d_def)
    finally show ?thesis .
  qed
  have s3: "toDouble (7430939385161319 / 2251799813685248 + d) = 2476979795053773 / 562949953421312"
  proof -
    have "toDouble (7430939385161319 / 2251799813685248 + d) = of_int (roundHalfEven ((7430939385161319 / 2251799813685248 + d) / (1 / 1125899906842624))) * (1 / 1125899906842624)"
      by (rule toDouble_at [where e = 2]) (simp_all add: powr_neg_numeral d_def)
    also have "\<dots> = 2476979795053773 / 562949953421312"
      by (simp add: roundHalfEven_def Let_def d_def)
    finally show ?thesis .
  qed
  have s4: "toDouble (2476979795053773 / 562949953421312 + d) = 11 / 2"
  proof -
    have "toDouble (2476979795053773 / 562949953421312 + d) = of_int (roundHalfEven ((2476979795053773 / 562949953421312 + d) / (1 / 1125899906842624))) * (1 / 1125899906842624)"
      by (rule toDouble_at [where e = 2]) (simp_all add: powr_neg_numeral d_def)
    also have "\<dots> = 11 / 2"
      by (simp add: roundHalfEven_def Let_def d_def)
    finally show ?thesis .
  qed
  have s5: "toDouble (11 / 2 + d) = 3715469692580659 / 562949953421312"
  proof -
    have "toDouble (11 / 2 + d) = of_int (roundHalfEven ((11 / 2 + d) / (1 / 1125899906842624))) * (1 / 1125899906842624)"
      by (rule toDouble_at [where e = 2]) (simp_all add: powr_neg_numeral d_def)
    also have "\<dots> = 3715469692580659 / 562949953421312"
      by (simp add: roundHalfEven_def Let_def d_def)
    finally show ?thesis .
  qed
  have s6: "toDouble (3715469692580659 / 562949953421312 + d) = 2167357320672051 / 281474976710656"
  proof -
    have "toDouble (3715469692580659 / 562949953421312 + d) = of_int (roundHalfEven ((3715469692580659 / 562949953421312 + d) / (1 / 1125899906842624))) * (1 / 1125899906842624)"
      by (rule toDouble_at [where e = 2]) (simp_all add: powr_neg_numeral d_def)
    also have "\<dots> = 2167357320672051 / 281474976710656"
      by (simp add: roundHalfEven_def Let_def d_def)
    finally show ?thesis .
  qed
  have s7: "toDouble (2167357320672051 / 281474976710656 + d) = 4953959590107545 / 562949953421312"
  proof -
    have "toDouble (2167357320672051 / 281474976710656 + d) = of_int (roundHalfEven ((2167357320672051 / 281474976710656 + d) / (1 / 562949953421312))) * (1 / 562949953421312)"
      by (rule toDouble_at [where e = 3]) (simp_all add: powr_neg_numeral d_def)
    also have "\<dots> = 4953959590107545 / 562949953421312"
      by (simp add: roundHalfEven_def Let_def d_def)
    finally show ?thesis .
  qed
  have s8: "toDouble (4953959590107545 / 562949953421312 + d) = 1393301134717747 / 140737488355328"
  proof -
    have "toDouble (4953959590107545 / 562949953421312 + d) = of_int (roundHalfEven ((4953959590107545 / 562949953421312 + d) / (1 / 562949953421312))) * (1 / 562949953421312)"
      by (rule toDouble_at [where e = 3]) (simp_all add: powr_neg_numeral d_def)
    also have "\<dots> = 1393301134717747 / 140737488355328"
      by (simp add: roundHalfEven_def Let_def d_def)
    finally show ?thesis .
  qed
  have s9: "toDouble (1393301134717747 / 140737488355328 + d) = 6192449487634431 / 562949953421312"
  proof -
    have "toDouble (1393301134717747 / 140737488355328 + d) = of_int (roundHalfEven ((1393301134717747 / 140737488355328 + d) / (1 / 562949953421312))) * (1 / 562949953421312)"
      by (rule toDouble_at [where e = 3]) (simp_all add: powr_neg_numeral d_def)
    also have "\<dots> = 6192449487634431 / 562949953421312"
      by (simp add: roundHalfEven_def Let_def d_def)
    finally show ?thesis .
  qed
  have s10: "toDouble (6192449487634431 / 562949953421312 + d) = 3405847218198937 / 281474976710656"
  proof -
    have "toDouble (6192449487634431 / 562949953421312 + d) = of_int (roundHalfEven ((6192449487634431 / 562949953421312 + d) / (1 / 562949953421312))) * (1 / 562949953421312)"
      by (rule toDouble_at [where e = 3]) (simp_all add: powr_neg_numeral d_def)
    also have "\<dots> = 3405847218198937 / 281474976710656"
      by (simp add: roundHalfEven_def Let_def d_def)
    finally show ?thesis .
  qed
  have b11: "map_option length (bucketLoop (3405847218198937 / 281474976710656) 11 d) = Some 0"
    by (simp add: bucketLoop.simps)
  have b10: "map_option length (bucketLoop (6192449487634431 / 562949953421312) 11 d) = Some (Suc 0)"
    by (rule next_bucket [OF _ s10 b11]) simp
  have b9: "map_option length (bucketLoop (1393301134717747 / 140737488355328) 11 d) = Some (Suc (Suc 0))"
    by (rule next_bucket [OF _ s9 b10]) simp
  have b8: "map_option length (bucketLoop (4953959590107545 / 562949953421312) 11 d) = Some (Suc (Suc (Suc 0)))"
    by (rule next_bucket [OF _ s8 b9]) simp
  have b7: "map_option length (bucketLoop (2167357320672051 / 281474976710656) 11 d) = Some (Suc (Suc (Suc (Suc 0))))"
    by (rule next_bucket [OF _ s7 b8]) simp
  have b6: "map_option length (bucketLoop (3715469692580659 / 562949953421312) 11 d) = Some (Suc (Suc (Suc (Suc (Suc 0)))))"
    by (rule next_bucket [OF _ s6 b7]) simp
  have b5: "map_option length (bucketLoop (11 / 2) 11 d) = Some (Suc (Suc (Suc (Suc (Suc (Suc 0))))))"
    by (rule next_bucket [OF _ s5 b6]) simp
  have b4: "map_option length (bucketLoop (2476979795053773 / 562949953421312) 11 d) = Some (Suc (Suc (Suc (Suc (Suc (Suc (Suc 0)))))))"
    by (rule next_bucket [OF _ s4 b5]) simp
  have b3: "map_option length (bucketLoop (7430939385161319 / 2251799813685248) 11 d) = Some (Suc (Suc (Suc (Suc (Suc (Suc (Suc (Suc 0))))))))"
    by (rule next_bucket [OF _ s3 b4]) simp
  have b2: "map_option length (bucketLoop (2476979795053773 / 1125899906842624) 11 d) = Some (Suc (Suc (Suc (Suc (Suc (Suc (Suc (Suc (Suc 0)))))))))"
    by (rule next_bucket [OF _ s2 b3]) simp
  have b1: "map_option length (bucketLoop (2476979795053773 / 2251799813685248) 11 d) = Some (Suc (Suc (Suc (Suc (Suc (Suc (Suc (Suc (Suc (Suc 0))))))))))"
    by (rule next_bucket [OF _ s1 b2]) simp
  have b0: "map_option length (bucketLoop (0) 11 d) = Some (Suc (Suc (Suc (Suc (Suc (Suc (Suc (Suc (Suc (Suc (Suc 0)))))))))))"
    by (rule next_bucket [OF _ s0 b1]) simp
  have "createTimeBuckets \<lparr>tr_start = 0, tr_end = 11\<rparr> = bucketLoop 0 11 d"
    by (simp add: createTimeBuckets_def Let_def toDouble_int d)
  moreover have "Suc (Suc (Suc (Suc (Suc (Suc (Suc (Suc (Suc (Suc (Suc 0)))))))))) = 11"
    by simp
  ultimately show ?thesis
    using b0 by (simp only:)
qed

section \<open>Selection\<close>

lemma selectorAB_photos: "photos selectorAB = [enhancedA, enhancedB]"
  by (simp add: selectorAB_def addPhotos_def analyzePhoto_def annotateAB_def photoA_def photoB_def
      emptySelector_def enhancedA_def enhancedB_def withAnalysis_def)

lemma analysis_catResponse:
  "buildAnalysis (catResponse w) =
     \<lparr>faces = [],
      labels = [\<lparr>description = ''cat'', score = 0.5, topicality = 0.5\<rparr>],
      landmarks = [],
      imageProperties =
        \<lparr>ip_dominantColors =
           [\<lparr>color = \<lparr>red = 0, green = 0, blue = 0\<rparr>, c_score = 0.5, pixelFraction = 0.5\<rparr>,
            \<lparr>color = \<lparr>red = 0, green = 0, blue = 0\<rparr>, c_score = 0.5, pixelFraction = 0.5\<rparr>],
         brightness = 0, contrast = 0, sharpness = 0\<rparr>,
      pa_webDetection =
        \<lparr>webEntities = Some [\<lparr>we_entityId = Id ''e1'', we_score = Some w, we_description = None\<rparr>],
         visuallySimilarImages = None, partialMatchingImages = None\<rparr>,
      quality = \<lparr>blurScore = Num 0, exposureScore = 0, noiseScore = 1, compositionScore = 0.3\<rparr>\<rparr>"
  by (simp add: buildAnalysis_def catResponse_def noResponse_def blackColor_def orEmptyString_def
      processImageProperties_def channel_def calculateBrightness_def calculateContrast_def
      calculateSharpness_def edgeStrength_def colorContrast_def rsum_def evaluateBlur_def
      normalizedEdgeStrength_def jsum_def evaluateExposure_def evaluateNoise_def
      evaluateComposition_def composeScores_def addComponent_def evaluateRuleOfThirds_def
      evaluateSubjectProminence_def evaluateVisualBalance_def subjectsOf_def Let_def)

lemma selectorAB_frequencies:
  "labelFrequencies selectorAB = \<lparr>individual = [''cat'' \<mapsto> 2], combinations = Map.empty\<rparr>"
  by (simp add: numeral_2_eq_2 selectorAB_def addPhotos_def analyzePhoto_def annotateAB_def
      photoA_def photoB_def emptySelector_def withAnalysis_def analysis_catResponse
      updateLabelFrequencies_def increment_def)

lemmas score_defs =
  scorePhoto_def Let_def enhancedA_def enhancedB_def withAnalysis_def photoA_def photoB_def
  analysis_catResponse optionsAB_def pickWeight_def
  calculateQualityScore_def calculateInterestScore_def calculateFaceInterestScore_def
  calculateLandmarkInterestScore_def calculateLabelInterestScore_def calculateWebInterestScore_def
  interestingCategories_def toLowerCase_def orEmptyString_def rsum_def
  calculateEmotionScore_def calculateUniquenessScore_def calculateLabelUniqueness_def
  selectorAB_frequencies selectorAB_photos frequencyOr1_def calculateVisualUniqueness_def
  calculateCompositionUniqueness_def calculateColorUniqueness_def areColorsSimilar_def
  calculateLayoutUniqueness_def calculateRelevanceScore_def calculateTemporalScore_def jsub_def

lemma scores_scoredA:
  "scores scoredA =
     Some \<lparr>s_quality = Num (13 / 50), s_interest = 7 / 40, s_emotion = 1 / 2,
           s_uniqueness = 9 / 20 + 2 / (25 * sqrt 2), s_relevance = 1,
           s_temporal = Num (1 / 2),
           s_final = Num (3 / 8 + (27 / 20 + 6 / (25 * sqrt 2)) / 20)\<rparr>"
  by (simp add: scoredA_def score_defs)

lemma scores_scoredB:
  "scores scoredB =
     Some \<lparr>s_quality = Num (13 / 50), s_interest = 1 / 4, s_emotion = 1 / 2,
           s_uniqueness = 9 / 20 + 2 / (25 * sqrt 2), s_relevance = 1,
           s_temporal = Num (51 / 100),
           s_final = Num (391 / 1000 + (27 / 20 + 6 / (25 * sqrt 2)) / 20)\<rparr>"
  by (simp add: scoredB_def score_defs)

lemma scored_ids:
  "ph_id scoredA = ''A''" "ph_id scoredB = ''B''" "dateTime scoredA = 0" "dateTime scoredB = 1000"
  by (simp_all add: scoredA_def scoredB_def scorePhoto_def Let_def enhancedA_def enhancedB_def
      withAnalysis_def photoA_def photoB_def)

lemma scored_quality:
  "qualityOf scoredA = Num (13 / 50)" "qualityOf scoredB = Num (13 / 50)"
  by (simp_all add: qualityOf_def scores_scoredA scores_scoredB)

lemma scored_final:
  "finalOf scoredA = Num (3 / 8 + (27 / 20 + 6 / (25 * sqrt 2)) / 20)"
  "finalOf scoredB = Num (391 / 1000 + (27 / 20 + 6 / (25 * sqrt 2)) / 20)"
  by (simp_all add: finalOf_def scores_scoredA scores_scoredB)

lemma scored_similar: "checkPhotoSimilarity scoredA scoredB"
  by (simp add: scoredA_def scoredB_def checkPhotoSimilarity_def scorePhoto_def Let_def
      enhancedA_def enhancedB_def withAnalysis_def photoA_def photoB_def analysis_catResponse
      calculateLabelSimilarity_def calculateWebEntitySimilarity_def
      calculateVisualFeatureSimilarity_def jaccard_def
      calculateColorSimilarity_def calculateColorDistance_def rsum_def
      calculateLayoutSimilarity_def createLayoutFingerprint_def getVisualElements_def)

lemma groups_scoredAB: "groupSimilarPhotos [scoredA, scoredB] = [(''A'', [scoredA, scoredB])]"
  by (simp add: groupSimilarPhotos_def absorbSimilar_def scored_ids scored_similar)

lemma buckets_optionsAB: "createTimeBuckets \<lparr>tr_start = 0, tr_end = 100000\<rparr> = Some bucketsAB"
  by (simp add: createTimeBuckets_def bucketLoop.simps toDate_def truncateToInt_def toDouble_int
      bucketsAB_def)

lemmas select_defs =
  Let_def fillBucket_def getEligibleGroupsForBucket_def List.map_filter_def
  scored_ids scored_quality scored_final
  selectBestGroupsFromBucket_def sortBy_def descendingBy_def jsub_def jmaxOf_def
  bestPhotoOf_def jgt_def isPhotoDiverse_def selectRemainingBestPhotos_def truncateToInt_def

lemma fill_scoredAB:
  "foldl (fillBucket [(''A'', [scoredA, scoredB])] (Num 1) (1 / 5)) ([], {}) bucketsAB
   = ([scoredB], {''B''})"
  by (simp add: bucketsAB_def select_defs)

lemma remaining_scoredAB:
  "selectRemainingBestPhotos [(''A'', [scoredA, scoredB])] {''B''} (Num 2) (1 / 5)
   = [scoredB, scoredA]"
  by (simp add: select_defs)

lemma select_scoredAB:
  "selectWithBuckets [(''A'', [scoredA, scoredB])] optionsAB bucketsAB = [scoredB, scoredB, scoredA]"
proof -
  have ppb: "jceil (jdiv (limit optionsAB) (Num (real (length bucketsAB)))) = Num 1"
    by (simp add: optionsAB_def bucketsAB_def)
  have mq: "minQuality optionsAB = 1 / 5"
    by (simp add: optionsAB_def)
  show ?thesis
    unfolding selectWithBuckets_def Let_def ppb mq fill_scoredAB
    by (simp add: optionsAB_def jsub_def remaining_scoredAB truncateToInt_def)
qed

lemma scored_photos_AB:
  "map (scorePhoto selectorAB optionsAB) (photos selectorAB) = [scoredA, scoredB]"
  by (simp add: selectorAB_photos scoredA_def scoredB_def)

lemma selectHighlights_AB:
  "selectHighlights selectorAB optionsAB = Some [scoredB, scoredB, scoredA]"
proof -
  have "timeRange optionsAB = \<lparr>tr_start = 0, tr_end = 100000\<rparr>"
    by (simp add: optionsAB_def)
  then show ?thesis
    by (simp add: selectHighlights_def selectDiverseHighlights_def Let_def scored_photos_AB
        groups_scoredAB buckets_optionsAB select_scoredAB)
qed

text \<open>
  C4. The claim: a photo accepted from a group in the per-bucket fill marks the id of
  its group (the id of the group's anchor photo) as used, so that no other member of
  the group can be selected in a later bucket or in the backfill. The code adds the id
  of the accepted photo to \<open>usedGroups\<close>, which is the id of the group only when the
  anchor itself is accepted. Photos A and B are added in this order and are similar,
  so they form the group keyed A; B has the better final score. The first bucket
  accepts B and marks "B". The group A is never marked, and the backfill takes both of
  its photos: with the limit 3 the result is B, B, A.
\<close>

theorem accepted_photo_does_not_mark_its_group:
  "groupSimilarPhotos (map (scorePhoto selectorAB optionsAB) (photos selectorAB))
     = [(''A'', [scoredA, scoredB])]
   \<and> createTimeBuckets (timeRange optionsAB) = Some bucketsAB
   \<and> foldl (fillBucket [(''A'', [scoredA, scoredB])] (Num 1) (1 / 5)) ([], {}) bucketsAB
     = ([scoredB], {''B''})
   \<and> selectHighlights selectorAB optionsAB = Some [scoredB, scoredB, scoredA]"
proof -
  have "timeRange optionsAB = \<lparr>tr_start = 0, tr_end = 100000\<rparr>"
    by (simp add: optionsAB_def)
  then show ?thesis
    by (simp only: scored_photos_AB groups_scoredAB buckets_optionsAB fill_scoredAB
        selectHighlights_AB)
qed

section \<open>The length of the result\<close>

lemma scorePhoto_limit: "scorePhoto st (options\<lparr>limit := l\<rparr>) = scorePhoto st options"
  by (rule ext) (simp add: scorePhoto_def pickWeight_def)

lemma sliceTo_length: "jge l (Num 0) \<Longrightarrow> jge l (Num (real (length (sliceTo l xs))))"
proof (cases l)
  case (Num r)
  assume "jge l (Num 0)"
  then have r: "0 \<le> r"
    using Num by simp
  then have "real (min (length xs) (nat \<lfloor>r\<rfloor>)) \<le> r"
    by linarith
  then show ?thesis
    using Num r by (simp add: truncateToInt_def)
qed simp_all

text \<open>
  C7, as the claim states it: for every call the returned list is at most
  \<open>options.limit\<close> long. With the limit -1 no bucket accepts a photo, the backfill is
  skipped and the empty selection is returned: its length, 0, is more than the limit.
\<close>

theorem negative_limit_counterexample:
  "selectHighlights selectorAB (optionsAB\<lparr>limit := Num (- 1)\<rparr>) = Some []
   \<and> \<not> jge (Num (- 1)) (Num (real (length ([] :: EnhancedPhoto list))))"
proof -
  let ?options = "optionsAB\<lparr>limit := Num (- 1)\<rparr>"
  have range: "timeRange ?options = \<lparr>tr_start = 0, tr_end = 100000\<rparr>"
    by (simp add: optionsAB_def)
  have "\<lceil>- (1 / 10 :: real)\<rceil> = 0"
    by (rule ceiling_unique) simp_all
  then have ppb: "jceil (jdiv (limit ?options) (Num (real (length bucketsAB)))) = Num 0"
    by (simp add: bucketsAB_def)
  have mq: "minQuality ?options = 1 / 5"
    by (simp add: optionsAB_def)
  have fill: "foldl (fillBucket [(''A'', [scoredA, scoredB])] (Num 0) (1 / 5)) ([], {}) bucketsAB
              = ([], {})"
    by (simp add: bucketsAB_def select_defs)
  have "selectWithBuckets [(''A'', [scoredA, scoredB])] ?options bucketsAB = []"
    unfolding selectWithBuckets_def Let_def ppb mq fill
    by (simp add: truncateToInt_def)
  then have "selectHighlights selectorAB ?options = Some []"
    by (simp add: selectHighlights_def selectDiverseHighlights_def Let_def scorePhoto_limit
        scored_photos_AB groups_scoredAB range buckets_optionsAB)
  then show ?thesis
    by simp
qed

text \<open>
  C7, amended. For every call whose \<open>options.limit\<close> is a number that is not negative
  (or \<open>Infinity\<close>), the list that \<open>selectHighlights\<close> returns has at most
  \<open>options.limit\<close> elements.
\<close>

theorem selectHighlights_length_le_limit:
  assumes "jge (limit options) (Num 0)"
    and "selectHighlights st options = Some result"
  shows "jge (limit options) (Num (real (length result)))"
proof -
  obtain xs where "result = sliceTo (limit options) xs"
    using assms(2)
    by (auto simp: selectHighlights_def selectDiverseHighlights_def selectWithBuckets_def Let_def)
  then show ?thesis
    using assms(1) by (simp add: sliceTo_length)
qed

theorem selectHighlights_length_le_limit_witness:
  "jge (limit optionsAB) (Num 0)
   \<and> selectHighlights selectorAB optionsAB = Some [scoredB, scoredB, scoredA]
   \<and> jge (limit optionsAB) (Num (real (length [scoredB, scoredB, scoredA])))"
proof -
  have a: "jge (limit optionsAB) (Num 0)"
    by (simp add: optionsAB_def)
  show ?thesis
    using a selectHighlights_AB selectHighlights_length_le_limit [OF a selectHighlights_AB]
    by simp
qed

section \<open>Similarity of a photo to itself\<close>

lemma splitOn_not_empty: "splitOn d s \<noteq> []"
  by (induction s) (auto split: list.splits)

lemma layout_similarity_self: "calculateLayoutSimilarity l l = 1"
proof -
  have "0 < length (splitOn CHR ''|'' l)"
    using splitOn_not_empty [of "CHR ''|''" l] by simp
  then show ?thesis
    by (simp add: calculateLayoutSimilarity_def Let_def)
qed

text \<open>
  C9, as the claim states it: a list of two equal colours, each with the pixel fraction
  0.5, is not empty and its fractions sum to 1; its colour similarity to itself would
  be 1. It is 0.25.
\<close>

theorem color_self_similarity_counterexample:
  "[halfGray, halfGray] \<noteq> []
   \<and> sum_list (map pixelFraction [halfGray, halfGray]) = 1
   \<and> calculateColorSimilarity [halfGray, halfGray] [halfGray, halfGray] = 1 / 4
   \<and> calculateColorSimilarity [halfGray, halfGray] [halfGray, halfGray] \<noteq> 1"
  by (simp add: calculateColorSimilarity_def calculateColorDistance_def halfGray_def rsum_def Let_def)

text \<open>
  C9, amended. For every dominant-colour list of one colour whose pixel fraction is 1,
  the colour similarity of the list compared against itself equals 1; and for every
  layout fingerprint string, the layout similarity of the fingerprint compared against
  itself equals 1.
\<close>

theorem self_similarity:
  "(pixelFraction c = 1 \<longrightarrow> calculateColorSimilarity [c] [c] = 1)
   \<and> calculateLayoutSimilarity l l = 1"
proof -
  have "pixelFraction c = 1 \<longrightarrow> calculateColorSimilarity [c] [c] = 1"
    by (simp add: calculateColorSimilarity_def Let_def rsum_def calculateColorDistance_def)
  then show ?thesis
    using layout_similarity_self [of l] by blast
qed

theorem self_similarity_witness:
  "pixelFraction fullGray = 1
   \<and> calculateColorSimilarity [fullGray] [fullGray] = 1
   \<and> calculateLayoutSimilarity ''10,20,30,40|50,60,70,80'' ''10,20,30,40|50,60,70,80'' = 1"
proof -
  have a: "pixelFraction fullGray = 1"
    by (simp add: fullGray_def)
  show ?thesis
    using a self_similarity [of fullGray "''10,20,30,40|50,60,70,80''"]
    by blast
qed

section \<open>A photo whose analysis fails\<close>

lemma addPhotosLoop_append:
  "addPhotosLoop annotate (xs @ ys) acc = addPhotosLoop annotate ys (addPhotosLoop annotate xs acc)"
proof (induction xs arbitrary: acc)
  case Nil
  then show ?case by (cases acc) simp
next
  case (Cons x xs)
  then show ?case by (cases acc) (simp split: sum.splits)
qed

lemma addPhotosLoop_state:
  "snd (addPhotosLoop annotate xs (r, st)) = snd (addPhotosLoop annotate xs (r', st))"
  by (induction xs arbitrary: r r' st) (simp_all split: sum.splits)

lemma addPhotosLoop_success:
  "success (fst (addPhotosLoop annotate xs (r, st)))
   = success r @ success (fst (addPhotosLoop annotate xs (\<lparr>success = [], failed = []\<rparr>, st)))"
proof (induction xs arbitrary: r st)
  case Nil
  then show ?case by simp
next
  case (Cons x xs)
  show ?case
  proof (cases "analyzePhoto annotate x")
    case (Inl t)
    then show ?thesis
      using Cons [of "r\<lparr>failed := failed r @ [(x, toError t)]\<rparr>" st]
            Cons [of "\<lparr>success = [], failed = [(x, toError t)]\<rparr>" st]
      by simp
  next
    case (Inr p)
    let ?st = "st\<lparr>photos := photos st @ [p],
                   labelFrequencies := updateLabelFrequencies (labelFrequencies st) (labels (analysis p))\<rparr>"
    show ?thesis
      using Inr Cons [of "r\<lparr>success := success r @ [p]\<rparr>" ?st]
            Cons [of "\<lparr>success = [p], failed = []\<rparr>" ?st]
      by simp
  qed
qed

lemma addPhotosLoop_failed:
  "failed (fst (addPhotosLoop annotate xs (r, st)))
   = failed r @ failed (fst (addPhotosLoop annotate xs (\<lparr>success = [], failed = []\<rparr>, st)))"
proof (induction xs arbitrary: r st)
  case Nil
  then show ?case by simp
next
  case (Cons x xs)
  show ?case
  proof (cases "analyzePhoto annotate x")
    case (Inl t)
    then show ?thesis
      using Cons [of "r\<lparr>failed := failed r @ [(x, toError t)]\<rparr>" st]
            Cons [of "\<lparr>success = [], failed = [(x, toError t)]\<rparr>" st]
      by simp
  next
    case (Inr p)
    let ?st = "st\<lparr>photos := photos st @ [p],
                   labelFrequencies := updateLabelFrequencies (labelFrequencies st) (labels (analysis p))\<rparr>"
    show ?thesis
      using Inr Cons [of "r\<lparr>success := success r @ [p]\<rparr>" ?st]
            Cons [of "\<lparr>success = [p], failed = []\<rparr>" ?st]
      by simp
  qed
qed

text \<open>
  C10. If the analysis of a photo throws during \<open>addPhotos\<close>, the step for that photo
  leaves the pool and both label-frequency tables as they were and appends the photo,
  paired with its error, to the failed list; the photos after it are processed from
  there. The error is the thrown value itself when that is an \<open>Error\<close>, and a new
  \<open>Error\<close> made of the thrown value's text otherwise. For the whole batch: the pool and
  the tables after the call, and the list of successes, are those of the batch without
  the photo, and the failed list holds the photo with its error.
\<close>

theorem addPhotos_failure_is_isolated:
  assumes thrown: "analyzePhoto annotate photo = Inl t"
  shows "addPhotosLoop annotate (photo # rest) (results, st)
           = addPhotosLoop annotate rest
               (results\<lparr>failed := failed results
                  @ [(photo, case t of ThrownError err \<Rightarrow> err | ThrownValue v \<Rightarrow> Error v)]\<rparr>, st)
       \<and> snd (addPhotos annotate st0 (before @ photo # rest)) = snd (addPhotos annotate st0 (before @ rest))
       \<and> success (fst (addPhotos annotate st0 (before @ photo # rest)))
           = success (fst (addPhotos annotate st0 (before @ rest)))
       \<and> (photo, case t of ThrownError err \<Rightarrow> err | ThrownValue v \<Rightarrow> Error v)
           \<in> set (failed (fst (addPhotos annotate st0 (before @ photo # rest))))"
proof -
  define e where "e = (case t of ThrownError err \<Rightarrow> err | ThrownValue v \<Rightarrow> Error v)"
  have e: "toError t = e"
    by (simp add: toError_def e_def)
  obtain r1 st1 where mid: "addPhotosLoop annotate before (\<lparr>success = [], failed = []\<rparr>, st0) = (r1, st1)"
    by (cases "addPhotosLoop annotate before (\<lparr>success = [], failed = []\<rparr>, st0)")
  let ?r1 = "r1\<lparr>failed := failed r1 @ [(photo, e)]\<rparr>"
  have step: "\<And>r s. addPhotosLoop annotate (photo # rest) (r, s)
           = addPhotosLoop annotate rest (r\<lparr>failed := failed r @ [(photo, e)]\<rparr>, s)"
    using thrown e by simp
  have with_photo: "addPhotos annotate st0 (before @ photo # rest) = addPhotosLoop annotate rest (?r1, st1)"
    using mid step by (simp add: addPhotos_def addPhotosLoop_append)
  have without: "addPhotos annotate st0 (before @ rest) = addPhotosLoop annotate rest (r1, st1)"
    using mid by (simp add: addPhotos_def addPhotosLoop_append)
  have a: "snd (addPhotos annotate st0 (before @ photo # rest)) = snd (addPhotos annotate st0 (before @ rest))"
    unfolding with_photo without by (rule addPhotosLoop_state)
  have b: "success (fst (addPhotos annotate st0 (before @ photo # rest)))
           = success (fst (addPhotos annotate st0 (before @ rest)))"
    unfolding with_photo without
    using addPhotosLoop_success [of annotate rest ?r1 st1] addPhotosLoop_success [of annotate rest r1 st1]
    by simp
  have c: "(photo, e) \<in> set (failed (fst (addPhotos annotate st0 (before @ photo # rest))))"
    unfolding with_photo
    using addPhotosLoop_failed [of annotate rest ?r1 st1] by simp
  show ?thesis
    using step a b c unfolding e_def by blast
qed

theorem addPhotos_failure_is_isolated_witness:
  "analyzePhoto annotateThrowing photoB = Inl (ThrownValue ''unavailable'')
   \<and> analyzePhoto annotateThrowing photoC = Inl (ThrownError (Error ''quota exceeded''))
   \<and> snd (addPhotos annotateThrowing emptySelector [photoA, photoB, photoA])
     = snd (addPhotos annotateThrowing emptySelector [photoA, photoA])
   \<and> success (fst (addPhotos annotateThrowing emptySelector [photoA, photoB, photoA]))
     = success (fst (addPhotos annotateThrowing emptySelector [photoA, photoA]))
   \<and> (photoB, Error ''unavailable'')
       \<in> set (failed (fst (addPhotos annotateThrowing emptySelector [photoA, photoB, photoA])))
   \<and> (photoC, Error ''quota exceeded'')
       \<in> set (failed (fst (addPhotos annotateThrowing emptySelector [photoA, photoC, photoA])))"
proof -
  have thrownB: "analyzePhoto annotateThrowing photoB = Inl (ThrownValue ''unavailable'')"
    by (simp add: analyzePhoto_def annotateThrowing_def photoB_def)
  have thrownC: "analyzePhoto annotateThrowing photoC = Inl (ThrownError (Error ''quota exceeded''))"
    by (simp add: analyzePhoto_def annotateThrowing_def photoC_def)
  show ?thesis
    using thrownB thrownC
      addPhotos_failure_is_isolated [OF thrownB, of "[photoA]" "\<lparr>success = [], failed = []\<rparr>"
        emptySelector emptySelector "[photoA]"]
      addPhotos_failure_is_isolated [OF thrownC, of "[photoA]" "\<lparr>success = [], failed = []\<rparr>"
        emptySelector emptySelector "[photoA]"]
    by simp
qed

section \<open>Steps on the store\<close>

lemma unchangedBelow_refl: "unchangedBelow m s s"
  by (simp add: unchangedBelow_def)

lemma unchangedBelow_trans:
  "unchangedBelow m s s1 \<Longrightarrow> unchangedBelow m s1 s2 \<Longrightarrow> unchangedBelow m s s2"
  by (simp add: unchangedBelow_def)

lemma unchangedBelow_mono:
  assumes "unchangedBelow m s s'" and "n \<le> m"
  shows "unchangedBelow n s s'"
proof -
  have "take n (take m (arrays s')) = take n (take m (arrays s))"
    using assms(1) by (simp add: unchangedBelow_def)
  then have "take n (arrays s') = take n (arrays s)"
    using assms(2) by (simp add: min_def)
  then show ?thesis
    using assms(1) by (simp add: unchangedBelow_def)
qed

lemma unchangedBelow_allocArray:
  "m \<le> length (arrays s) \<Longrightarrow> unchangedBelow m s (snd (allocArray xs s))"
  by (simp add: unchangedBelow_def allocArray_def)

lemma unchangedBelow_pushTo: "m \<le> a \<Longrightarrow> unchangedBelow m s (pushTo a xs s)"
  by (simp add: unchangedBelow_def pushTo_def)

lemma unchangedBelow_sortIn: "m \<le> a \<Longrightarrow> unchangedBelow m s (sortIn a before s)"
  by (simp add: unchangedBelow_def sortIn_def)

lemma unchangedBelow_photoAt: "unchangedBelow m s s' \<Longrightarrow> photoAt s' = photoAt s"
  by (rule ext) (simp add: unchangedBelow_def photoAt_def)

lemma unchangedBelow_arrayAt:
  assumes "unchangedBelow m s s'" and "a < m"
  shows "arrayAt s' a = arrayAt s a"
proof -
  have "take m (arrays s') ! a = take m (arrays s) ! a"
    using assms(1) by (simp add: unchangedBelow_def)
  then show ?thesis
    using assms(2) by (simp add: arrayAt_def)
qed

lemma unchangedBelow_photosIn:
  "unchangedBelow m s s' \<Longrightarrow> a < m \<Longrightarrow> photosIn s' a = photosIn s a"
  by (simp add: photosIn_def unchangedBelow_arrayAt unchangedBelow_photoAt)

lemma unchangedBelow_derefGroups:
  "unchangedBelow m s s' \<Longrightarrow> validGroups m groups \<Longrightarrow> derefGroups s' groups = derefGroups s groups"
  by (induction groups) (auto simp: derefGroups_def validGroups_def unchangedBelow_photosIn)

lemma validGroups_mono: "validGroups m groups \<Longrightarrow> m \<le> n \<Longrightarrow> validGroups n groups"
  by (induction groups) (auto simp: validGroups_def)

lemma allocArray_facts:
  "fst (allocArray xs s) = length (arrays s)"
  "length (arrays (snd (allocArray xs s))) = Suc (length (arrays s))"
  "arrayAt (snd (allocArray xs s)) (length (arrays s)) = xs"
  "objects (snd (allocArray xs s)) = objects s"
  "photoAt (snd (allocArray xs s)) = photoAt s"
  by (simp_all add: allocArray_def arrayAt_def photoAt_def fun_eq_iff)

lemma pushTo_facts:
  "length (arrays (pushTo a xs s)) = length (arrays s)"
  "objects (pushTo a xs s) = objects s"
  "photoAt (pushTo a xs s) = photoAt s"
  "a < length (arrays s) \<Longrightarrow> arrayAt (pushTo a xs s) a = arrayAt s a @ xs"
  "b \<noteq> a \<Longrightarrow> arrayAt (pushTo a xs s) b = arrayAt s b"
  by (simp_all add: pushTo_def arrayAt_def photoAt_def fun_eq_iff)

lemma sortIn_facts:
  "length (arrays (sortIn a before s)) = length (arrays s)"
  "photoAt (sortIn a before s) = photoAt s"
  "a < length (arrays s) \<Longrightarrow> arrayAt (sortIn a before s) a = sortBy before (arrayAt s a)"
  by (simp_all add: sortIn_def arrayAt_def photoAt_def fun_eq_iff)

section \<open>Scoring\<close>

lemma scorePhotosIn_refines:
  assumes "list_all (\<lambda>r. r < length (objects s)) (arrayAt s pool)"
    and "list_all (\<lambda>r. r < length (objects s)) rs"
    and "scorePhotosIn pool options rs s = (rs', s')"
  shows "arrays s' = arrays s \<and> tables s' = tables s
         \<and> take (length (objects s)) (objects s') = objects s
         \<and> length (objects s) \<le> length (objects s')
         \<and> list_all (\<lambda>r. r < length (objects s')) rs'
         \<and> map (photoAt s') rs' = map (scorePhoto (selectorOf s pool) options) (map (photoAt s) rs)"
  using assms
proof (induction rs arbitrary: s rs' s')
  case Nil
  then show ?case by simp
next
  case (Cons r rs)
  define p where "p = scorePhoto (selectorOf s pool) options (photoAt s r)"
  define s1 where "s1 = s\<lparr>objects := objects s @ [p]\<rparr>"
  obtain ns s2 where rec: "scorePhotosIn pool options rs s1 = (ns, s2)"
    by (cases "scorePhotosIn pool options rs s1")
  have res: "rs' = length (objects s) # ns" "s' = s2"
    using Cons.prems(3) rec by (simp_all add: allocObject_def p_def s1_def Let_def)
  have old: "\<And>x. x < length (objects s) \<Longrightarrow> photoAt s1 x = photoAt s x"
    by (simp add: photoAt_def s1_def nth_append)
  have arr: "arrayAt s1 = arrayAt s"
    by (rule ext) (simp add: arrayAt_def s1_def)
  have len1: "length (objects s1) = Suc (length (objects s))"
    by (simp add: s1_def)
  have "list_all (\<lambda>r. r < length (objects s1)) (arrayAt s pool)"
    using Cons.prems(1) by (auto simp: len1 list_all_iff)
  then have v1: "list_all (\<lambda>r. r < length (objects s1)) (arrayAt s1 pool)"
    by (simp only: arr)
  have v2: "list_all (\<lambda>r. r < length (objects s1)) rs"
    using Cons.prems(2) by (auto simp: len1 list_all_iff)
  have pool_same: "photosIn s1 pool = photosIn s pool"
    using Cons.prems(1) old by (auto simp: photosIn_def arr list_all_iff)
  have sel: "selectorOf s1 pool = selectorOf s pool"
    by (simp add: selectorOf_def pool_same) (simp add: s1_def)
  note ih = Cons.IH [OF v1 v2 rec]
  have rest_same: "map (photoAt s1) rs = map (photoAt s) rs"
    using Cons.prems(2) old by (auto simp: list_all_iff)
  have pre: "take (length (objects s)) (objects s2) = objects s"
  proof -
    have "take (length (objects s)) (take (length (objects s1)) (objects s2))
          = take (length (objects s)) (objects s1)"
      using ih by simp
    then show ?thesis
      by (simp add: len1 min_def) (simp add: s1_def)
  qed
  have new: "photoAt s2 (length (objects s)) = p"
  proof -
    have "objects s2 ! length (objects s) = take (length (objects s1)) (objects s2) ! length (objects s)"
      by (simp add: len1)
    also have "\<dots> = objects s1 ! length (objects s)"
      using ih by simp
    also have "\<dots> = p"
      by (simp add: s1_def)
    finally show ?thesis
      by (simp add: photoAt_def)
  qed
  show ?case
    using ih new pre rest_same sel len1
    by (simp add: res p_def) (simp add: s1_def)
qed

section \<open>Grouping\<close>

lemma derefGroups_mapSet:
  "derefGroups s (mapSet k a groups) = mapSet k (photosIn s a) (derefGroups s groups)"
  by (induction groups) (auto simp: derefGroups_def)

lemma validGroups_mapSet:
  "validGroups m groups \<Longrightarrow> a < m \<Longrightarrow> validGroups m (mapSet k a groups)"
  by (induction groups) (auto simp: validGroups_def)

lemma absorbSimilarIn_refines:
  assumes "a < length (arrays s)"
    and "absorbSimilarIn photo a others (pr, s) = (pr', s')"
  shows "unchangedBelow a s s' \<and> length (arrays s') = length (arrays s)
         \<and> (photosIn s' a, pr')
           = foldl (\<lambda>(similarPhotos, processed) otherPhoto.
                      if ph_id (photoAt s photo) = ph_id otherPhoto \<or> ph_id otherPhoto \<in> processed
                      then (similarPhotos, processed)
                      else if checkPhotoSimilarity (photoAt s photo) otherPhoto
                      then (similarPhotos @ [otherPhoto], insert (ph_id otherPhoto) processed)
                      else (similarPhotos, processed))
                   (photosIn s a, pr) (map (photoAt s) others)"
  using assms
proof (induction others arbitrary: pr s)
  case Nil
  then show ?case by (simp add: unchangedBelow_refl)
next
  case (Cons other rest)
  show ?case
  proof (cases "ph_id (photoAt s photo) = ph_id (photoAt s other) \<or> ph_id (photoAt s other) \<in> pr")
    case True
    then have "absorbSimilarIn photo a rest (pr, s) = (pr', s')"
      using Cons.prems(2) by auto
    from Cons.IH [OF Cons.prems(1) this] True show ?thesis
      by auto
  next
    case skip: False
    show ?thesis
    proof (cases "checkPhotoSimilarity (photoAt s photo) (photoAt s other)")
      case False
      then have "absorbSimilarIn photo a rest (pr, s) = (pr', s')"
        using Cons.prems(2) skip by auto
      from Cons.IH [OF Cons.prems(1) this] skip False show ?thesis
        by auto
    next
      case True
      define s1 where "s1 = pushTo a [other] s"
      have run: "absorbSimilarIn photo a rest (insert (ph_id (photoAt s other)) pr, s1) = (pr', s')"
        using Cons.prems(2) skip True by (auto simp: s1_def)
      have len: "a < length (arrays s1)"
        using Cons.prems(1) by (simp add: s1_def pushTo_facts)
      have ph: "photoAt s1 = photoAt s"
        by (simp add: s1_def pushTo_facts)
      have arr: "photosIn s1 a = photosIn s a @ [photoAt s other]"
        using Cons.prems(1) by (simp add: photosIn_def ph) (simp add: s1_def pushTo_facts)
      have u1: "unchangedBelow a s s1"
        by (simp add: s1_def unchangedBelow_pushTo)
      note ih = Cons.IH [OF len run, unfolded ph]
      have "unchangedBelow a s s'"
        using u1 ih by (blast intro: unchangedBelow_trans)
      moreover have "length (arrays s') = length (arrays s)"
        using ih by (simp add: s1_def pushTo_facts)
      ultimately show ?thesis
        using ih skip True by (simp add: arr)
    qed
  qed
qed

lemma absorbSimilarIn_absorbSimilar:
  assumes "absorbSimilarIn photo (length (arrays s)) others
             (insert (ph_id (photoAt s photo)) pr, snd (allocArray [photo] s)) = (pr', s')"
  shows "unchangedBelow (length (arrays s)) s s' \<and> length (arrays s') = Suc (length (arrays s))
         \<and> (photosIn s' (length (arrays s)), pr')
           = absorbSimilar (photoAt s photo) (map (photoAt s) others) pr"
proof -
  define s1 where "s1 = snd (allocArray [photo] s)"
  have len: "length (arrays s) < length (arrays s1)"
    by (simp add: s1_def allocArray_facts)
  have ph: "photoAt s1 = photoAt s"
    by (simp add: s1_def allocArray_facts)
  have arr: "photosIn s1 (length (arrays s)) = [photoAt s photo]"
    by (simp add: photosIn_def ph) (simp add: s1_def allocArray_facts)
  have u1: "unchangedBelow (length (arrays s)) s s1"
    by (simp add: s1_def unchangedBelow_allocArray)
  note r = absorbSimilarIn_refines [OF len assms [folded s1_def], unfolded ph]
  have "unchangedBelow (length (arrays s)) s s'"
    using u1 r by (blast intro: unchangedBelow_trans)
  moreover have "length (arrays s') = Suc (length (arrays s))"
    using r by (simp add: s1_def allocArray_facts)
  ultimately show ?thesis
    using r by (simp add: arr absorbSimilar_def)
qed

lemma groupLoopIn_refines:
  assumes "validGroups (length (arrays s)) groups"
    and "groupLoopIn all rest (groups, pr, s) = (groups', pr', s')"
  shows "unchangedBelow (length (arrays s)) s s' \<and> validGroups (length (arrays s')) groups'
         \<and> (derefGroups s' groups', pr')
           = foldl (\<lambda>(groups, processedIds) photo.
                      if ph_id photo \<in> processedIds then (groups, processedIds)
                      else
                        (let (similarPhotos, processed) =
                               absorbSimilar photo (map (photoAt s) all) processedIds
                         in (mapSet (ph_id photo) similarPhotos groups, processed)))
                   (derefGroups s groups, pr) (map (photoAt s) rest)"
  using assms
proof (induction rest arbitrary: groups pr s)
  case Nil
  then show ?case by (simp add: unchangedBelow_refl)
next
  case (Cons photo rest)
  show ?case
  proof (cases "ph_id (photoAt s photo) \<in> pr")
    case True
    then have "groupLoopIn all rest (groups, pr, s) = (groups', pr', s')"
      using Cons.prems(2) by simp
    from Cons.IH [OF Cons.prems(1) this] True show ?thesis
      by simp
  next
    case False
    define a where "a = length (arrays s)"
    obtain pr2 s2 where ab: "absorbSimilarIn photo a all
        (insert (ph_id (photoAt s photo)) pr, snd (allocArray [photo] s)) = (pr2, s2)"
      by (cases "absorbSimilarIn photo a all
        (insert (ph_id (photoAt s photo)) pr, snd (allocArray [photo] s))")
    have run: "groupLoopIn all rest (mapSet (ph_id (photoAt s photo)) a groups, pr2, s2)
               = (groups', pr', s')"
      using Cons.prems(2) False ab by (simp add: allocArray_def a_def)
    note r = absorbSimilarIn_absorbSimilar [OF ab [unfolded a_def]]
    have u: "unchangedBelow a s s2" and len2: "length (arrays s2) = Suc a"
      and sim: "(photosIn s2 a, pr2) = absorbSimilar (photoAt s photo) (map (photoAt s) all) pr"
      using r by (simp_all add: a_def)
    have ph2: "photoAt s2 = photoAt s"
      using u by (rule unchangedBelow_photoAt)
    have v2: "validGroups (length (arrays s2)) (mapSet (ph_id (photoAt s photo)) a groups)"
      using Cons.prems(1) by (simp add: len2 validGroups_mapSet validGroups_mono a_def)
    have d2: "derefGroups s2 (mapSet (ph_id (photoAt s photo)) a groups)
              = mapSet (ph_id (photoAt s photo)) (photosIn s2 a) (derefGroups s groups)"
      using u Cons.prems(1) by (simp add: derefGroups_mapSet unchangedBelow_derefGroups a_def)
    note ih = Cons.IH [OF v2 run, unfolded ph2]
    have "unchangedBelow (Suc a) s2 s'"
      using ih by (simp add: len2)
    then have "unchangedBelow a s2 s'"
      by (rule unchangedBelow_mono) simp
    then have "unchangedBelow a s s'"
      using u by (blast intro: unchangedBelow_trans)
    moreover have "absorbSimilar (photoAt s photo) (map (photoAt s) all) pr = (photosIn s2 a, pr2)"
      using sim by simp
    ultimately show ?thesis
      using ih False by (simp add: d2 a_def [symmetric])
  qed
qed

lemma groupSimilarPhotosIn_refines:
  assumes "groupSimilarPhotosIn photosRef s = (groups, s')"
  shows "unchangedBelow (length (arrays s)) s s' \<and> validGroups (length (arrays s')) groups
         \<and> derefGroups s' groups = groupSimilarPhotos (photosIn s photosRef)"
proof -
  obtain pr' where run: "groupLoopIn (arrayAt s photosRef) (arrayAt s photosRef) ([], {}, s) = (groups, pr', s')"
    using assms by (auto simp: groupSimilarPhotosIn_def split: prod.splits)
  have v: "validGroups (length (arrays s)) []"
    by (simp add: validGroups_def)
  note r = groupLoopIn_refines [OF v run]
  have "derefGroups s' groups = groupSimilarPhotos (photosIn s photosRef)"
    using r by (simp add: groupSimilarPhotos_def photosIn_def derefGroups_def)
       (metis fst_conv)
  then show ?thesis
    using r by simp
qed

section \<open>One bucket\<close>

lemma insertBy_map:
  "map f (insertBy (\<lambda>x y. before (f x) (f y)) x xs) = insertBy before (f x) (map f xs)"
  by (induction xs) simp_all

lemma sortBy_map_from:
  "map f (foldl (\<lambda>acc x. insertBy (\<lambda>x y. before (f x) (f y)) x acc) acc xs)
   = foldl (\<lambda>acc x. insertBy before x acc) (map f acc) (map f xs)"
  by (induction xs arbitrary: acc) (simp_all add: insertBy_map)

lemma sortBy_map:
  "map f (sortBy (\<lambda>x y. before (f x) (f y)) xs) = sortBy before (map f xs)"
  using sortBy_map_from [of f before "[]" xs] by (simp add: sortBy_def)

lemma set_insertBy: "set (insertBy before x xs) = insert x (set xs)"
  by (induction xs) auto

lemma set_sortBy_from:
  "set (foldl (\<lambda>acc x. insertBy before x acc) acc xs) = set acc \<union> set xs"
  by (induction xs arbitrary: acc) (auto simp: set_insertBy)

lemma set_sortBy: "set (sortBy before xs) = set xs"
  by (simp add: sortBy_def set_sortBy_from)

lemma sliceTo_map: "map f (sliceTo c xs) = sliceTo c (map f xs)"
  by (cases c) (simp_all add: take_map Let_def)

lemma getEligibleGroupsForBucketIn_refines:
  assumes "validGroups (length (arrays s)) groups"
    and "getEligibleGroupsForBucketIn groups bucket used minQ s = (eligible, s')"
  shows "unchangedBelow (length (arrays s)) s s' \<and> validGroups (length (arrays s')) eligible
         \<and> derefGroups s' eligible
           = map (\<lambda>(groupId, p, rest). (groupId, p # rest))
               (getEligibleGroupsForBucket (derefGroups s groups) bucket used minQ)"
  using assms
proof (induction groups arbitrary: s eligible s')
  case Nil
  then show ?case
    by (simp add: unchangedBelow_refl validGroups_def derefGroups_def
        getEligibleGroupsForBucket_def List.map_filter_simps)
next
  case (Cons g groups)
  obtain groupId a where g: "g = (groupId, a)"
    by (cases g)
  have va: "a < length (arrays s)" and vrest: "validGroups (length (arrays s)) groups"
    using Cons.prems(1) by (simp_all add: g validGroups_def)
  show ?case
  proof (cases "groupId \<in> used")
    case True
    then have run: "getEligibleGroupsForBucketIn groups bucket used minQ s = (eligible, s')"
      using Cons.prems(2) by (simp add: g)
    from Cons.IH [OF vrest run] True show ?thesis
      by (simp add: g derefGroups_def getEligibleGroupsForBucket_def List.map_filter_simps)
  next
    case False
    define keep where "keep = (\<lambda>photo. b_start bucket \<le> dateTime photo \<and> dateTime photo \<le> b_end bucket
                                 \<and> jge (qualityOf photo) (Num minQ))"
    define xs where "xs = filter (\<lambda>r. keep (photoAt s r)) (arrayAt s a)"
    define b where "b = length (arrays s)"
    define s1 where "s1 = snd (allocArray xs s)"
    obtain el s2 where rec: "getEligibleGroupsForBucketIn groups bucket used minQ s1 = (el, s2)"
      by (cases "getEligibleGroupsForBucketIn groups bucket used minQ s1")
    have len1: "length (arrays s1) = Suc b"
      by (simp add: s1_def b_def allocArray_facts)
    have at1: "arrayAt s1 b = xs"
      by (simp add: s1_def b_def allocArray_facts)
    have "getEligibleGroupsForBucketIn ((groupId, a) # groups) bucket used minQ s
          = (if 0 < length (arrayAt s1 b) then ((groupId, b) # el, s2) else (el, s2))"
      using False rec by (simp add: keep_def xs_def s1_def b_def allocArray_def Let_def)
    then have res: "s' = s2" "eligible = (if xs \<noteq> [] then (groupId, b) # el else el)"
      using Cons.prems(2) by (auto simp: g at1 split: if_splits)
    have u1: "unchangedBelow b s s1"
      by (simp add: s1_def b_def unchangedBelow_allocArray)
    have v1: "validGroups (length (arrays s1)) groups"
      using vrest by (simp add: len1 b_def validGroups_mono)
    note ih = Cons.IH [OF v1 rec]
    have "unchangedBelow (Suc b) s1 s2"
      using ih by (simp add: len1)
    then have u12: "unchangedBelow b s1 s2"
      by (rule unchangedBelow_mono) simp
    have u: "unchangedBelow b s s2"
      using u1 u12 by (rule unchangedBelow_trans)
    have d1: "derefGroups s1 groups = derefGroups s groups"
      using u1 vrest by (simp add: unchangedBelow_derefGroups b_def)
    have "unchangedBelow (Suc b) s1 s2"
      using ih by (simp add: len1)
    then have "photosIn s2 b = photosIn s1 b"
      by (rule unchangedBelow_photosIn) simp
    also have "\<dots> = map (photoAt s) xs"
      by (simp add: photosIn_def at1 unchangedBelow_photoAt [OF u1])
    also have "\<dots> = filter keep (photosIn s a)"
      by (simp add: xs_def photosIn_def filter_map comp_def)
    finally have pb: "photosIn s2 b = filter keep (photosIn s a)" .
    have lenle: "Suc b \<le> length (arrays s2)"
      using ih by (simp add: unchangedBelow_def len1)
    have ne: "xs \<noteq> [] \<longleftrightarrow> filter keep (photosIn s a) \<noteq> []"
      by (simp add: xs_def photosIn_def filter_map comp_def)
    have valid: "validGroups (length (arrays s2)) eligible"
      using ih lenle by (simp add: res validGroups_def)
    have pure: "getEligibleGroupsForBucket (derefGroups s ((groupId, a) # groups)) bucket used minQ
        = (case filter keep (photosIn s a) of
             [] \<Rightarrow> getEligibleGroupsForBucket (derefGroups s groups) bucket used minQ
           | p # rest \<Rightarrow> (groupId, p, rest)
                # getEligibleGroupsForBucket (derefGroups s groups) bucket used minQ)"
      using False
      by (simp add: derefGroups_def getEligibleGroupsForBucket_def List.map_filter_simps keep_def
          split: list.splits)
    have "derefGroups s2 eligible
          = map (\<lambda>(groupId, p, rest). (groupId, p # rest))
              (getEligibleGroupsForBucket (derefGroups s ((groupId, a) # groups)) bucket used minQ)"
    proof (cases "filter keep (photosIn s a)")
      case Nil
      then show ?thesis
        using ih ne by (simp add: pure res d1)
    next
      case (Cons p rest)
      then show ?thesis
        using ih ne pb by (simp add: pure res d1) (simp add: derefGroups_def)
    qed
    then show ?thesis
      using u valid by (simp add: res g b_def)
  qed
qed

lemma best_photo_refines:
  "photoAt s (foldl (\<lambda>best current.
                       if jgt (finalOf (photoAt s current)) (finalOf (photoAt s best))
                       then current else best) first others)
   = bestPhotoOf (photoAt s first, map (photoAt s) others)"
proof -
  have "\<And>x. photoAt s (foldl (\<lambda>best current.
                       if jgt (finalOf (photoAt s current)) (finalOf (photoAt s best))
                       then current else best) x others)
        = foldl (\<lambda>best current. if jgt (finalOf current) (finalOf best) then current else best)
            (photoAt s x) (map (photoAt s) others)"
    by (induction others) simp_all
  then show ?thesis
    by (simp add: bestPhotoOf_def)
qed

lemma pickFromGroupsIn_refines:
  assumes "already < sel" and "sel < length (arrays s)"
    and "list_all (\<lambda>g. fst g < sel \<and> arrayAt s (fst g) \<noteq> []) sortedGroups"
  shows "\<exists>s'. pickFromGroupsIn count already sel sortedGroups s = Some s'
           \<and> unchangedBelow sel s s'
           \<and> photosIn s' sel
             = pickFromGroups count (photosIn s already)
                 (map (\<lambda>g. ((hd (photosIn s (fst g)), tl (photosIn s (fst g))), snd g)) sortedGroups)
                 (photosIn s sel)"
  using assms
proof (induction sortedGroups arbitrary: s)
  case Nil
  then show ?case
    by (simp add: unchangedBelow_refl)
next
  case (Cons g rest)
  have len: "length (photosIn s sel) = length (arrayAt s sel)"
    by (simp add: photosIn_def)
  show ?case
  proof (cases "jge (Num (real (length (arrayAt s sel)))) count")
    case True
    then show ?thesis
      by (simp add: unchangedBelow_refl len)
  next
    case False
    have ga: "fst g < sel" and gne: "arrayAt s (fst g) \<noteq> []"
      and vrest: "list_all (\<lambda>g. fst g < sel \<and> arrayAt s (fst g) \<noteq> []) rest"
      using Cons.prems(3) by simp_all
    obtain first others where fo: "arrayAt s (fst g) = first # others"
      using gne by (cases "arrayAt s (fst g)") simp_all
    define bp where "bp = foldl (\<lambda>best current.
                             if jgt (finalOf (photoAt s current)) (finalOf (photoAt s best))
                             then current else best) first others"
    define chosen where "chosen = length (arrays s)"
    define s1 where "s1 = snd (allocArray (arrayAt s already @ arrayAt s sel) s)"
    define s2 where "s2 = (if isPhotoDiverse (photoAt s1 bp) (photosIn s1 chosen)
                           then pushTo sel [bp] s1 else s1)"
    have step: "pickFromGroupsIn count already sel (g # rest) s
                = pickFromGroupsIn count already sel rest s2"
      using False
      by (simp add: fo bp_def chosen_def s1_def s2_def allocArray_def Let_def)
    have ph1: "photoAt s1 = photoAt s"
      by (simp add: s1_def allocArray_facts)
    have ch1: "photosIn s1 chosen = photosIn s already @ photosIn s sel"
      by (simp add: photosIn_def ph1) (simp add: s1_def chosen_def allocArray_facts)
    have best: "photoAt s bp = bestPhotoOf (hd (photosIn s (fst g)), tl (photosIn s (fst g)))"
      by (simp add: bp_def best_photo_refines photosIn_def fo)
    have u1: "unchangedBelow (length (arrays s)) s s1"
      by (simp add: s1_def unchangedBelow_allocArray)
    have len1: "length (arrays s1) = Suc (length (arrays s))"
      by (simp add: s1_def allocArray_facts)
    have sel1: "arrayAt s1 sel = arrayAt s sel"
      using u1 Cons.prems(2) by (rule unchangedBelow_arrayAt)
    have u12: "unchangedBelow sel s1 s2"
      by (simp add: s2_def unchangedBelow_pushTo unchangedBelow_refl)
    have "unchangedBelow sel s s1"
      using u1 Cons.prems(2) by (rule unchangedBelow_mono [OF _ less_imp_le])
    then have u2: "unchangedBelow sel s s2"
      using u12 by (rule unchangedBelow_trans)
    have ph2: "photoAt s2 = photoAt s"
      using u2 by (rule unchangedBelow_photoAt)
    have len2: "sel < length (arrays s2)"
      using Cons.prems(2) by (simp add: s2_def pushTo_facts len1)
    have arr2: "\<And>a. a < sel \<Longrightarrow> arrayAt s2 a = arrayAt s a"
      using u2 by (rule unchangedBelow_arrayAt)
    have pin2: "\<And>a. a < sel \<Longrightarrow> photosIn s2 a = photosIn s a"
      using u2 by (rule unchangedBelow_photosIn)
    have v2: "list_all (\<lambda>g. fst g < sel \<and> arrayAt s2 (fst g) \<noteq> []) rest"
      using vrest arr2 by (auto simp: list_all_iff)
    have sel2: "photosIn s2 sel
                = (if isPhotoDiverse (photoAt s bp) (photosIn s already @ photosIn s sel)
                   then photosIn s sel @ [photoAt s bp] else photosIn s sel)"
    proof -
      have "s2 = (if isPhotoDiverse (photoAt s bp) (photosIn s already @ photosIn s sel)
                  then pushTo sel [bp] s1 else s1)"
        by (simp only: s2_def ch1 ph1)
      moreover have "photosIn s1 sel = photosIn s sel"
        by (simp add: photosIn_def ph1 sel1)
      moreover have "photosIn (pushTo sel [bp] s1) sel = photosIn s sel @ [photoAt s bp]"
        using Cons.prems(2) by (simp add: photosIn_def pushTo_facts ph1 sel1 len1)
      ultimately show ?thesis
        by simp
    qed
    have maps: "map (\<lambda>g. ((hd (photosIn s2 (fst g)), tl (photosIn s2 (fst g))), snd g)) rest
                = map (\<lambda>g. ((hd (photosIn s (fst g)), tl (photosIn s (fst g))), snd g)) rest"
      using vrest pin2 by (auto simp: list_all_iff)
    from Cons.IH [OF Cons.prems(1) len2 v2]
    obtain s' where run: "pickFromGroupsIn count already sel rest s2 = Some s'"
      and u': "unchangedBelow sel s2 s'"
      and val: "photosIn s' sel
                = pickFromGroups count (photosIn s2 already)
                    (map (\<lambda>g. ((hd (photosIn s2 (fst g)), tl (photosIn s2 (fst g))), snd g)) rest)
                    (photosIn s2 sel)"
      by blast
    have u: "unchangedBelow sel s s'"
      using u2 u' by (rule unchangedBelow_trans)
    have "photosIn s' sel
          = pickFromGroups count (photosIn s already)
              (map (\<lambda>g. ((hd (photosIn s (fst g)), tl (photosIn s (fst g))), snd g)) (g # rest))
              (photosIn s sel)"
      using False
      by (simp add: val maps pin2 [OF Cons.prems(1)] sel2 best len Let_def)
    then show ?thesis
      using run u by (simp only: step) simp
  qed
qed

lemma selectBestGroupsFromBucketIn_refines:
  assumes "already < length (arrays s)"
    and "validGroups (length (arrays s)) el"
    and "derefGroups s el = map (\<lambda>(groupId, p, rest). (groupId, p # rest)) pe"
  shows "\<exists>s'. selectBestGroupsFromBucketIn el count already s = Some (length (arrays s), s')
           \<and> unchangedBelow (length (arrays s)) s s'
           \<and> photosIn s' (length (arrays s))
             = selectBestGroupsFromBucket pe count (photosIn s already)"
proof -
  define sel where "sel = length (arrays s)"
  define s1 where "s1 = snd (allocArray [] s)"
  define F :: "string \<times> nat \<Rightarrow> nat \<times> jsnum"
    where "F = (\<lambda>(groupId, photosRef).
                  (photosRef, jmaxOf (map (\<lambda>r. finalOf (photoAt s1 r)) (arrayAt s1 photosRef))))"
  define D :: "nat \<times> jsnum \<Rightarrow> (EnhancedPhoto \<times> EnhancedPhoto list) \<times> jsnum"
    where "D = (\<lambda>g. ((hd (photosIn s1 (fst g)), tl (photosIn s1 (fst g))), snd g))"
  define H :: "string \<times> EnhancedPhoto list \<Rightarrow> (EnhancedPhoto \<times> EnhancedPhoto list) \<times> jsnum"
    where "H = (\<lambda>g. ((hd (snd g), tl (snd g)), jmaxOf (map finalOf (snd g))))"
  define sg where "sg = sortBy (descendingBy snd) (map F el)"
  have run: "selectBestGroupsFromBucketIn el count already s
             = map_option (\<lambda>s2. (sel, s2)) (pickFromGroupsIn count already sel sg s1)"
    by (simp add: selectBestGroupsFromBucketIn_def allocArray_def Let_def F_def sg_def sel_def
        s1_def)
  have u1: "unchangedBelow sel s s1"
    by (simp add: s1_def sel_def unchangedBelow_allocArray)
  have ph1: "photoAt s1 = photoAt s"
    using u1 by (rule unchangedBelow_photoAt)
  have arr1: "\<And>a. a < sel \<Longrightarrow> arrayAt s1 a = arrayAt s a"
    using u1 by (rule unchangedBelow_arrayAt)
  have pin1: "\<And>a. a < sel \<Longrightarrow> photosIn s1 a = photosIn s a"
    using u1 by (rule unchangedBelow_photosIn)
  have len1: "sel < length (arrays s1)"
    by (simp add: s1_def sel_def allocArray_facts)
  have sel1: "photosIn s1 sel = []"
    by (simp add: photosIn_def s1_def sel_def allocArray_facts)
  have below: "\<And>g. g \<in> set el \<Longrightarrow> snd g < sel"
    using assms(2) by (auto simp: validGroups_def list_all_iff sel_def)
  have "\<And>x. x \<in> set (derefGroups s el) \<Longrightarrow> snd x \<noteq> []"
    by (auto simp: assms(3))
  then have ne: "\<And>g. g \<in> set el \<Longrightarrow> photosIn s (snd g) \<noteq> []"
    by (force simp: derefGroups_def)
  have v: "list_all (\<lambda>g. fst g < sel \<and> arrayAt s1 (fst g) \<noteq> []) sg"
    using below ne arr1
    by (auto simp: list_all_iff sg_def set_sortBy F_def photosIn_def)
  from pickFromGroupsIn_refines [of already sel s1 sg count] assms(1) len1 v
  obtain s' where pick: "pickFromGroupsIn count already sel sg s1 = Some s'"
    and u': "unchangedBelow sel s1 s'"
    and val: "photosIn s' sel
              = pickFromGroups count (photosIn s1 already) (map D sg) (photosIn s1 sel)"
    by (auto simp: sel_def D_def)
  have u: "unchangedBelow sel s s'"
    using u1 u' by (rule unchangedBelow_trans)
  have same: "descendingBy snd = (\<lambda>x y. descendingBy snd (D x) (D y))"
    by (simp add: descendingBy_def D_def fun_eq_iff)
  have "map D sg = map D (sortBy (\<lambda>x y. descendingBy snd (D x) (D y)) (map F el))"
    by (simp only: sg_def same [symmetric])
  also have "\<dots> = sortBy (descendingBy snd) (map D (map F el))"
    by (rule sortBy_map)
  finally have sorted_eq: "map D sg = sortBy (descendingBy snd) (map D (map F el))" .
  have "\<And>g. g \<in> set el \<Longrightarrow> D (F g) = H (fst g, photosIn s (snd g))"
  proof -
    fix g
    assume "g \<in> set el"
    then have b: "snd g < sel"
      by (rule below)
    have "map (\<lambda>r. finalOf (photoAt s r)) (arrayAt s (snd g)) = map finalOf (photosIn s (snd g))"
      by (simp add: photosIn_def comp_def)
    then show "D (F g) = H (fst g, photosIn s (snd g))"
      by (simp add: D_def F_def H_def split_def pin1 [OF b] arr1 [OF b] ph1)
  qed
  then have "map D (map F el) = map H (derefGroups s el)"
    by (simp add: derefGroups_def split_def)
  also have "\<dots> = map (\<lambda>(groupId, g). (g, jmaxOf (map finalOf (fst g # snd g)))) pe"
    by (simp add: assms(3) H_def split_def)
  finally have groups_eq:
    "map D (map F el) = map (\<lambda>(groupId, g). (g, jmaxOf (map finalOf (fst g # snd g)))) pe" .
  have al: "already < sel"
    using assms(1) by (simp add: sel_def)
  have "photosIn s' sel = selectBestGroupsFromBucket pe count (photosIn s already)"
    unfolding selectBestGroupsFromBucket_def Let_def val sorted_eq groups_eq sel1 pin1 [OF al]
    by (rule refl)
  then have "\<exists>s'. selectBestGroupsFromBucketIn el count already s = Some (sel, s')
           \<and> unchangedBelow sel s s'
           \<and> photosIn s' sel = selectBestGroupsFromBucket pe count (photosIn s already)"
    using u by (simp add: run pick)
  then show ?thesis
    by (simp only: sel_def)
qed

lemma pushLoop_refines:
  assumes "sp < length (arrays s)"
    and "foldl (\<lambda>(used, s) photo. (insert (ph_id (photoAt s photo)) used, pushTo sp [photo] s))
               (used, s) refs = (used', s')"
  shows "unchangedBelow sp s s'
         \<and> (photosIn s' sp, used')
           = foldl (\<lambda>(selectedPhotos, usedGroups) photo.
                      (selectedPhotos @ [photo], insert (ph_id photo) usedGroups))
                   (photosIn s sp, used) (map (photoAt s) refs)"
  using assms
proof (induction refs arbitrary: used s)
  case Nil
  then show ?case
    by (simp add: unchangedBelow_refl)
next
  case (Cons r refs)
  define s1 where "s1 = pushTo sp [r] s"
  have u1: "unchangedBelow sp s s1"
    by (simp add: s1_def unchangedBelow_pushTo)
  have ph1: "photoAt s1 = photoAt s"
    by (simp add: s1_def pushTo_facts)
  have len1: "sp < length (arrays s1)"
    using Cons.prems(1) by (simp add: s1_def pushTo_facts)
  have sp1: "photosIn s1 sp = photosIn s sp @ [photoAt s r]"
    using Cons.prems(1) by (simp add: photosIn_def ph1) (simp add: s1_def pushTo_facts)
  have run: "foldl (\<lambda>(used, s) photo. (insert (ph_id (photoAt s photo)) used, pushTo sp [photo] s))
               (insert (ph_id (photoAt s r)) used, s1) refs = (used', s')"
    using Cons.prems(2) by (simp add: s1_def)
  note ih = Cons.IH [OF len1 run]
  have "unchangedBelow sp s s'"
    using u1 ih by (blast intro: unchangedBelow_trans)
  then show ?case
    using ih by (simp add: sp1 ph1)
qed

lemma fillBucketIn_refines:
  assumes "sp < length (arrays s)" and "validGroups sp groups"
  shows "\<exists>used' s'. fillBucketIn groups ppb minQ sp (used, s) bucket = Some (used', s')
           \<and> unchangedBelow sp s s'
           \<and> (photosIn s' sp, used')
             = fillBucket (derefGroups s groups) ppb minQ (photosIn s sp, used) bucket"
proof -
  have vg: "validGroups (length (arrays s)) groups"
    using assms by (simp add: validGroups_mono)
  obtain el s1 where elig: "getEligibleGroupsForBucketIn groups bucket used minQ s = (el, s1)"
    by (cases "getEligibleGroupsForBucketIn groups bucket used minQ s")
  define pe where "pe = getEligibleGroupsForBucket (derefGroups s groups) bucket used minQ"
  from getEligibleGroupsForBucketIn_refines [OF vg elig]
  have u1: "unchangedBelow (length (arrays s)) s s1"
    and v1: "validGroups (length (arrays s1)) el"
    and d1: "derefGroups s1 el = map (\<lambda>(groupId, p, rest). (groupId, p # rest)) pe"
    by (simp_all add: pe_def)
  have len1: "sp < length (arrays s1)"
    using u1 assms(1) by (simp add: unchangedBelow_def)
  have sp1: "photosIn s1 sp = photosIn s sp"
    using u1 assms(1) by (rule unchangedBelow_photosIn)
  from selectBestGroupsFromBucketIn_refines [OF len1 v1 d1, of ppb]
  obtain s2 where best: "selectBestGroupsFromBucketIn el ppb sp s1 = Some (length (arrays s1), s2)"
    and u2: "unchangedBelow (length (arrays s1)) s1 s2"
    and val: "photosIn s2 (length (arrays s1)) = selectBestGroupsFromBucket pe ppb (photosIn s1 sp)"
    by blast
  have len2: "sp < length (arrays s2)"
    using u2 len1 by (simp add: unchangedBelow_def)
  have sp2: "photosIn s2 sp = photosIn s sp"
    using unchangedBelow_photosIn [OF u2 len1] sp1 by simp
  have u02: "unchangedBelow sp s s2"
  proof -
    have "unchangedBelow sp s s1"
      using u1 by (rule unchangedBelow_mono) (simp add: assms(1) less_imp_le)
    moreover have "unchangedBelow sp s1 s2"
      using u2 by (rule unchangedBelow_mono) (simp add: len1 less_imp_le)
    ultimately show ?thesis
      by (rule unchangedBelow_trans)
  qed
  obtain used' s' where loop:
    "foldl (\<lambda>(used, s) photo. (insert (ph_id (photoAt s photo)) used, pushTo sp [photo] s))
       (used, s2) (arrayAt s2 (length (arrays s1))) = (used', s')"
    by (cases "foldl (\<lambda>(used, s) photo. (insert (ph_id (photoAt s photo)) used, pushTo sp [photo] s))
       (used, s2) (arrayAt s2 (length (arrays s1)))")
  note pl = pushLoop_refines [OF len2 loop]
  have run: "fillBucketIn groups ppb minQ sp (used, s) bucket = Some (used', s')"
    by (simp add: fillBucketIn_def elig best loop)
  have u: "unchangedBelow sp s s'"
    using u02 pl by (blast intro: unchangedBelow_trans)
  have "(photosIn s' sp, used')
        = fillBucket (derefGroups s groups) ppb minQ (photosIn s sp, used) bucket"
    using pl val
    by (simp add: fillBucket_def pe_def [symmetric] sp1 sp2 photosIn_def [of s2 "length (arrays s1)"])
  then show ?thesis
    using run u by simp
qed

lemma fillBucketsIn_refines:
  assumes "sp < length (arrays s)" and "validGroups sp groups"
  shows "\<exists>used' s'. fillBucketsIn groups ppb minQ sp buckets (used, s) = Some (used', s')
           \<and> unchangedBelow sp s s'
           \<and> (photosIn s' sp, used')
             = foldl (fillBucket (derefGroups s groups) ppb minQ) (photosIn s sp, used) buckets"
  using assms
proof (induction buckets arbitrary: used s)
  case Nil
  then show ?case
    by (simp add: unchangedBelow_refl)
next
  case (Cons bucket buckets)
  from fillBucketIn_refines [OF Cons.prems, of ppb minQ used bucket]
  obtain used1 s1 where one: "fillBucketIn groups ppb minQ sp (used, s) bucket = Some (used1, s1)"
    and u1: "unchangedBelow sp s s1"
    and val1: "(photosIn s1 sp, used1)
               = fillBucket (derefGroups s groups) ppb minQ (photosIn s sp, used) bucket"
    by blast
  have len1: "sp < length (arrays s1)"
    using u1 Cons.prems(1) by (simp add: unchangedBelow_def)
  have d1: "derefGroups s1 groups = derefGroups s groups"
    using u1 Cons.prems(2) by (rule unchangedBelow_derefGroups)
  from Cons.IH [OF len1 Cons.prems(2), of used1]
  obtain used' s' where rest: "fillBucketsIn groups ppb minQ sp buckets (used1, s1) = Some (used', s')"
    and u': "unchangedBelow sp s1 s'"
    and val: "(photosIn s' sp, used')
              = foldl (fillBucket (derefGroups s1 groups) ppb minQ) (photosIn s1 sp, used1) buckets"
    by blast
  have "unchangedBelow sp s s'"
    using u1 u' by (rule unchangedBelow_trans)
  then show ?case
    by (simp add: one rest val d1 val1)
qed

section \<open>Backfill\<close>

lemma collectCandidatesIn_refines:
  assumes "cand < length (arrays s)" and "validGroups cand groups"
  shows "unchangedBelow cand s (collectCandidatesIn groups used minQ cand s)
         \<and> photosIn (collectCandidatesIn groups used minQ cand s) cand
           = photosIn s cand
             @ concat (map (\<lambda>(groupId, ps).
                              if groupId \<notin> used
                              then filter (\<lambda>photo. jge (qualityOf photo) (Num minQ)) ps
                              else [])
                           (derefGroups s groups))"
  using assms
proof (induction groups arbitrary: s)
  case Nil
  then show ?case
    by (simp add: unchangedBelow_refl derefGroups_def)
next
  case (Cons g groups)
  obtain groupId a where g: "g = (groupId, a)"
    by (cases g)
  have va: "a < cand" and vrest: "validGroups cand groups"
    using Cons.prems(2) by (simp_all add: g validGroups_def)
  define xs where "xs = filter (\<lambda>r. jge (qualityOf (photoAt s r)) (Num minQ)) (arrayAt s a)"
  define s1 where "s1 = snd (allocArray xs s)"
  define s2 where "s2 = (if groupId \<notin> used then pushTo cand xs s1 else s)"
  have step: "collectCandidatesIn (g # groups) used minQ cand s
              = collectCandidatesIn groups used minQ cand s2"
    by (simp add: g s2_def s1_def xs_def allocArray_def arrayAt_def Let_def)
  have u1: "unchangedBelow (length (arrays s)) s s1"
    by (simp add: s1_def unchangedBelow_allocArray)
  have len1: "cand < length (arrays s1)"
    using Cons.prems(1) by (simp add: s1_def allocArray_facts)
  have c1: "arrayAt s1 cand = arrayAt s cand"
    using u1 Cons.prems(1) by (rule unchangedBelow_arrayAt)
  have ph1: "photoAt s1 = photoAt s"
    using u1 by (rule unchangedBelow_photoAt)
  have "unchangedBelow cand s s1"
    using u1 by (rule unchangedBelow_mono) (simp add: Cons.prems(1) less_imp_le)
  moreover have "unchangedBelow cand s1 (pushTo cand xs s1)"
    by (simp add: unchangedBelow_pushTo)
  ultimately have "unchangedBelow cand s (pushTo cand xs s1)"
    by (rule unchangedBelow_trans)
  then have u2: "unchangedBelow cand s s2"
    by (simp add: s2_def unchangedBelow_refl)
  have len2: "cand < length (arrays s2)"
    using Cons.prems(1) len1 by (simp add: s2_def pushTo_facts)
  have "map (photoAt s) xs = filter (\<lambda>photo. jge (qualityOf photo) (Num minQ)) (photosIn s a)"
    by (simp add: xs_def photosIn_def filter_map comp_def)
  then have "photosIn (pushTo cand xs s1) cand
             = photosIn s cand @ filter (\<lambda>photo. jge (qualityOf photo) (Num minQ)) (photosIn s a)"
    using len1 by (simp add: photosIn_def pushTo_facts ph1 c1)
  then have c2: "photosIn s2 cand
             = photosIn s cand
               @ (if groupId \<notin> used
                  then filter (\<lambda>photo. jge (qualityOf photo) (Num minQ)) (photosIn s a)
                  else [])"
    by (simp add: s2_def)
  have d2: "derefGroups s2 groups = derefGroups s groups"
    using u2 vrest by (rule unchangedBelow_derefGroups)
  note ih = Cons.IH [OF len2 vrest]
  have "unchangedBelow cand s (collectCandidatesIn groups used minQ cand s2)"
    using u2 ih by (blast intro: unchangedBelow_trans)
  moreover have "derefGroups s (g # groups) = (groupId, photosIn s a) # derefGroups s groups"
    by (simp add: derefGroups_def g)
  ultimately show ?case
    using ih by (simp only: step) (simp add: d2 c2)
qed

lemma selectRemainingBestPhotosIn_refines:
  assumes "validGroups (length (arrays s)) groups"
    and "selectRemainingBestPhotosIn groups used count minQ s = (r, s')"
  shows "unchangedBelow (length (arrays s)) s s' \<and> r < length (arrays s')
         \<and> photosIn s' r = selectRemainingBestPhotos (derefGroups s groups) used count minQ"
proof -
  define cand where "cand = length (arrays s)"
  define s1 where "s1 = snd (allocArray [] s)"
  define s2 where "s2 = collectCandidatesIn groups used minQ cand s1"
  define before where "before = (\<lambda>a b. descendingBy finalOf (photoAt s2 a) (photoAt s2 b))"
  define s3 where "s3 = sortIn cand before s2"
  define ys where "ys = sliceTo count (arrayAt s3 cand)"
  have run: "selectRemainingBestPhotosIn groups used count minQ s
             = (length (arrays s3), snd (allocArray ys s3))"
    by (simp add: selectRemainingBestPhotosIn_def allocArray_def Let_def cand_def s1_def s2_def
        before_def s3_def ys_def)
  have res: "r = length (arrays s3)" "s' = snd (allocArray ys s3)"
    using assms(2) by (simp_all add: run)
  have u1: "unchangedBelow cand s s1"
    by (simp add: s1_def cand_def unchangedBelow_allocArray)
  have len1: "cand < length (arrays s1)"
    by (simp add: s1_def cand_def allocArray_facts)
  have c1: "photosIn s1 cand = []"
    by (simp add: photosIn_def s1_def cand_def allocArray_facts)
  have v: "validGroups cand groups"
    using assms(1) by (simp add: cand_def)
  have d1: "derefGroups s1 groups = derefGroups s groups"
    using u1 v by (rule unchangedBelow_derefGroups)
  note cc = collectCandidatesIn_refines [OF len1 v, of used minQ]
  have u2: "unchangedBelow cand s1 s2"
    using cc by (simp add: s2_def)
  have len2: "cand < length (arrays s2)"
    using u2 len1 by (simp add: unchangedBelow_def)
  have c2: "photosIn s2 cand
            = concat (map (\<lambda>(groupId, ps).
                              if groupId \<notin> used
                              then filter (\<lambda>photo. jge (qualityOf photo) (Num minQ)) ps
                              else [])
                          (derefGroups s groups))"
    using cc by (simp add: s2_def c1 d1)
  have u3: "unchangedBelow cand s2 s3"
    by (simp add: s3_def unchangedBelow_sortIn)
  have ph3: "photoAt s3 = photoAt s2"
    by (simp add: s3_def sortIn_facts)
  have "map (photoAt s2) (sortBy before (arrayAt s2 cand))
        = sortBy (descendingBy finalOf) (map (photoAt s2) (arrayAt s2 cand))"
    unfolding before_def by (rule sortBy_map)
  then have c3: "photosIn s3 cand = sortBy (descendingBy finalOf) (photosIn s2 cand)"
    using len2 by (simp add: photosIn_def ph3) (simp add: s3_def sortIn_facts)
  have u4: "unchangedBelow (length (arrays s3)) s3 s'"
    by (simp add: res unchangedBelow_allocArray)
  have len3: "cand < length (arrays s3)"
    using len2 by (simp add: s3_def sortIn_facts)
  have "unchangedBelow cand s3 s'"
    using u4 by (rule unchangedBelow_mono) (simp add: len3 less_imp_le)
  then have u: "unchangedBelow cand s s'"
    using u1 u2 u3 by (blast intro: unchangedBelow_trans)
  have "photosIn s' r = map (photoAt s3) ys"
    by (simp add: photosIn_def res allocArray_facts)
  also have "\<dots> = sliceTo count (photosIn s3 cand)"
    by (simp add: ys_def sliceTo_map photosIn_def)
  finally have "photosIn s' r = selectRemainingBestPhotos (derefGroups s groups) used count minQ"
    by (simp add: c3 c2 selectRemainingBestPhotos_def)
  moreover have "r < length (arrays s')"
    by (simp add: res allocArray_facts)
  moreover have "unchangedBelow (length (arrays s)) s s'"
    using u by (simp only: cand_def)
  ultimately show ?thesis
    by simp
qed

section \<open>The whole pass\<close>

lemma selectWithBucketsIn_refines:
  assumes "validGroups (length (arrays s)) groups"
  shows "\<exists>r s'. selectWithBucketsIn groups options timeBuckets s = Some (r, s')
           \<and> unchangedBelow (length (arrays s)) s s'
           \<and> photosIn s' r = selectWithBuckets (derefGroups s groups) options timeBuckets"
proof -
  define sp where "sp = length (arrays s)"
  define s1 where "s1 = snd (allocArray [] s)"
  define ppb where "ppb = jceil (jdiv (limit options) (Num (real (length timeBuckets))))"
  have v: "validGroups sp groups"
    using assms by (simp add: sp_def)
  have u1: "unchangedBelow sp s s1"
    by (simp add: s1_def sp_def unchangedBelow_allocArray)
  have len1: "sp < length (arrays s1)"
    by (simp add: s1_def sp_def allocArray_facts)
  have sp1: "photosIn s1 sp = []"
    by (simp add: photosIn_def s1_def sp_def allocArray_facts)
  have d1: "derefGroups s1 groups = derefGroups s groups"
    using u1 v by (rule unchangedBelow_derefGroups)
  from fillBucketsIn_refines [OF len1 v, of ppb "minQuality options" timeBuckets "{}"]
  obtain used2 s2 where fill:
      "fillBucketsIn groups ppb (minQuality options) sp timeBuckets ({}, s1) = Some (used2, s2)"
    and u2: "unchangedBelow sp s1 s2"
    and val2: "(photosIn s2 sp, used2)
               = foldl (fillBucket (derefGroups s groups) ppb (minQuality options)) ([], {})
                   timeBuckets"
    by (auto simp: sp1 d1)
  define filled where
    "filled = foldl (fillBucket (derefGroups s groups) ppb (minQuality options)) ([], {}) timeBuckets"
  have f1: "fst filled = photosIn s2 sp" and f2: "snd filled = used2"
    using val2 by (simp_all add: filled_def [symmetric] prod_eq_iff)
  have len_sp: "length (arrayAt s2 sp) = length (fst filled)"
    by (simp add: f1 photosIn_def)
  have u02: "unchangedBelow sp s s2"
    using u1 u2 by (rule unchangedBelow_trans)
  have len2: "sp < length (arrays s2)"
    using u2 len1 by (simp add: unchangedBelow_def)
  have d2: "derefGroups s2 groups = derefGroups s groups"
    using u02 v by (rule unchangedBelow_derefGroups)
  have v2: "validGroups (length (arrays s2)) groups"
    using v len2 by (simp add: validGroups_mono)
  define cnt where "cnt = jsub (limit options) (Num (real (length (fst filled))))"
  define rem where "rem = fst (selectRemainingBestPhotosIn groups used2 cnt (minQuality options) s2)"
  define sr where "sr = snd (selectRemainingBestPhotosIn groups used2 cnt (minQuality options) s2)"
  define s3 where "s3 = (if jlt (Num (real (length (fst filled)))) (limit options)
                         then pushTo sp (arrayAt sr rem) sr else s2)"
  define r where "r = length (arrays s3)"
  define s' where "s' = snd (allocArray (sliceTo (limit options) (arrayAt s3 sp)) s3)"
  have run: "selectWithBucketsIn groups options timeBuckets s = Some (r, s')"
    by (simp add: selectWithBucketsIn_def Let_def allocArray_def [of "[]"] sp_def [symmetric]
        s1_def [unfolded allocArray_def, simplified, symmetric] ppb_def [symmetric] fill len_sp
        cnt_def [symmetric] split_def rem_def [symmetric] sr_def [symmetric] s3_def [symmetric])
       (simp add: allocArray_def r_def s'_def s3_def)
  have rs: "selectRemainingBestPhotosIn groups used2 cnt (minQuality options) s2 = (rem, sr)"
    by (simp add: rem_def sr_def)
  note sel = selectRemainingBestPhotosIn_refines [OF v2 rs]
  have usr: "unchangedBelow (length (arrays s2)) s2 sr"
    using sel by simp
  have lens: "sp < length (arrays sr)"
    using usr len2 by (simp add: unchangedBelow_def)
  have spr: "photosIn sr sp = photosIn s2 sp"
    using usr len2 by (rule unchangedBelow_photosIn)
  have "unchangedBelow sp s2 sr"
    using usr by (rule unchangedBelow_mono) (simp add: len2 less_imp_le)
  moreover have "unchangedBelow sp sr (pushTo sp (arrayAt sr rem) sr)"
    by (simp add: unchangedBelow_pushTo)
  ultimately have "unchangedBelow sp s2 (pushTo sp (arrayAt sr rem) sr)"
    by (rule unchangedBelow_trans)
  then have u3: "unchangedBelow sp s2 s3"
    by (simp add: s3_def unchangedBelow_refl)
  have "photosIn (pushTo sp (arrayAt sr rem) sr) sp
        = fst filled @ selectRemainingBestPhotos (derefGroups s groups) (snd filled) cnt
                         (minQuality options)"
    using sel lens spr
    by (simp add: photosIn_def pushTo_facts f1 f2 d2)
  then have sp3: "photosIn s3 sp
        = (if jlt (Num (real (length (fst filled)))) (limit options)
           then fst filled @ selectRemainingBestPhotos (derefGroups s groups) (snd filled) cnt
                               (minQuality options)
           else fst filled)"
    by (simp add: s3_def f1)
  have len3: "sp < length (arrays s3)"
    using u3 len2 by (simp add: unchangedBelow_def)
  have u4: "unchangedBelow (length (arrays s3)) s3 s'"
    by (simp add: s'_def unchangedBelow_allocArray)
  have "unchangedBelow sp s3 s'"
    using u4 by (rule unchangedBelow_mono) (simp add: len3 less_imp_le)
  then have u: "unchangedBelow sp s s'"
    using u02 u3 by (blast intro: unchangedBelow_trans)
  have "photosIn s' r = map (photoAt s3) (sliceTo (limit options) (arrayAt s3 sp))"
    by (simp add: photosIn_def r_def s'_def allocArray_facts)
  also have "\<dots> = sliceTo (limit options) (photosIn s3 sp)"
    by (simp add: sliceTo_map photosIn_def)
  also have "\<dots> = selectWithBuckets (derefGroups s groups) options timeBuckets"
    unfolding selectWithBuckets_def Let_def ppb_def [symmetric] filled_def [symmetric]
      cnt_def [symmetric] sp3
    by (rule refl)
  finally have "photosIn s' r = selectWithBuckets (derefGroups s groups) options timeBuckets" .
  then show ?thesis
    using run u by (simp add: sp_def)
qed

lemma selectHighlightsIn_refines:
  assumes "validPool s pool"
  shows "case selectHighlightsIn pool options s of
           None \<Rightarrow> selectHighlights (selectorOf s pool) options = None
         | Some (r, s') \<Rightarrow>
             selectHighlights (selectorOf s pool) options = Some (photosIn s' r)
             \<and> take (length (arrays s)) (arrays s') = arrays s
             \<and> take (length (objects s)) (objects s') = objects s
             \<and> tables s' = tables s"
proof -
  have vp: "list_all (\<lambda>r. r < length (objects s)) (arrayAt s pool)"
    using assms by (simp add: validPool_def)
  obtain rs s1 where sc: "scorePhotosIn pool options (arrayAt s pool) s = (rs, s1)"
    by (cases "scorePhotosIn pool options (arrayAt s pool) s")
  from scorePhotosIn_refines [OF vp vp sc]
  have a1: "arrays s1 = arrays s" and t1: "tables s1 = tables s"
    and o1: "take (length (objects s)) (objects s1) = objects s"
    and m1: "map (photoAt s1) rs = map (scorePhoto (selectorOf s pool) options) (photosIn s pool)"
    by (simp_all add: photosIn_def)
  define scored where "scored = length (arrays s1)"
  define s2 where "s2 = snd (allocArray rs s1)"
  obtain groups s3 where gr: "groupSimilarPhotosIn scored s2 = (groups, s3)"
    by (cases "groupSimilarPhotosIn scored s2")
  have run: "selectHighlightsIn pool options s = selectDiverseHighlightsIn groups options s3"
    using gr by (simp add: selectHighlightsIn_def sc allocArray_def scored_def s2_def)
  from groupSimilarPhotosIn_refines [OF gr]
  have u3: "unchangedBelow (length (arrays s2)) s2 s3"
    and v3: "validGroups (length (arrays s3)) groups"
    and d3: "derefGroups s3 groups = groupSimilarPhotos (photosIn s2 scored)"
    by simp_all
  have u2: "unchangedBelow (length (arrays s1)) s1 s2"
    by (simp add: s2_def unchangedBelow_allocArray)
  have p2: "photosIn s2 scored = map (scorePhoto (selectorOf s pool) options) (photosIn s pool)"
    using m1 by (simp add: photosIn_def s2_def scored_def allocArray_facts)
  have len2: "length (arrays s1) \<le> length (arrays s2)"
    by (simp add: s2_def allocArray_facts)
  have "unchangedBelow (length (arrays s1)) s2 s3"
    using u3 len2 by (rule unchangedBelow_mono)
  then have u13: "unchangedBelow (length (arrays s1)) s1 s3"
    using u2 by (blast intro: unchangedBelow_trans)
  have pure: "selectHighlights (selectorOf s pool) options
              = selectDiverseHighlights (derefGroups s3 groups) options"
    by (simp add: selectHighlights_def Let_def d3 p2 selectorOf_def)
  show ?thesis
  proof (cases "createTimeBuckets (timeRange options)")
    case None
    then show ?thesis
      by (simp add: run pure selectDiverseHighlightsIn_def selectDiverseHighlights_def)
  next
    case (Some timeBuckets)
    from selectWithBucketsIn_refines [OF v3, of options timeBuckets]
    obtain r s' where w: "selectWithBucketsIn groups options timeBuckets s3 = Some (r, s')"
      and u': "unchangedBelow (length (arrays s3)) s3 s'"
      and val: "photosIn s' r = selectWithBuckets (derefGroups s3 groups) options timeBuckets"
      by blast
    have len3: "length (arrays s1) \<le> length (arrays s3)"
      using u13 by (simp add: unchangedBelow_def)
    have "unchangedBelow (length (arrays s1)) s3 s'"
      using u' len3 by (rule unchangedBelow_mono)
    then have u: "unchangedBelow (length (arrays s1)) s1 s'"
      using u13 by (blast intro: unchangedBelow_trans)
    have "take (length (arrays s)) (arrays s') = arrays s"
      using u by (simp add: unchangedBelow_def a1)
    moreover have "objects s' = objects s1" and "tables s' = tables s"
      using u by (simp_all add: unchangedBelow_def t1)
    ultimately show ?thesis
      using Some o1
      by (simp add: run pure selectDiverseHighlightsIn_def selectDiverseHighlights_def w val)
  qed
qed

lemma selectHighlightsIn_frame:
  assumes "validPool s pool" and "selectHighlightsIn pool options s = Some (r, s')"
  shows "arrayAt s' pool = arrayAt s pool \<and> photosIn s' pool = photosIn s pool
         \<and> tables s' = tables s \<and> validPool s' pool"
proof -
  from selectHighlightsIn_refines [OF assms(1), of options]
  have a: "take (length (arrays s)) (arrays s') = arrays s"
    and b: "take (length (objects s)) (objects s') = objects s"
    and t: "tables s' = tables s"
    by (simp_all add: assms(2))
  have pl: "pool < length (arrays s)"
    and vp: "list_all (\<lambda>r. r < length (objects s)) (arrayAt s pool)"
    using assms(1) by (simp_all add: validPool_def)
  have la: "length (arrays s) \<le> length (arrays s')"
    using a by (metis length_take min.cobounded1)
  have lo: "length (objects s) \<le> length (objects s')"
    using b by (metis length_take min.cobounded1)
  have "arrays s' ! pool = take (length (arrays s)) (arrays s') ! pool"
    using pl by simp
  then have arr: "arrayAt s' pool = arrayAt s pool"
    by (simp add: arrayAt_def a)
  have "\<And>x. x < length (objects s) \<Longrightarrow> objects s' ! x = take (length (objects s)) (objects s') ! x"
    by simp
  then have "\<And>x. x < length (objects s) \<Longrightarrow> photoAt s' x = photoAt s x"
    by (simp add: photoAt_def b)
  then have "photosIn s' pool = photosIn s pool"
    using vp by (auto simp: photosIn_def arr list_all_iff)
  moreover have "validPool s' pool"
    using pl vp la lo by (auto simp: validPool_def arr list_all_iff)
  ultimately show ?thesis
    using arr t by simp
qed

section \<open>Two calls in a row\<close>

text \<open>
  C8. \<open>selectHighlights\<close> is called on a selector whose array \<open>this.photos\<close> refers to
  photo objects, and returns. Then the call has left the array \<open>this.photos\<close>, the
  photos in it and the two label-frequency tables as they were; and a second call with
  the same options, made on the store that the first call left, returns too, and the
  list of photos it returns is, photo by photo and in the same order, the list that the
  first call returned.
\<close>

theorem selectHighlights_repeatable:
  assumes "validPool s pool" and "selectHighlightsIn pool options s = Some (r1, s1)"
  shows "arrayAt s1 pool = arrayAt s pool \<and> photosIn s1 pool = photosIn s pool
         \<and> tables s1 = tables s
         \<and> (\<exists>r2 s2. selectHighlightsIn pool options s1 = Some (r2, s2)
                     \<and> photosIn s2 r2 = photosIn s1 r1)"
proof -
  note frame = selectHighlightsIn_frame [OF assms]
  have same: "selectorOf s1 pool = selectorOf s pool"
    using frame by (simp add: selectorOf_def)
  have first: "selectHighlights (selectorOf s pool) options = Some (photosIn s1 r1)"
    using selectHighlightsIn_refines [OF assms(1), of options] by (simp add: assms(2))
  have v1: "validPool s1 pool"
    using frame by simp
  have "\<exists>r2 s2. selectHighlightsIn pool options s1 = Some (r2, s2)
                 \<and> photosIn s2 r2 = photosIn s1 r1"
    using selectHighlightsIn_refines [OF v1, of options] first
    by (cases "selectHighlightsIn pool options s1") (auto simp: same)
  then show ?thesis
    using frame by simp
qed

theorem selectHighlights_repeatable_witness:
  "validPool storeAB 0
   \<and> (\<exists>r1 s1. selectHighlightsIn 0 optionsAB storeAB = Some (r1, s1)
         \<and> photosIn s1 r1 = [scoredB, scoredB, scoredA]
         \<and> photosIn s1 0 = [enhancedA, enhancedB]
         \<and> tables s1 = tables storeAB
         \<and> (\<exists>r2 s2. selectHighlightsIn 0 optionsAB s1 = Some (r2, s2)
               \<and> photosIn s2 r2 = [scoredB, scoredB, scoredA]))"
proof -
  have vp: "validPool storeAB 0"
    by (simp add: validPool_def storeAB_def arrayAt_def)
  have pool: "photosIn storeAB 0 = [enhancedA, enhancedB]"
    by (simp add: photosIn_def arrayAt_def photoAt_def storeAB_def)
  have "selectorAB = \<lparr>photos = [enhancedA, enhancedB], labelFrequencies = tables storeAB\<rparr>"
    by (simp add: selectorAB_photos [symmetric] storeAB_def)
  then have sel: "selectorOf storeAB 0 = selectorAB"
    by (simp add: selectorOf_def pool)
  obtain r1 s1 where run: "selectHighlightsIn 0 optionsAB storeAB = Some (r1, s1)"
    and val: "photosIn s1 r1 = [scoredB, scoredB, scoredA]"
    using selectHighlightsIn_refines [OF vp, of optionsAB] selectHighlights_AB
    by (cases "selectHighlightsIn 0 optionsAB storeAB") (auto simp: sel)
  from selectHighlights_repeatable [OF vp run] show ?thesis
    using vp run val pool by auto
qed

end
